(* ===== verification/Prelude.thy ===== *)
theory Prelude
  imports Main "HOL-Library.Word" "HOL-Library.Multiset" "HOL-Library.Char_ord"
    "HOL-Library.List_Lexorder"
begin

text \<open>
  What every component of the bridge shares: the fixed-width signed integers
  of Go, the functions of the packages \<^verbatim>\<open>strings\<close> and \<^verbatim>\<open>strconv\<close> the sources call,
  buffered channels used through \<^verbatim>\<open>select\<close> with a \<^verbatim>\<open>default\<close> branch, and the
  contract of a bounded first-in first-out queue as a locale.

  A Go string is a sequence of bytes, here a \<^typ>\<open>string\<close> (a list of 8-bit
  characters).  The functions on letters and blanks act on the ASCII range, the
  range of the URIs, header values, digits and environment values the program
  compares; bytes above 127 are kept as they are.
\<close>

named_theorems go_string "defining equations of the Go string functions"
named_theorems go_chan "equations of buffered channels"
named_theorems go_int "fixed-width integer arithmetic that does not wrap"

section \<open>Signed integers of fixed width\<close>

text \<open>The value a Go \<^verbatim>\<open>int32\<close> or \<^verbatim>\<open>int64\<close> holds after an operation whose
  mathematical result is \<open>x\<close>: two's complement wrap-around.\<close>

definition i32 :: "int \<Rightarrow> int" where
  "i32 x = (x + 2147483648) mod 4294967296 - 2147483648"

definition i64 :: "int \<Rightarrow> int" where
  "i64 x = (x + 9223372036854775808) mod 18446744073709551616 - 9223372036854775808"

lemma i32_id [go_int]: "- 2147483648 \<le> x \<Longrightarrow> x < 2147483648 \<Longrightarrow> i32 x = x"
  by (simp add: i32_def)

lemma i64_id [go_int]:
  "- 9223372036854775808 \<le> x \<Longrightarrow> x < 9223372036854775808 \<Longrightarrow> i64 x = x"
  by (simp add: i64_def)

lemma i32_range: "- 2147483648 \<le> i32 x \<and> i32 x < 2147483648"
proof -
  have "0 \<le> (x + 2147483648) mod 4294967296" "(x + 2147483648) mod 4294967296 < 4294967296"
    by simp_all
  then show ?thesis
    unfolding i32_def by linarith
qed

lemma i64_range: "- 9223372036854775808 \<le> i64 x \<and> i64 x < 9223372036854775808"
proof -
  have "0 \<le> (x + 9223372036854775808) mod 18446744073709551616"
    "(x + 9223372036854775808) mod 18446744073709551616 < 18446744073709551616"
    by simp_all
  then show ?thesis
    unfolding i64_def by linarith
qed

section \<open>Strings\<close>

definition has_prefix :: "'a list \<Rightarrow> 'a list \<Rightarrow> bool" where
  "has_prefix s p \<longleftrightarrow> take (length p) s = p"

definition trim_prefix :: "'a list \<Rightarrow> 'a list \<Rightarrow> 'a list" where
  "trim_prefix s p = (if has_prefix s p then drop (length p) s else s)"

definition is_space :: "char \<Rightarrow> bool" where
  "is_space c \<longleftrightarrow> of_char c \<in> {9, 10, 11, 12, 13, 32 :: nat}"

definition trim_left :: "(char \<Rightarrow> bool) \<Rightarrow> string \<Rightarrow> string" where
  "trim_left P s = dropWhile P s"

definition trim_right :: "(char \<Rightarrow> bool) \<Rightarrow> string \<Rightarrow> string" where
  "trim_right P s = rev (dropWhile P (rev s))"

definition trim_space :: "string \<Rightarrow> string" where
  "trim_space s = trim_right is_space (trim_left is_space s)"

definition lower_char :: "char \<Rightarrow> char" where
  "lower_char c =
    (if 65 \<le> (of_char c :: nat) \<and> (of_char c :: nat) \<le> 90 then char_of (of_char c + 32 :: nat) else c)"

definition to_lower :: "string \<Rightarrow> string" where
  "to_lower s = map lower_char s"

definition is_digit :: "char \<Rightarrow> bool" where
  "is_digit c \<longleftrightarrow> 48 \<le> (of_char c :: nat) \<and> (of_char c :: nat) \<le> 57"

definition digit_val :: "char \<Rightarrow> nat" where
  "digit_val c = of_char c - 48"

fun split_on :: "'a \<Rightarrow> 'a list \<Rightarrow> 'a list list" where
  "split_on d [] = [[]]"
| "split_on d (c # cs) =
    (if c = d then [] # split_on d cs
     else (case split_on d cs of [] \<Rightarrow> [[c]] | w # ws \<Rightarrow> (c # w) # ws))"

fun join_with :: "'a list \<Rightarrow> 'a list list \<Rightarrow> 'a list" where
  "join_with sep [] = []"
| "join_with sep [x] = x"
| "join_with sep (x # y # ys) = x @ sep @ join_with sep (y # ys)"

text \<open>\<^verbatim>\<open>strings.Fields\<close>: the maximal runs of characters that are not blanks.\<close>

definition str_fields :: "string \<Rightarrow> string list" where
  "str_fields s = filter (\<lambda>w. w \<noteq> []) (split_on CHR '' '' (map (\<lambda>c. if is_space c then CHR '' '' else c) s))"

text \<open>\<^verbatim>\<open>strings.Index\<close>: the first position at which \<open>p\<close> occurs in \<open>s\<close>.\<close>

fun index_of :: "'a list \<Rightarrow> 'a list \<Rightarrow> nat option" where
  "index_of [] p = (if p = [] then Some 0 else None)"
| "index_of (c # cs) p =
    (if has_prefix (c # cs) p then Some 0 else map_option Suc (index_of cs p))"

definition contains_str :: "'a list \<Rightarrow> 'a list \<Rightarrow> bool" where
  "contains_str s p \<longleftrightarrow> index_of s p \<noteq> None"

lemmas go_string_defs [go_string] =
  has_prefix_def trim_prefix_def is_space_def trim_left_def trim_right_def trim_space_def
  lower_char_def to_lower_def is_digit_def digit_val_def str_fields_def contains_str_def

lemma has_prefix_iff: "has_prefix s p \<longleftrightarrow> (\<exists>r. s = p @ r)"
  unfolding has_prefix_def by (metis append_eq_conv_conj append_take_drop_id)

lemma has_prefix_Nil [simp]: "has_prefix s []"
  by (simp add: has_prefix_def)

lemma has_prefix_self_append [simp]: "has_prefix (p @ r) p"
  by (simp add: has_prefix_def)

lemma trim_prefix_append [simp]: "trim_prefix (p @ r) p = r"
  by (simp add: trim_prefix_def)

lemma split_on_not_Nil [simp]: "split_on d s \<noteq> []"
  by (cases s) (auto split: list.split)

lemma split_on_no_sep: "d \<notin> set s \<Longrightarrow> split_on d s = [s]"
  by (induction s) auto

lemma split_on_append: "d \<notin> set s \<Longrightarrow> split_on d (s @ d # r) = s # split_on d r"
  by (induction s) auto

lemma split_on_member_no_sep: "w \<in> set (split_on d s) \<Longrightarrow> d \<notin> set w"
proof (induction s arbitrary: w)
  case Nil
  then show ?case by simp
next
  case (Cons c cs)
  then show ?case by (cases "split_on d cs") (auto split: if_splits)
qed

lemma join_with_Cons [simp]: "ws \<noteq> [] \<Longrightarrow> join_with sep (w # ws) = w @ sep @ join_with sep ws"
  by (cases ws) auto

lemma join_with_Cons_char: "join_with sep ((c # w) # ws) = c # join_with sep (w # ws)"
  by (cases ws) auto

lemma join_split: "join_with [d] (split_on d s) = s"
proof (induction s)
  case Nil
  then show ?case by simp
next
  case (Cons c cs)
  then show ?case
    by (cases "split_on d cs") (auto simp: join_with_Cons_char)
qed

lemma split_join:
  "ws \<noteq> [] \<Longrightarrow> (\<forall>w \<in> set ws. d \<notin> set w) \<Longrightarrow> split_on d (join_with [d] ws) = ws"
  by (induction "[d]" ws rule: join_with.induct) (auto simp: split_on_no_sep split_on_append)

lemma trim_left_idem [simp]: "trim_left P (trim_left P s) = trim_left P s"
  by (simp add: trim_left_def)

lemma trim_space_no_space: "\<forall>c \<in> set s. \<not> is_space c \<Longrightarrow> trim_space s = s"
proof -
  assume *: "\<forall>c \<in> set s. \<not> is_space c"
  then have "dropWhile is_space s = s" "dropWhile is_space (rev s) = rev s"
    by (metis dropWhile_eq_self_iff hd_in_set set_rev)+
  then show ?thesis
    by (simp add: trim_space_def trim_left_def trim_right_def)
qed

section \<open>Decimal numbers\<close>

text \<open>\<^verbatim>\<open>strconv.Atoi\<close> on a 64-bit platform and \<^verbatim>\<open>strconv.Itoa\<close>.\<close>

definition digits_val :: "string \<Rightarrow> nat" where
  "digits_val ds = foldl (\<lambda>n d. 10 * n + digit_val d) 0 ds"

definition int64_ok :: "int \<Rightarrow> bool" where
  "int64_ok n \<longleftrightarrow> - 9223372036854775808 \<le> n \<and> n < 9223372036854775808"

definition atoi :: "string \<Rightarrow> int option" where
  "atoi s =
    (let (sgn, ds) = (case s of
           [] \<Rightarrow> (1, [])
         | c # cs \<Rightarrow> if c = CHR ''-'' then (- 1, cs) else if c = CHR ''+'' then (1, cs) else (1, s))
     in if ds \<noteq> [] \<and> list_all is_digit ds \<and> int64_ok (sgn * int (digits_val ds))
        then Some (sgn * int (digits_val ds)) else None)"

fun nat_digits :: "nat \<Rightarrow> string" where
  "nat_digits n =
    (if n < 10 then [char_of (48 + n)] else nat_digits (n div 10) @ [char_of (48 + n mod 10)])"

declare nat_digits.simps [simp del]

definition itoa :: "int \<Rightarrow> string" where
  "itoa n = (if n < 0 then CHR ''-'' # nat_digits (nat (- n)) else nat_digits (nat n))"

lemma digit_char: "n < 10 \<Longrightarrow> is_digit (char_of (48 + n)) \<and> digit_val (char_of (48 + n)) = n"
  by (simp add: is_digit_def digit_val_def)

lemma nat_digits_ok: "list_all is_digit (nat_digits n) \<and> nat_digits n \<noteq> [] \<and> digits_val (nat_digits n) = n"
proof (induction n rule: nat_digits.induct)
  case (1 n)
  show ?case
  proof (cases "n < 10")
    case True
    then show ?thesis by (simp add: nat_digits.simps[of n] digit_char digits_val_def)
  next
    case False
    then show ?thesis
      using 1[OF False] by (simp add: nat_digits.simps[of n] digit_char digits_val_def)
  qed
qed

lemma is_digit_not_sign: "is_digit c \<Longrightarrow> c \<noteq> CHR ''-'' \<and> c \<noteq> CHR ''+''"
  by (auto simp: is_digit_def)

lemma atoi_itoa [simp]: "int64_ok n \<Longrightarrow> atoi (itoa n) = Some n"
proof (cases "n < 0")
  case True
  assume "int64_ok n"
  with True nat_digits_ok[of "nat (- n)"] show ?thesis by (simp add: atoi_def itoa_def)
next
  case False
  assume ok: "int64_ok n"
  obtain c cs where c: "nat_digits (nat n) = c # cs" using nat_digits_ok[of "nat n"] by (cases "nat_digits (nat n)") auto
  then have "c \<noteq> CHR ''-'' \<and> c \<noteq> CHR ''+''" using nat_digits_ok[of "nat n"] is_digit_not_sign by auto
  with False ok c nat_digits_ok[of "nat n"] show ?thesis by (simp add: atoi_def itoa_def)
qed

section \<open>Weights of lists of local states\<close>

text \<open>Invariants over several threads of control count the threads in each
  local state: a weight summed over the list of local states.\<close>

definition weight :: "('a \<Rightarrow> int) \<Rightarrow> 'a list \<Rightarrow> int" where
  "weight w xs = sum_list (map w xs)"

lemma weight_update: "i < length xs \<Longrightarrow> weight w (xs[i := x]) = weight w xs + w x - w (xs ! i)"
  unfolding weight_def by (induction xs arbitrary: i) (auto split: nat.splits)

lemma weight_nonneg: "(\<And>x. 0 \<le> w x) \<Longrightarrow> 0 \<le> weight w xs"
  unfolding weight_def by (induction xs) auto

lemma weight_le_length: "(\<And>x. w x \<le> 1) \<Longrightarrow> weight w xs \<le> int (length xs)"
  unfolding weight_def by (induction xs) (auto intro: add_mono)

lemma weight_mono: "(\<And>x. w x \<le> w' x) \<Longrightarrow> weight w xs \<le> weight w' xs"
  unfolding weight_def by (induction xs) (auto intro: add_mono)

lemma weight_cong: "(\<And>x. x \<in> set xs \<Longrightarrow> w x = w' x) \<Longrightarrow> weight w xs = weight w' xs"
  unfolding weight_def by (metis (mono_tags, lifting) map_eq_conv)

lemma weight_filter: "weight (\<lambda>x. if P x then 1 else 0) xs = int (length (filter P xs))"
  unfolding weight_def by (induction xs) auto

section \<open>Buffered channels\<close>

text \<open>A buffered Go channel with its capacity.  The sources send and receive
  through \<^verbatim>\<open>select\<close> with a \<^verbatim>\<open>default\<close> branch where they must not block:
  \<open>chan_send\<close> and \<open>chan_recv\<close> return \<^const>\<open>None\<close> for the default branch.\<close>

record 'a chan =
  chan_cap :: nat
  chan_buf :: "'a list"

definition chan_make :: "nat \<Rightarrow> 'a chan" where
  "chan_make n = \<lparr> chan_cap = n, chan_buf = [] \<rparr>"

definition chan_send :: "'a chan \<Rightarrow> 'a \<Rightarrow> 'a chan option" where
  "chan_send ch x =
    (if length (chan_buf ch) < chan_cap ch then Some (ch\<lparr> chan_buf := chan_buf ch @ [x] \<rparr>) else None)"

definition chan_recv :: "'a chan \<Rightarrow> ('a \<times> 'a chan) option" where
  "chan_recv ch = (case chan_buf ch of [] \<Rightarrow> None | x # xs \<Rightarrow> Some (x, ch\<lparr> chan_buf := xs \<rparr>))"

lemma chan_make_simps [simp, go_chan]:
  "chan_cap (chan_make n) = n" "chan_buf (chan_make n) = []"
  by (simp_all add: chan_make_def)

lemma chan_send_SomeD:
  "chan_send ch x = Some ch' \<Longrightarrow>
    chan_cap ch' = chan_cap ch \<and> chan_buf ch' = chan_buf ch @ [x] \<and> length (chan_buf ch) < chan_cap ch"
  by (auto simp: chan_send_def split: if_splits)

lemma chan_recv_SomeD:
  "chan_recv ch = Some (x, ch') \<Longrightarrow> chan_cap ch' = chan_cap ch \<and> chan_buf ch = x # chan_buf ch'"
  by (auto simp: chan_recv_def split: list.splits)

section \<open>The contract of a bounded queue\<close>

text \<open>A queue is used by \<open>Put\<close> and \<open>Get\<close> operations; \<open>queue_run\<close> performs a
  sequence of them and records what was accepted and what was taken out.  A
  \<open>Put\<close> that the queue refuses is a dropped element.\<close>

datatype 'a queue_op = Put 'a | Get

fun queue_run :: "('q \<Rightarrow> 'a \<Rightarrow> 'q option) \<Rightarrow> ('q \<Rightarrow> ('a \<times> 'q) option) \<Rightarrow>
    'a queue_op list \<Rightarrow> 'q \<Rightarrow> 'a list \<times> 'a list \<times> 'q" where
  "queue_run put get [] q = ([], [], q)"
| "queue_run put get (Put x # ops) q =
    (case put q x of
       None \<Rightarrow> queue_run put get ops q
     | Some q' \<Rightarrow> (let (ins, outs, q'') = queue_run put get ops q' in (x # ins, outs, q'')))"
| "queue_run put get (Get # ops) q =
    (case get q of
       None \<Rightarrow> queue_run put get ops q
     | Some (y, q') \<Rightarrow> (let (ins, outs, q'') = queue_run put get ops q' in (ins, y # outs, q'')))"

locale bounded_queue =
  fixes put :: "'q \<Rightarrow> 'a \<Rightarrow> 'q option"
    and get :: "'q \<Rightarrow> ('a \<times> 'q) option"
    and items :: "'q \<Rightarrow> 'a list"
    and limit :: "'q \<Rightarrow> nat"
  assumes put_ok: "put q x = Some q' \<Longrightarrow>
      items q' = items q @ [x] \<and> limit q' = limit q \<and> length (items q) < limit q"
    and put_full: "put q x = None \<Longrightarrow> limit q \<le> length (items q)"
    and get_ok: "get q = Some (y, q') \<Longrightarrow> items q = y # items q' \<and> limit q' = limit q"
    and get_empty: "get q = None \<Longrightarrow> items q = []"
begin

lemma run_fifo:
  "queue_run put get ops q = (ins, outs, q') \<Longrightarrow>
    items q @ ins = outs @ items q' \<and> limit q' = limit q \<and>
    (length (items q) \<le> limit q \<longrightarrow> length (items q') \<le> limit q')"
proof (induction ops arbitrary: q ins outs)
  case Nil
  then show ?case by simp
next
  case (Cons op ops)
  show ?case
  proof (cases op)
    case (Put x)
    show ?thesis
    proof (cases "put q x")
      case None
      then show ?thesis using Cons.IH[of q ins outs] Cons.prems Put by auto
    next
      case (Some q1)
      obtain ins' outs' where run: "queue_run put get ops q1 = (ins', outs', q')"
        using Cons.prems Put Some by (auto split: prod.splits)
      have "ins = x # ins'" "outs = outs'"
        using Cons.prems Put Some run by simp_all
      with Cons.IH[OF run] put_ok[OF Some] show ?thesis by auto
    qed
  next
    case Get
    show ?thesis
    proof (cases "get q")
      case None
      then show ?thesis using Cons.IH[of q ins outs] Cons.prems Get by auto
    next
      case (Some yq)
      then obtain y q1 where get: "get q = Some (y, q1)" by (cases yq) auto
      obtain ins' outs' where run: "queue_run put get ops q1 = (ins', outs', q')"
        using Cons.prems Get get by (auto split: prod.splits)
      have "ins = ins'" "outs = y # outs'"
        using Cons.prems Get get run by simp_all
      with Cons.IH[OF run] get_ok[OF get] show ?thesis by auto
    qed
  qed
qed

lemma put_get_singleton:
  assumes "items q = []" "put q x = Some q'"
  shows "\<exists>q''. get q' = Some (x, q'') \<and> items q'' = []"
  using assms put_ok[of q x q'] get_ok[of q'] get_empty[of q']
  by (cases "get q'") auto

end

interpretation chq: bounded_queue chan_send chan_recv chan_buf chan_cap
  by unfold_locales
    (auto simp: chan_send_def chan_recv_def split: if_splits list.splits)

end
