(* ===== verification/Port_Pool.thy ===== *)
theory Port_Pool
  imports Prelude
begin

text \<open>
  The RTP port pool of \<^verbatim>\<open>bridge/manager.go\<close>: a buffered channel filled with the
  ports \<^verbatim>\<open>[min, max)\<close>, read and written through \<^verbatim>\<open>select\<close> with a default branch.
  The locale \<open>port_provider\<close> is the contract the call manager and the dial
  path rely on; it is interpreted on the pool itself.
\<close>

section \<open>The pool\<close>

record port_pool =
  pp_ports :: "int chan"

datatype pool_error = PortRangeInvalid int int | PortPoolExhausted

definition NewPortPool :: "int \<Rightarrow> int \<Rightarrow> pool_error + port_pool" where
  "NewPortPool lo hi =
    (if lo \<ge> hi then Inl (PortRangeInvalid lo hi)
     else Inr \<lparr> pp_ports = \<lparr> chan_cap = nat (hi - lo), chan_buf = [lo..hi - 1] \<rparr> \<rparr>)"

definition Acquire :: "port_pool \<Rightarrow> (pool_error + int) \<times> port_pool" where
  "Acquire p =
    (case chan_recv (pp_ports p) of
       Some (port, ch) \<Rightarrow> (Inr port, p\<lparr> pp_ports := ch \<rparr>)
     | None \<Rightarrow> (Inl PortPoolExhausted, p))"

definition Release :: "port_pool \<Rightarrow> int \<Rightarrow> port_pool" where
  "Release p port =
    (case chan_send (pp_ports p) port of
       Some ch \<Rightarrow> p\<lparr> pp_ports := ch \<rparr>
     | None \<Rightarrow> p)"

definition free_ports :: "port_pool \<Rightarrow> int list" where
  "free_ports p = chan_buf (pp_ports p)"

definition pool_cap :: "port_pool \<Rightarrow> nat" where
  "pool_cap p = chan_cap (pp_ports p)"

section \<open>Clients that release what they hold\<close>

text \<open>A client acquires ports and releases a port it holds; a request to
  release a port that is not held is not made.\<close>

datatype port_op = AcquireOp | ReleaseOp int

fun port_run :: "('p \<Rightarrow> (pool_error + int) \<times> 'p) \<Rightarrow> ('p \<Rightarrow> int \<Rightarrow> 'p) \<Rightarrow>
    port_op list \<Rightarrow> 'p \<times> int list \<Rightarrow> 'p \<times> int list" where
  "port_run acq rel [] s = s"
| "port_run acq rel (AcquireOp # ops) (p, held) =
    (case acq p of
       (Inr port, p') \<Rightarrow> port_run acq rel ops (p', port # held)
     | (Inl e, p') \<Rightarrow> port_run acq rel ops (p', held))"
| "port_run acq rel (ReleaseOp port # ops) (p, held) =
    (if port \<in> set held then port_run acq rel ops (rel p port, remove1 port held)
     else port_run acq rel ops (p, held))"

locale port_provider =
  fixes acquire :: "'p \<Rightarrow> (pool_error + int) \<times> 'p"
    and release :: "'p \<Rightarrow> int \<Rightarrow> 'p"
    and free :: "'p \<Rightarrow> int list"
    and capacity :: "'p \<Rightarrow> nat"
  assumes acquire_ok: "acquire p = (Inr port, p') \<Longrightarrow>
      mset (free p) = add_mset port (mset (free p')) \<and> capacity p' = capacity p"
    and acquire_fail: "acquire p = (Inl e, p') \<Longrightarrow> p' = p \<and> free p = [] \<and> e = PortPoolExhausted"
    and release_ok: "length (free p) < capacity p \<Longrightarrow>
      mset (free (release p port)) = add_mset port (mset (free p)) \<and>
      capacity (release p port) = capacity p"
begin

lemma run_conserves:
  "port_run acquire release ops (p, held) = (p', held') \<Longrightarrow>
   size (mset (free p) + mset held) \<le> capacity p \<Longrightarrow>
     mset (free p') + mset held' = mset (free p) + mset held \<and> capacity p' = capacity p"
proof (induction ops arbitrary: p held)
  case Nil
  then show ?case by simp
next
  case (Cons op ops)
  show ?case
  proof (cases op)
    case AcquireOp
    obtain r p1 where acq: "acquire p = (r, p1)" by (cases "acquire p")
    show ?thesis
    proof (cases r)
      case (Inl e)
      then show ?thesis
        using Cons.IH[of p held] Cons.prems AcquireOp acq acquire_fail[of p e p1] by simp
    next
      case (Inr port)
      then have law: "mset (free p) = add_mset port (mset (free p1))" "capacity p1 = capacity p"
        using acquire_ok[of p port p1] acq by simp_all
      have "port_run acquire release ops (p1, port # held) = (p', held')"
        using Cons.prems(1) AcquireOp acq Inr by simp
      moreover have "size (mset (free p1) + mset (port # held)) \<le> capacity p1"
        using Cons.prems(2) law by simp
      ultimately show ?thesis
        using Cons.IH[of p1 "port # held"] law by simp
    qed
  next
    case (ReleaseOp port)
    show ?thesis
    proof (cases "port \<in> set held")
      case True
      then have held: "mset held = add_mset port (mset (remove1 port held))" by simp
      have len: "length held = Suc (length (remove1 port held))"
        using True length_pos_if_in_set[OF True] by (simp add: length_remove1)
      then have "length (free p) < capacity p"
        using Cons.prems(2) by simp
      note law = release_ok[OF this, of port]
      then have "length (free (release p port)) = Suc (length (free p))"
        by (metis size_add_mset size_mset)
      then have "size (mset (free (release p port)) + mset (remove1 port held))
          \<le> capacity (release p port)"
        using Cons.prems(2) law len by (simp del: mset_remove1)
      moreover have "port_run acquire release ops (release p port, remove1 port held) = (p', held')"
        using Cons.prems(1) ReleaseOp True by simp
      ultimately show ?thesis
        using Cons.IH[of "release p port" "remove1 port held"] law held
        by (simp del: mset_remove1)
    next
      case False
      then show ?thesis
        using Cons.IH[of p held] Cons.prems ReleaseOp by simp
    qed
  qed
qed

lemma held_distinct:
  assumes run: "port_run acquire release ops (p, []) = (p', held')"
    and "distinct (free p)" "length (free p) \<le> capacity p"
  shows "distinct held'" "set held' \<inter> set (free p') = {}" "set held' \<union> set (free p') = set (free p)"
proof -
  have eq: "mset (free p') + mset held' = mset (free p)"
    using run_conserves[OF run] assms(3) by simp
  have "distinct (held' @ free p')"
    using eq assms(2) by (metis mset_append mset_eq_imp_distinct_iff union_commute)
  then show "distinct held'" "set held' \<inter> set (free p') = {}" by auto
  show "set held' \<union> set (free p') = set (free p)"
    using arg_cong[OF eq, of set_mset] by auto
qed

lemma exhausted_iff:
  assumes run: "port_run acquire release ops (p, []) = (p', held')"
    and "length (free p) \<le> capacity p"
  shows "(\<exists>e. fst (acquire p') = Inl e) \<longleftrightarrow> length held' = length (free p)"
proof -
  have eq: "mset (free p') + mset held' = mset (free p)"
    using run_conserves[OF run] assms(2) by simp
  then have len: "length (free p') + length held' = length (free p)"
    by (metis size_mset size_union)
  obtain r p2 where acq: "acquire p' = (r, p2)" by (cases "acquire p'")
  show ?thesis
  proof (cases r)
    case (Inl e)
    then show ?thesis using acq acquire_fail[of p' e p2] len by simp
  next
    case (Inr port)
    then have "free p' \<noteq> []" using acq acquire_ok[of p' port p2] by auto
    then show ?thesis using acq Inr len by (cases "free p'") auto
  qed
qed

end

interpretation pool: port_provider Acquire Release free_ports pool_cap
  by unfold_locales
    (auto simp: Acquire_def Release_def free_ports_def pool_cap_def chan_recv_def chan_send_def
      split: option.splits prod.splits list.splits if_splits)

lemma NewPortPool_simps:
  assumes "NewPortPool lo hi = Inr p"
  shows "free_ports p = [lo..hi - 1]" "pool_cap p = nat (hi - lo)" "lo < hi"
  using assms by (auto simp: NewPortPool_def free_ports_def pool_cap_def split: if_splits)



text \<open>Outside that discipline the pool does not protect itself: a second
  release of the same port while another port is in use puts it into the pool
  twice, so that two later calls get the same port.\<close>

lemma double_release_duplicates:
  assumes "length (free_ports p) + 1 < pool_cap p"
  shows "free_ports (Release (Release p port) port) = free_ports p @ [port, port]"
  using assms by (simp add: Release_def free_ports_def pool_cap_def chan_send_def)

end
