(* ===== verification/Guardrails.thy ===== *)
theory Guardrails
  imports Prelude
begin

text \<open>
  The toll-fraud and rate guard of \<^verbatim>\<open>sip/guardrails.go\<close>: the allow-list on the
  normalised target, the per-session counter (an \<^verbatim>\<open>int32\<close> per CallSid) and the
  rolling minute of sixty one-second buckets.  The clock (\<^verbatim>\<open>time.Now().Unix()\<close>) is
  an argument.  The lemmas relate the buckets to the history of accepted
  dials, and a step relation covers concurrent \<^verbatim>\<open>CheckDial\<close> calls on the counter
  of one session.
\<close>

section \<open>State and operations\<close>

datatype guard_error = ErrTollFraudBlocked string | ErrSessionRateLimit | ErrGlobalRateLimit

record guardrails =
  allowedPrefixes :: "string list"
  maxPerSession :: int
  maxPerMinute :: int
  perSession :: "string \<rightharpoonup> int"
  bucketCounts :: "int list"
  bucketSecs :: "nat list"

definition NewGuardrails :: "string list \<Rightarrow> int \<Rightarrow> int \<Rightarrow> guardrails" where
  "NewGuardrails prefixes perSess perMin =
    \<lparr> allowedPrefixes = prefixes, maxPerSession = i32 perSess, maxPerMinute = i32 perMin,
      perSession = Map.empty, bucketCounts = replicate 60 0, bucketSecs = replicate 60 0 \<rparr>"

definition normalizeTarget :: "string \<Rightarrow> string" where
  "normalizeTarget target =
    (let t = to_lower (trim_space target);
         t = trim_prefix t ''tel:'';
         t = trim_prefix t ''sip:'';
         t = filter (\<lambda>r. \<not> (r = CHR '' '' \<or> r = CHR 0x09)) t
     in if has_prefix t ''00'' then CHR ''+'' # drop 2 t else t)"

definition matchAllowList :: "guardrails \<Rightarrow> string \<Rightarrow> bool" where
  "matchAllowList g target =
    (if length (allowedPrefixes g) = 0 then False
     else list_ex (\<lambda>p. has_prefix target p) (allowedPrefixes g))"

definition maskTarget :: "string \<Rightarrow> string" where
  "maskTarget target =
    (if length target \<le> 4 then replicate (length target) CHR ''*''
     else replicate (length target - 4) CHR ''*'' @ drop (length target - 4) target)"

definition getOrCreateSessionCounter :: "guardrails \<Rightarrow> string \<Rightarrow> int \<times> guardrails" where
  "getOrCreateSessionCounter g sid =
    (case perSession g sid of
       Some v \<Rightarrow> (v, g)
     | None \<Rightarrow> (0, g\<lparr> perSession := (perSession g)(sid \<mapsto> 0) \<rparr>))"

definition rolling_sum :: "nat \<Rightarrow> int list \<Rightarrow> nat list \<Rightarrow> int" where
  "rolling_sum now counts secs =
    foldl (\<lambda>s i. if int now - int (secs ! i) < 60 then i32 (s + counts ! i) else s) 0 [0..<60]"

definition checkAndIncrementGlobal :: "nat \<Rightarrow> guardrails \<Rightarrow> bool \<times> guardrails" where
  "checkAndIncrementGlobal now g =
    (let idx = now mod 60;
         g1 = (if bucketSecs g ! idx \<noteq> now
               then g\<lparr> bucketCounts := (bucketCounts g)[idx := 0],
                       bucketSecs := (bucketSecs g)[idx := now] \<rparr>
               else g)
     in if rolling_sum now (bucketCounts g1) (bucketSecs g1) \<ge> maxPerMinute g1 then (False, g1)
        else (True, g1\<lparr> bucketCounts := (bucketCounts g1)[idx := i32 (bucketCounts g1 ! idx + 1)] \<rparr>))"

definition set_counter :: "guardrails \<Rightarrow> string \<Rightarrow> int \<Rightarrow> guardrails" where
  "set_counter g sid v = g\<lparr> perSession := (perSession g)(sid \<mapsto> v) \<rparr>"

definition CheckDial :: "nat \<Rightarrow> guardrails \<Rightarrow> string \<Rightarrow> string \<Rightarrow> guard_error option \<times> guardrails" where
  "CheckDial now g callerSid target =
    (let normalized = normalizeTarget target in
     if \<not> matchAllowList g normalized then (Some (ErrTollFraudBlocked (maskTarget normalized)), g)
     else
       let (c, g1) = getOrCreateSessionCounter g callerSid;
           c1 = i32 (c + 1);
           g2 = set_counter g1 callerSid c1
       in if c1 > maxPerSession g2 then
            (Some ErrSessionRateLimit, set_counter g2 callerSid (i32 (c1 - 1)))
          else
            let (ok, g3) = checkAndIncrementGlobal now g2 in
            if \<not> ok then (Some ErrGlobalRateLimit, set_counter g3 callerSid (i32 (c1 - 1)))
            else (None, g3))"

definition OnSessionEnd :: "guardrails \<Rightarrow> string \<Rightarrow> guardrails" where
  "OnSessionEnd g callerSid = g\<lparr> perSession := (perSession g)(callerSid := None) \<rparr>"

section \<open>Traces\<close>

text \<open>A trace is a sequence of dial checks (with the clock at the check) and
  session ends; \<open>guard_run\<close> returns the checks that were accepted.\<close>

datatype guard_event = DialEv nat string string | SessionEndEv string

fun guard_step :: "guardrails \<Rightarrow> guard_event \<Rightarrow> bool \<times> guardrails" where
  "guard_step g (DialEv now sid target) = map_prod (\<lambda>e. e = None) id (CheckDial now g sid target)"
| "guard_step g (SessionEndEv sid) = (False, OnSessionEnd g sid)"

fun guard_run :: "guard_event list \<Rightarrow> guardrails \<Rightarrow> guard_event list \<times> guardrails" where
  "guard_run [] g = ([], g)"
| "guard_run (e # es) g =
    (let (ok, g1) = guard_step g e; (acc, g2) = guard_run es g1
     in (if ok then e # acc else acc, g2))"

fun ev_times :: "guard_event list \<Rightarrow> nat list" where
  "ev_times [] = []"
| "ev_times (DialEv now sid target # es) = now # ev_times es"
| "ev_times (SessionEndEv sid # es) = ev_times es"

fun dial_of :: "string \<Rightarrow> guard_event \<Rightarrow> bool" where
  "dial_of sid (DialEv now s target) \<longleftrightarrow> s = sid"
| "dial_of sid (SessionEndEv s) \<longleftrightarrow> False"

definition window :: "nat \<Rightarrow> nat list \<Rightarrow> nat" where
  "window t ts = length (filter (\<lambda>u. u \<le> t \<and> t < u + 60) ts)"

section \<open>The buckets count the history\<close>

definition slot_ok :: "nat list \<Rightarrow> nat \<Rightarrow> guardrails \<Rightarrow> nat \<Rightarrow> bool" where
  "slot_ok h now g i \<longleftrightarrow>
    bucketSecs g ! i \<le> now \<and>
    bucketCounts g ! i =
      (if bucketSecs g ! i mod 60 = i then int (count_list h (bucketSecs g ! i)) else 0)"

definition bucket_inv :: "nat list \<Rightarrow> nat \<Rightarrow> guardrails \<Rightarrow> bool" where
  "bucket_inv h now g \<longleftrightarrow>
    length (bucketCounts g) = 60 \<and> length (bucketSecs g) = 60 \<and>
    (\<forall>u \<in> set h. u \<le> now) \<and>
    (\<forall>i < 60. slot_ok h now g i) \<and>
    (\<forall>u \<in> set h. now < u + 60 \<longrightarrow> bucketSecs g ! (u mod 60) = u) \<and>
    (\<forall>t. int (window t h) \<le> max 0 (maxPerMinute g)) \<and> maxPerMinute g < 2147483648"

text \<open>The live slots partition the window by residue, so their counts add up
  to the number of history entries in the window.\<close>

lemma window_le_length: "window t h \<le> length h"
  by (simp add: window_def)

lemma count_list_filter: "count_list h x = length (filter (\<lambda>u. u = x) h)"
  by (induction h) auto

lemma length_filter_residue:
  "(\<Sum>i<(n::nat). length (filter (\<lambda>u. P u \<and> f u = i) h)) = length (filter (\<lambda>u. P u \<and> f u < n) h)"
proof (induction h)
  case Nil
  then show ?case by simp
next
  case (Cons a h)
  have "(\<Sum>i<n. length (filter (\<lambda>u. P u \<and> f u = i) (a # h))) =
      (\<Sum>i<n. (if P a \<and> f a = i then 1 else 0) + length (filter (\<lambda>u. P u \<and> f u = i) h))"
    by (rule sum.cong) auto
  also have "\<dots> = (\<Sum>i<n. if P a \<and> f a = i then 1 else 0) + length (filter (\<lambda>u. P u \<and> f u < n) h)"
    by (simp add: sum.distrib Cons)
  also have "(\<Sum>i<n. if P a \<and> f a = i then 1 else 0 :: nat) = (if P a \<and> f a < n then 1 else 0)"
    by (cases "P a") simp_all
  finally show ?case by simp
qed

lemma slot_contribution:
  assumes inv: "bucket_inv h now g" and i: "i < 60"
  shows "(if int now - int (bucketSecs g ! i) < 60 then bucketCounts g ! i else 0) =
    int (length (filter (\<lambda>u. (u \<le> now \<and> now < u + 60) \<and> u mod 60 = i) h))"
proof -
  let ?s = "bucketSecs g ! i"
  have slot: "slot_ok h now g i" using inv i by (simp add: bucket_inv_def)
  have live: "u = ?s" if "u \<in> set h" "now < u + 60" "u mod 60 = i" for u
    using inv that by (auto simp: bucket_inv_def)
  show ?thesis
  proof (cases "now < ?s + 60 \<and> ?s mod 60 = i")
    case True
    have "filter (\<lambda>u. (u \<le> now \<and> now < u + 60) \<and> u mod 60 = i) h = filter (\<lambda>u. u = ?s) h"
      using True live slot by (intro filter_cong) (auto simp: slot_ok_def)
    then show ?thesis
      using True slot by (simp add: slot_ok_def count_list_filter)
  next
    case False
    then have "filter (\<lambda>u. (u \<le> now \<and> now < u + 60) \<and> u mod 60 = i) h = []"
      unfolding filter_empty_conv using live False by metis
    then show ?thesis
      using False slot by (auto simp: slot_ok_def)
  qed
qed

text \<open>Every partial sum lies between zero and the window count, so the 32-bit
  additions never wrap.\<close>

lemma foldl_i32_no_wrap:
  assumes "\<And>i. i < n \<Longrightarrow> 0 \<le> c i" "(\<Sum>i<n. if P i then c i else 0) < 2147483648"
  shows "foldl (\<lambda>s i. if P i then i32 (s + c i) else s) 0 [0..<n] = (\<Sum>i<n. if P i then c i else 0)"
  using assms
proof (induction n)
  case 0
  then show ?case by simp
next
  case (Suc n)
  let ?S = "\<Sum>i<n. if P i then c i else 0"
  have pos: "0 \<le> ?S" using Suc.prems(1) by (intro sum_nonneg) auto
  have lt: "?S < 2147483648" "P n \<Longrightarrow> ?S + c n < 2147483648"
    using Suc.prems(1)[of n] Suc.prems(2) by (auto split: if_splits)
  have IH: "foldl (\<lambda>s i. if P i then i32 (s + c i) else s) 0 [0..<n] = ?S"
    using Suc.IH Suc.prems(1) lt(1) by simp
  show ?case
    using Suc.prems(1)[of n] pos lt(2) by (simp add: IH i32_id)
qed

lemma rolling_sum_window:
  assumes inv: "bucket_inv h now g"
  shows "rolling_sum now (bucketCounts g) (bucketSecs g) = int (window now h)"
proof -
  let ?P = "\<lambda>i. int now - int (bucketSecs g ! i) < 60"
  have "(\<Sum>i<60. if ?P i then bucketCounts g ! i else 0) =
      (\<Sum>i<60. int (length (filter (\<lambda>u. (u \<le> now \<and> now < u + 60) \<and> u mod 60 = i) h)))"
    using slot_contribution[OF inv] by (intro sum.cong) auto
  also have "\<dots> = int (length (filter (\<lambda>u. (u \<le> now \<and> now < u + 60) \<and> u mod 60 < 60) h))"
    unfolding of_nat_sum[symmetric] by (simp only: length_filter_residue)
  finally have S: "(\<Sum>i<60. if ?P i then bucketCounts g ! i else 0) = int (window now h)"
    by (simp add: window_def)
  have "int (window now h) < 2147483648"
    using inv by (auto simp: bucket_inv_def dest: spec[of _ now])
  moreover have "0 \<le> bucketCounts g ! i" if "i < 60" for i
    using inv that by (auto simp: bucket_inv_def slot_ok_def)
  ultimately show ?thesis
    unfolding rolling_sum_def using foldl_i32_no_wrap[of 60 "\<lambda>i. bucketCounts g ! i" ?P] S by simp
qed

lemma window_Cons: "window t (u # h) = (if u \<le> t \<and> t < u + 60 then Suc (window t h) else window t h)"
  by (simp add: window_def)

lemma window_mono_now:
  assumes "\<forall>u \<in> set h. u \<le> now" "now \<le> t"
  shows "window t h \<le> window now h"
  using assms by (induction h) (auto simp: window_Cons window_def)

lemma bucket_inv_later:
  assumes "bucket_inv h now g" "now \<le> now'"
  shows "bucket_inv h now' g"
proof -
  have "\<forall>u \<in> set h. u \<le> now'" "\<forall>i < 60. slot_ok h now' g i"
    using assms unfolding bucket_inv_def slot_ok_def by (blast intro: order_trans)+
  moreover have "\<forall>u \<in> set h. now' < u + 60 \<longrightarrow> bucketSecs g ! (u mod 60) = u"
    using assms unfolding bucket_inv_def by (metis le_less_trans)
  ultimately show ?thesis
    using assms(1) unfolding bucket_inv_def by blast
qed

definition reset_slot :: "nat \<Rightarrow> guardrails \<Rightarrow> guardrails" where
  "reset_slot now g =
    (if bucketSecs g ! (now mod 60) \<noteq> now
     then g\<lparr> bucketCounts := (bucketCounts g)[now mod 60 := 0],
             bucketSecs := (bucketSecs g)[now mod 60 := now] \<rparr>
     else g)"

lemma mod_60_eq_imp: "(u::nat) \<le> now \<Longrightarrow> now < u + 60 \<Longrightarrow> u mod 60 = now mod 60 \<Longrightarrow> u = now"
  by (metis Nat.less_diff_conv2 add.commute diff_is_0_eq' dvd_imp_le le_antisym linorder_not_le
      mod_eq_dvd_iff_nat zero_less_diff)

lemma bucket_inv_reset:
  assumes inv: "bucket_inv h now g"
  shows "bucket_inv h now (reset_slot now g)" and "bucketSecs (reset_slot now g) ! (now mod 60) = now"
proof -
  let ?j = "now mod 60"
  have lens: "length (bucketCounts g) = 60" "length (bucketSecs g) = 60"
    using inv by (simp_all add: bucket_inv_def)
  then show "bucketSecs (reset_slot now g) ! ?j = now"
    by (simp add: reset_slot_def)
  show "bucket_inv h now (reset_slot now g)"
  proof (cases "bucketSecs g ! ?j = now")
    case True
    then show ?thesis using inv by (simp add: reset_slot_def)
  next
    case False
    then have none: "count_list h now = 0"
      using inv by (force simp: bucket_inv_def count_list_0_iff)
    have "slot_ok h now (reset_slot now g) i" if "i < 60" for i
      using inv that lens False none
      by (cases "i = ?j") (auto simp: bucket_inv_def slot_ok_def reset_slot_def)
    moreover have "bucketSecs (reset_slot now g) ! (u mod 60) = u" if "u \<in> set h" "now < u + 60" for u
      using inv that lens False mod_60_eq_imp[of u now]
      by (cases "u mod 60 = ?j") (auto simp: bucket_inv_def reset_slot_def)
    ultimately show ?thesis
      using inv lens by (simp add: bucket_inv_def reset_slot_def)
  qed
qed

lemma checkAndIncrementGlobal_reset:
  "checkAndIncrementGlobal now g =
    (let g1 = reset_slot now g in
     if maxPerMinute g1 \<le> rolling_sum now (bucketCounts g1) (bucketSecs g1) then (False, g1)
     else (True, g1\<lparr> bucketCounts := (bucketCounts g1)[now mod 60 := i32 (bucketCounts g1 ! (now mod 60) + 1)] \<rparr>))"
  by (simp add: checkAndIncrementGlobal_def reset_slot_def Let_def)

lemma reset_slot_frame [simp]:
  "maxPerMinute (reset_slot now g) = maxPerMinute g" "maxPerSession (reset_slot now g) = maxPerSession g"
  "perSession (reset_slot now g) = perSession g" "allowedPrefixes (reset_slot now g) = allowedPrefixes g"
  by (simp_all add: reset_slot_def)

lemma bucket_inv_accept:
  assumes inv: "bucket_inv h now g" and slot: "bucketSecs g ! (now mod 60) = now"
    and room: "int (window now h) < maxPerMinute g"
  shows "bucket_inv (now # h) now
    (g\<lparr> bucketCounts := (bucketCounts g)[now mod 60 := i32 (bucketCounts g ! (now mod 60) + 1)] \<rparr>)"
    (is "bucket_inv _ _ ?g'")
proof -
  let ?j = "now mod 60"
  have lens: "length (bucketCounts g) = 60" "length (bucketSecs g) = 60" and lim: "maxPerMinute g < 2147483648"
    using inv by (simp_all add: bucket_inv_def)
  have sj: "slot_ok h now g ?j" using inv by (simp add: bucket_inv_def)
  then have cnt: "bucketCounts g ! ?j = int (count_list h now)"
    using slot by (simp add: slot_ok_def)
  have "count_list h now \<le> window now h"
    unfolding count_list_filter window_def
    by (induction h) auto
  then have nowrap: "i32 (bucketCounts g ! ?j + 1) = int (count_list h now) + 1"
    using cnt room lim by (simp add: i32_id)
  have "slot_ok (now # h) now ?g' i" if "i < 60" for i
    using inv that lens slot nowrap
    by (cases "i = ?j") (auto simp: bucket_inv_def slot_ok_def)
  moreover have "int (window t (now # h)) \<le> max 0 (maxPerMinute g)" for t
  proof (cases "now \<le> t \<and> t < now + 60")
    case True
    then have "window t h \<le> window now h"
      using inv by (intro window_mono_now) (auto simp: bucket_inv_def)
    then show ?thesis using room True by (simp add: window_Cons)
  next
    case False
    have "int (window t h) \<le> max 0 (maxPerMinute g)"
      using inv by (simp add: bucket_inv_def)
    then show ?thesis using False by (auto simp: window_Cons)
  qed
  ultimately show ?thesis
    using inv lens slot by (simp add: bucket_inv_def)
qed

lemma checkAndIncrementGlobal_inv:
  assumes inv: "bucket_inv h now g" and run: "checkAndIncrementGlobal now g = (ok, g')"
  shows "ok \<longleftrightarrow> int (window now h) < maxPerMinute g"
    and "bucket_inv (if ok then now # h else h) now g'"
    and "perSession g' = perSession g" "maxPerSession g' = maxPerSession g"
      "maxPerMinute g' = maxPerMinute g" "allowedPrefixes g' = allowedPrefixes g"
proof -
  note inv1 = bucket_inv_reset[OF inv]
  have sum: "rolling_sum now (bucketCounts (reset_slot now g)) (bucketSecs (reset_slot now g)) =
      int (window now h)"
    by (rule rolling_sum_window[OF inv1(1)])
  show ok: "ok \<longleftrightarrow> int (window now h) < maxPerMinute g"
    using run sum by (auto simp: checkAndIncrementGlobal_reset Let_def split: if_splits)
  show "bucket_inv (if ok then now # h else h) now g'"
    using run sum inv1 bucket_inv_accept[OF inv1]
    by (auto simp: checkAndIncrementGlobal_reset Let_def split: if_splits)
  show "perSession g' = perSession g" "maxPerSession g' = maxPerSession g"
      "maxPerMinute g' = maxPerMinute g" "allowedPrefixes g' = allowedPrefixes g"
    using run by (auto simp: checkAndIncrementGlobal_reset Let_def split: if_splits)
qed

section \<open>The caps on accepted dials\<close>

lemma getOrCreate_eq:
  "getOrCreateSessionCounter g sid = (c, g1) \<Longrightarrow>
    c = (case perSession g sid of Some v \<Rightarrow> v | None \<Rightarrow> 0) \<and> bucketCounts g1 = bucketCounts g \<and>
    bucketSecs g1 = bucketSecs g \<and> maxPerMinute g1 = maxPerMinute g \<and>
    maxPerSession g1 = maxPerSession g \<and> allowedPrefixes g1 = allowedPrefixes g \<and>
    (\<forall>s. s \<noteq> sid \<longrightarrow> perSession g1 s = perSession g s)"
  by (auto simp: getOrCreateSessionCounter_def split: option.splits)

lemma set_counter_simps [simp]:
  "bucketCounts (set_counter g sid v) = bucketCounts g" "bucketSecs (set_counter g sid v) = bucketSecs g"
  "maxPerMinute (set_counter g sid v) = maxPerMinute g" "maxPerSession (set_counter g sid v) = maxPerSession g"
  "allowedPrefixes (set_counter g sid v) = allowedPrefixes g"
  "perSession (set_counter g sid v) = (perSession g)(sid \<mapsto> v)"
  by (simp_all add: set_counter_def)

lemma bucket_inv_cong:
  "bucketCounts g' = bucketCounts g \<Longrightarrow> bucketSecs g' = bucketSecs g \<Longrightarrow>
   maxPerMinute g' = maxPerMinute g \<Longrightarrow> bucket_inv h now g' = bucket_inv h now g"
  by (simp add: bucket_inv_def slot_ok_def)

definition counter :: "guardrails \<Rightarrow> string \<Rightarrow> int" where
  "counter g sid = (case perSession g sid of Some v \<Rightarrow> v | None \<Rightarrow> 0)"

definition session_inv :: "guardrails \<Rightarrow> bool" where
  "session_inv g \<longleftrightarrow>
    (\<forall>sid. 0 \<le> counter g sid \<and> counter g sid \<le> max 0 (maxPerSession g)) \<and> maxPerSession g < 2147483647"

text \<open>The outcome of a check on a state that satisfies the invariants, with the
  decision read off the history, and what it does to the counters.\<close>

lemma CheckDial_cases:
  assumes bi: "bucket_inv h now g" and si: "session_inv g"
    and run: "CheckDial now g sid target = (r, g')"
  shows "r = (if \<not> matchAllowList g (normalizeTarget target)
              then Some (ErrTollFraudBlocked (maskTarget (normalizeTarget target)))
              else if maxPerSession g \<le> counter g sid then Some ErrSessionRateLimit
              else if maxPerMinute g \<le> int (window now h) then Some ErrGlobalRateLimit
              else None)"
    and "bucket_inv (if r = None then now # h else h) now g'"
    and "counter g' = (counter g)(sid := counter g sid + (if r = None then 1 else 0))"
    and "maxPerSession g' = maxPerSession g" "maxPerMinute g' = maxPerMinute g"
      "allowedPrefixes g' = allowedPrefixes g"
proof -
  obtain c g1 where gc: "getOrCreateSessionCounter g sid = (c, g1)" by fastforce
  note g1 = getOrCreate_eq[OF gc]
  have c: "c = counter g sid" using g1 by (simp add: counter_def)
  have cb: "0 \<le> c" "c < 2147483647"
    using si c by (auto simp: session_inv_def dest: spec[of _ sid])
  then have w: "i32 (c + 1) = c + 1" "i32 c = c" by (simp_all add: i32_id)
  define g2 where "g2 = set_counter g1 sid (c + 1)"
  obtain ok g3 where gl: "checkAndIncrementGlobal now g2 = (ok, g3)" by fastforce
  have bi2: "bucket_inv h now g2"
    using bi g1 bucket_inv_cong[of g2 g] by (simp add: g2_def)
  note g3 = checkAndIncrementGlobal_inv[OF bi2 gl]
  have bi3: "bucket_inv h' now (set_counter g3 sid v) = bucket_inv h' now g3" for h' v
    by (rule bucket_inv_cong) simp_all
  have bi3': "bucket_inv h now (set_counter g2 sid v)" for v
    using bi2 bucket_inv_cong[of "set_counter g2 sid v" g2] by simp
  have run': "(r, g') = (if \<not> matchAllowList g (normalizeTarget target)
        then (Some (ErrTollFraudBlocked (maskTarget (normalizeTarget target))), g)
        else if maxPerSession g < c + 1 then (Some ErrSessionRateLimit, set_counter g2 sid c)
        else if \<not> ok then (Some ErrGlobalRateLimit, set_counter g3 sid c) else (None, g3))"
    using run gc gl w g1 by (simp add: CheckDial_def Let_def g2_def split: if_splits)
  show "r = (if \<not> matchAllowList g (normalizeTarget target)
              then Some (ErrTollFraudBlocked (maskTarget (normalizeTarget target)))
              else if maxPerSession g \<le> counter g sid then Some ErrSessionRateLimit
              else if maxPerMinute g \<le> int (window now h) then Some ErrGlobalRateLimit
              else None)"
    using run' g3(1) g1 c by (auto simp: g2_def split: if_splits)
  show "bucket_inv (if r = None then now # h else h) now g'"
    using run' g3(2) bi bi3 bi3' by (auto split: if_splits)
  show "counter g' = (counter g)(sid := counter g sid + (if r = None then 1 else 0))"
    using run' g3(3) g1 c by (auto simp: g2_def counter_def fun_eq_iff split: if_splits)
  show "maxPerSession g' = maxPerSession g" "maxPerMinute g' = maxPerMinute g"
      "allowedPrefixes g' = allowedPrefixes g"
    using run' g3 g1 by (auto simp: g2_def split: if_splits)
qed

lemma session_inv_CheckDial:
  assumes "bucket_inv h now g" "session_inv g" "CheckDial now g sid target = (r, g')"
  shows "session_inv g'"
  using CheckDial_cases[OF assms] assms(2) by (auto simp: session_inv_def)

lemma counter_OnSessionEnd: "counter (OnSessionEnd g sid) = (counter g)(sid := 0)"
  by (auto simp: OnSessionEnd_def counter_def fun_eq_iff)

lemma session_inv_OnSessionEnd: "session_inv g \<Longrightarrow> session_inv (OnSessionEnd g sid)"
  by (auto simp: session_inv_def counter_OnSessionEnd) (auto simp: OnSessionEnd_def)

lemma bucket_inv_OnSessionEnd: "bucket_inv h now (OnSessionEnd g sid) = bucket_inv h now g"
  by (rule bucket_inv_cong) (simp_all add: OnSessionEnd_def)

text \<open>One event: the history grows by the time of an accepted dial, and the
  counter of a session grows by one for each of its accepted dials and is
  cleared by the end of the session.\<close>

lemma guard_step_inv:
  assumes "bucket_inv h now g" "session_inv g" "guard_step g e = (ok, g')"
    and "\<forall>t \<in> set (ev_times [e]). now \<le> t"
  shows "\<exists>now' \<in> set (now # ev_times [e]). (\<forall>t \<in> set (ev_times [e]). t \<le> now') \<and>
      bucket_inv (if ok then ev_times [e] @ h else h) now' g'"
    and "session_inv g'"
    and "counter g' sid = (if e = SessionEndEv sid then 0
           else counter g sid + (if ok \<and> dial_of sid e then 1 else 0))"
    and "maxPerSession g' = maxPerSession g" "maxPerMinute g' = maxPerMinute g"
proof -
  have "(\<exists>now' \<in> set (now # ev_times [e]). (\<forall>t \<in> set (ev_times [e]). t \<le> now') \<and>
      bucket_inv (if ok then ev_times [e] @ h else h) now' g') \<and> session_inv g' \<and>
      counter g' sid = (if e = SessionEndEv sid then 0
           else counter g sid + (if ok \<and> dial_of sid e then 1 else 0)) \<and>
      maxPerSession g' = maxPerSession g \<and> maxPerMinute g' = maxPerMinute g"
  proof (cases e)
    case (DialEv t s target)
    then obtain r where cd: "CheckDial t g s target = (r, g')" and ok: "ok = (r = None)"
      using assms(3) by (cases "CheckDial t g s target") auto
    have bi: "bucket_inv h t g"
      using assms(1,4) DialEv bucket_inv_later by simp
    show ?thesis
      using CheckDial_cases(2-5)[OF bi assms(2) cd] session_inv_CheckDial[OF bi assms(2) cd] DialEv ok
      by auto
  next
    case (SessionEndEv s)
    then show ?thesis
      using assms session_inv_OnSessionEnd bucket_inv_OnSessionEnd
      by (auto simp: counter_OnSessionEnd) (auto simp: OnSessionEnd_def)
  qed
  then show "\<exists>now' \<in> set (now # ev_times [e]). (\<forall>t \<in> set (ev_times [e]). t \<le> now') \<and>
      bucket_inv (if ok then ev_times [e] @ h else h) now' g'"
    "session_inv g'"
    "counter g' sid = (if e = SessionEndEv sid then 0
           else counter g sid + (if ok \<and> dial_of sid e then 1 else 0))"
    "maxPerSession g' = maxPerSession g" "maxPerMinute g' = maxPerMinute g" by blast+
qed

lemma ev_times_Cons: "ev_times (e # es) = ev_times [e] @ ev_times es"
  by (cases e) simp_all

lemma ev_times_append: "ev_times (xs @ ys) = ev_times xs @ ev_times ys"
  by (induction xs rule: ev_times.induct) simp_all

lemma guard_run_inv:
  assumes "bucket_inv h now g" "session_inv g" "guard_run es g = (acc, g')"
    "sorted (now # ev_times es)"
  shows "(\<exists>now' \<in> set (now # ev_times es). bucket_inv (rev (ev_times acc) @ h) now' g') \<and>
    session_inv g' \<and>
    maxPerSession g' = maxPerSession g \<and> maxPerMinute g' = maxPerMinute g \<and>
    (SessionEndEv sid \<notin> set es \<longrightarrow>
      counter g' sid = counter g sid + int (length (filter (dial_of sid) acc)))"
  using assms
proof (induction es arbitrary: h now g acc)
  case Nil
  then show ?case by auto
next
  case (Cons e es)
  obtain ok g1 where st: "guard_step g e = (ok, g1)" by fastforce
  obtain acc1 where run: "guard_run es g1 = (acc1, g')" and acc: "acc = (if ok then e # acc1 else acc1)"
    using Cons.prems(3) st by (auto split: prod.splits)
  have later: "\<forall>t \<in> set (ev_times [e]). now \<le> t" "sorted (ev_times es)"
    "\<forall>t \<in> set (now # ev_times [e]). \<forall>u \<in> set (ev_times es). t \<le> u"
    using Cons.prems(4) unfolding ev_times_Cons[of e es] by (auto simp: sorted_append)
  note step = guard_step_inv[OF Cons.prems(1,2) st later(1)]
  obtain now' where now': "now' \<in> set (now # ev_times [e])"
    and bi: "bucket_inv (if ok then ev_times [e] @ h else h) now' g1"
    using step(1) by blast
  have srt: "sorted (now' # ev_times es)" using later now' by auto
  have rw: "rev (ev_times acc1) @ (if ok then ev_times [e] @ h else h) = rev (ev_times acc) @ h"
    using acc by (cases e) auto
  show ?case
    using Cons.IH[OF bi step(2) run srt] step(3)[of sid] step(4,5) acc now'
    unfolding rw ev_times_Cons[of e es] by auto
qed

lemma bucket_inv_New: "0 \<le> perMin \<Longrightarrow> perMin < 2147483648 \<Longrightarrow> bucket_inv [] 0 (NewGuardrails ps perSess perMin)"
  by (auto simp: bucket_inv_def slot_ok_def NewGuardrails_def window_def i32_id)

lemma session_inv_New: "0 \<le> perSess \<Longrightarrow> perSess < 2147483647 \<Longrightarrow> session_inv (NewGuardrails ps perSess perMin)"
  by (auto simp: session_inv_def NewGuardrails_def counter_def i32_id)

lemma window_rev: "window t (rev h) = window t h"
  by (simp add: window_def rev_filter[symmetric])

text \<open>C6. The global rate limit holds over every rolling minute: whatever dials
  of whatever sessions are checked at times that do not go back, the accepted
  ones within any sixty consecutive seconds number at most \<^verbatim>\<open>DIAL_MAX_PER_MINUTE\<close>.
  The sixty buckets are reused every minute and summed in \<^verbatim>\<open>int32\<close>.\<close>

theorem guardrails_minute_cap:
  assumes "0 \<le> perMin" "perMin < 2147483648" "0 \<le> perSess" "perSess < 2147483647"
    and "sorted (ev_times es)"
    and "guard_run es (NewGuardrails ps perSess perMin) = (acc, g')"
  shows "int (length (filter (\<lambda>u. u \<le> t \<and> t < u + 60) (ev_times acc))) \<le> perMin"
proof -
  have "sorted (0 # ev_times es)" using assms(5) by simp
  with guard_run_inv[OF bucket_inv_New[OF assms(1,2)] session_inv_New[OF assms(3,4)] assms(6)]
  obtain now' where "bucket_inv (rev (ev_times acc)) now' g'"
    and "maxPerMinute g' = maxPerMinute (NewGuardrails ps perSess perMin)" by force
  then have "int (window t (ev_times acc)) \<le> perMin"
    using assms(1,2) by (auto simp: bucket_inv_def NewGuardrails_def i32_id window_rev dest: spec[of _ t])
  then show ?thesis by (simp add: window_def)
qed

text \<open>The per-session limit: between two ends of a session, at most
  \<^verbatim>\<open>DIAL_MAX_PER_SESSION\<close> of its dials are accepted, whatever else is checked in
  between; rejected attempts do not use up the budget.\<close>

theorem guardrails_session_cap:
  assumes "0 \<le> perMin" "perMin < 2147483648" "0 \<le> perSess" "perSess < 2147483647"
    and "sorted (ev_times (es1 @ SessionEndEv sid # es2))" "SessionEndEv sid \<notin> set es2"
    and "guard_run es1 (NewGuardrails ps perSess perMin) = (acc1, g1)"
    and "guard_run es2 (OnSessionEnd g1 sid) = (acc2, g2)"
  shows "int (length (filter (dial_of sid) acc2)) \<le> perSess"
proof -
  have srt: "sorted (0 # ev_times es1)" "\<forall>t \<in> set (ev_times es1). \<forall>u \<in> set (ev_times es2). t \<le> u"
    "sorted (ev_times es2)"
    using assms(5) by (auto simp: ev_times_append sorted_append)
  obtain now1 h where now1: "now1 \<in> set (0 # ev_times es1)" and bi: "bucket_inv h now1 g1"
    and si: "session_inv g1" and lim: "maxPerSession g1 = perSess"
    using guard_run_inv[OF bucket_inv_New[OF assms(1,2)] session_inv_New[OF assms(3,4)] assms(7) srt(1),
        of sid] assms(3,4) by (auto simp: NewGuardrails_def i32_id)
  have "sorted (now1 # ev_times es2)" using srt now1 by auto
  note run = guard_run_inv[OF bi[folded bucket_inv_OnSessionEnd[of h now1 g1 sid]]
      session_inv_OnSessionEnd[OF si] assms(8) this, of sid]
  have "int (length (filter (dial_of sid) acc2)) = counter g2 sid"
    using run assms(6) by (simp add: counter_OnSessionEnd)
  also have "\<dots> \<le> max 0 (maxPerSession g2)"
    using run unfolding session_inv_def by blast
  finally show ?thesis
    using run lim assms(3) by (simp add: OnSessionEnd_def)
qed

theorem guardrails_minute_cap_witness:
  "ev_times (fst (guard_run [DialEv 100 ''CA1'' ''+49301'', DialEv 130 ''CA2'' ''tel:0049 302'']
      (NewGuardrails [''+49''] 3 1))) = [100] \<and>
   int (length (filter (\<lambda>u. u \<le> 130 \<and> 130 < u + 60) [100 :: nat])) \<le> 1"
proof -
  have run: "fst (guard_run [DialEv 100 ''CA1'' ''+49301'', DialEv 130 ''CA2'' ''tel:0049 302'']
      (NewGuardrails [''+49''] 3 1)) = [DialEv 100 ''CA1'' ''+49301'']"
    by code_simp
  then show ?thesis
    using guardrails_minute_cap[of 1 3 "[DialEv 100 ''CA1'' ''+49301'', DialEv 130 ''CA2'' ''tel:0049 302'']"
        "[''+49'']" "[DialEv 100 ''CA1'' ''+49301'']" _ 130] by (simp add: prod_eq_iff)
qed

theorem guardrails_session_cap_witness:
  "fst (guard_run [DialEv 100 ''CA1'' ''+49301'', DialEv 101 ''CA1'' ''+49302'']
      (OnSessionEnd (NewGuardrails [''+49''] 1 5) ''CA1'')) = [DialEv 100 ''CA1'' ''+49301''] \<and>
   int (length (filter (dial_of ''CA1'') [DialEv 100 ''CA1'' ''+49301''])) \<le> 1"
proof -
  have run: "fst (guard_run [DialEv 100 ''CA1'' ''+49301'', DialEv 101 ''CA1'' ''+49302'']
      (OnSessionEnd (NewGuardrails [''+49''] 1 5) ''CA1'')) = [DialEv 100 ''CA1'' ''+49301'']"
    by code_simp
  then show ?thesis
    using guardrails_session_cap[of 5 1 "[]" "''CA1''"
        "[DialEv 100 ''CA1'' ''+49301'', DialEv 101 ''CA1'' ''+49302'']" "[''+49'']" "[]" _
        "[DialEv 100 ''CA1'' ''+49301'']"] by (simp add: prod_eq_iff)
qed

text \<open>Default deny: a dial is accepted only if its normalised target starts
  with a configured prefix, in every state of the counters; with an empty list
  nothing is accepted, and the refusal leaves all counters as they were.\<close>

theorem CheckDial_default_deny:
  "(fst (CheckDial now g sid target) = None \<longrightarrow>
      (\<exists>p \<in> set (allowedPrefixes g). has_prefix (normalizeTarget target) p)) \<and>
   (\<not> (\<exists>p \<in> set (allowedPrefixes g). has_prefix (normalizeTarget target) p) \<longrightarrow>
      CheckDial now g sid target =
        (Some (ErrTollFraudBlocked (maskTarget (normalizeTarget target))), g))"
proof -
  have m: "matchAllowList g t \<longleftrightarrow> (\<exists>p \<in> set (allowedPrefixes g). has_prefix t p)" for t
    by (auto simp: matchAllowList_def list_ex_iff)
  show ?thesis
    by (auto simp: CheckDial_def m Let_def split: prod.splits if_splits)
qed

theorem CheckDial_default_deny_witness:
  "fst (CheckDial 100 (NewGuardrails [''+49''] 3 10) ''CA1'' ''SIP:0049 30 555'') = None \<and>
   has_prefix (normalizeTarget ''SIP:0049 30 555'') ''+49'' \<and>
   CheckDial 100 (NewGuardrails [] 3 10) ''CA1'' ''+4930555'' =
     (Some (ErrTollFraudBlocked ''****0555''), NewGuardrails [] 3 10)"
proof -
  have a: "fst (CheckDial 100 (NewGuardrails [''+49''] 3 10) ''CA1'' ''SIP:0049 30 555'') = None"
    by code_simp
  have b: "maskTarget (normalizeTarget ''+4930555'') = ''****0555''" by code_simp
  show ?thesis
    using a CheckDial_default_deny[of 100 "NewGuardrails [''+49''] 3 10" "''CA1''" "''SIP:0049 30 555''"]
      CheckDial_default_deny[of 100 "NewGuardrails [] 3 10" "''CA1''" "''+4930555''"] b
    by (simp add: NewGuardrails_def)
qed

section \<open>Concurrent checks of one session\<close>

text \<open>\<^verbatim>\<open>CheckDial\<close> takes no lock around the per-session counter: it adds one
  atomically, tests the value returned by the addition, and takes the increment
  back on a failure.  \<open>cd_step\<close> interleaves several calls for the same session
  at the granularity of the atomic operations and of the critical section of
  \<^const>\<open>checkAndIncrementGlobal\<close>.\<close>

datatype cd_pc = CdStart | CdOver | CdCounted | CdGlobalFailed | CdDone "guard_error option"

record cd_state =
  cd_counter :: int
  cd_guard :: guardrails
  cd_threads :: "cd_pc list"

definition cd_init :: "guardrails \<Rightarrow> nat \<Rightarrow> cd_state" where
  "cd_init g n = \<lparr> cd_counter = 0, cd_guard = g, cd_threads = replicate n CdStart \<rparr>"

definition cd_at :: "cd_state \<Rightarrow> nat \<Rightarrow> cd_pc \<Rightarrow> bool" where
  "cd_at s i pc \<longleftrightarrow> i < length (cd_threads s) \<and> cd_threads s ! i = pc"

definition cd_goto :: "cd_state \<Rightarrow> nat \<Rightarrow> cd_pc \<Rightarrow> int \<Rightarrow> cd_state" where
  "cd_goto s i pc d =
    s\<lparr> cd_threads := (cd_threads s)[i := pc], cd_counter := i32 (cd_counter s + d) \<rparr>"

inductive cd_step :: "cd_state \<Rightarrow> cd_state \<Rightarrow> bool" where
  add_over: "cd_at s i CdStart \<Longrightarrow> i32 (cd_counter s + 1) > maxPerSession (cd_guard s) \<Longrightarrow>
    cd_step s (cd_goto s i CdOver 1)"
| add_ok: "cd_at s i CdStart \<Longrightarrow> \<not> i32 (cd_counter s + 1) > maxPerSession (cd_guard s) \<Longrightarrow>
    cd_step s (cd_goto s i CdCounted 1)"
| over_back: "cd_at s i CdOver \<Longrightarrow>
    cd_step s (cd_goto s i (CdDone (Some ErrSessionRateLimit)) (- 1))"
| global_ok: "cd_at s i CdCounted \<Longrightarrow> checkAndIncrementGlobal now (cd_guard s) = (True, g') \<Longrightarrow>
    cd_step s ((cd_goto s i (CdDone None) 0)\<lparr> cd_guard := g' \<rparr>)"
| global_no: "cd_at s i CdCounted \<Longrightarrow> checkAndIncrementGlobal now (cd_guard s) = (False, g') \<Longrightarrow>
    cd_step s ((cd_goto s i CdGlobalFailed 0)\<lparr> cd_guard := g' \<rparr>)"
| global_back: "cd_at s i CdGlobalFailed \<Longrightarrow>
    cd_step s (cd_goto s i (CdDone (Some ErrGlobalRateLimit)) (- 1))"

fun cd_counts :: "cd_pc \<Rightarrow> int" where
  "cd_counts CdStart = 0"
| "cd_counts CdOver = 1"
| "cd_counts CdCounted = 1"
| "cd_counts CdGlobalFailed = 1"
| "cd_counts (CdDone r) = (if r = None then 1 else 0)"

definition cd_passed :: "cd_pc \<Rightarrow> int" where
  "cd_passed pc = (if pc \<in> {CdCounted, CdGlobalFailed, CdDone None} then 1 else 0)"

definition cd_inv :: "cd_state \<Rightarrow> bool" where
  "cd_inv s \<longleftrightarrow>
    cd_counter s = weight cd_counts (cd_threads s) \<and>
    weight cd_passed (cd_threads s) \<le> max 0 (maxPerSession (cd_guard s)) \<and>
    length (cd_threads s) < 2147483647"

lemma cd_counts_bounds: "0 \<le> cd_counts pc" "cd_counts pc \<le> 1" "cd_passed pc \<le> cd_counts pc" "0 \<le> cd_passed pc"
  by (cases pc; auto simp: cd_passed_def)+

lemma cd_counter_bounds: "cd_inv s \<Longrightarrow> 0 \<le> cd_counter s \<and> cd_counter s < 2147483647"
  using weight_nonneg[of cd_counts "cd_threads s"] weight_le_length[of cd_counts "cd_threads s"]
    cd_counts_bounds by (force simp: cd_inv_def)

lemma cd_goto_inv:
  assumes inv: "cd_inv s" and at: "cd_at s i pc" and d: "d = cd_counts pc' - cd_counts pc"
    and passed: "cd_passed pc' \<le> cd_passed pc \<or>
      cd_counter s + 1 \<le> maxPerSession (cd_guard s) \<and> cd_passed pc' \<le> cd_passed pc + 1"
  shows "cd_inv (cd_goto s i pc' d)"
proof -
  have len: "i < length (cd_threads s)" "cd_threads s ! i = pc"
    using at by (simp_all add: cd_at_def)
  let ?ts = "(cd_threads s)[i := pc']"
  have cnt: "cd_counter s + d = weight cd_counts ?ts"
    using inv len d by (simp add: cd_inv_def weight_update)
  have "0 \<le> weight cd_counts ?ts" "weight cd_counts ?ts \<le> int (length ?ts)"
    using cd_counts_bounds by (simp_all only: weight_nonneg weight_le_length)
  then have "i32 (cd_counter s + d) = weight cd_counts ?ts"
    using inv cnt by (simp add: cd_inv_def i32_id)
  moreover have "weight cd_passed (cd_threads s) \<le> cd_counter s"
    using inv weight_mono[of cd_passed cd_counts] cd_counts_bounds by (simp add: cd_inv_def)
  ultimately show ?thesis
    using inv len passed by (auto simp: cd_inv_def cd_goto_def weight_update)
qed

lemma cd_inv_guard: "maxPerSession g' = maxPerSession (cd_guard s) \<Longrightarrow> cd_inv (s\<lparr> cd_guard := g' \<rparr>) = cd_inv s"
  by (simp add: cd_inv_def)

lemma global_keeps_limit:
  "checkAndIncrementGlobal now g = (ok, g') \<Longrightarrow> maxPerSession g' = maxPerSession g"
  by (auto simp: checkAndIncrementGlobal_def Let_def split: if_splits)

lemma cd_step_inv:
  assumes "cd_step s s'" "cd_inv s"
  shows "cd_inv s' \<and> maxPerSession (cd_guard s') = maxPerSession (cd_guard s) \<and>
    length (cd_threads s') = length (cd_threads s)"
  using assms
proof (induction rule: cd_step.induct)
  case (add_ok s i)
  then have "i32 (cd_counter s + 1) = cd_counter s + 1"
    using cd_counter_bounds by (simp add: i32_id)
  with add_ok show ?case
    using cd_goto_inv[of s i CdStart 1 CdCounted] by (auto simp: cd_goto_def cd_passed_def)
next
  case (add_over s i)
  then show ?case
    using cd_goto_inv[of s i CdStart 1 CdOver] by (auto simp: cd_goto_def cd_passed_def)
next
  case (over_back s i)
  then show ?case
    using cd_goto_inv[of s i CdOver "- 1" "CdDone (Some ErrSessionRateLimit)"]
    by (auto simp: cd_goto_def cd_passed_def)
next
  case (global_ok s i now g')
  then show ?case
    using cd_goto_inv[of s i CdCounted 0 "CdDone None"] global_keeps_limit[of now _ True g']
    by (auto simp: cd_goto_def cd_passed_def cd_inv_guard)
next
  case (global_no s i now g')
  then show ?case
    using cd_goto_inv[of s i CdCounted 0 CdGlobalFailed] global_keeps_limit[of now _ False g']
    by (auto simp: cd_goto_def cd_passed_def cd_inv_guard)
next
  case (global_back s i)
  then show ?case
    using cd_goto_inv[of s i CdGlobalFailed "- 1" "CdDone (Some ErrGlobalRateLimit)"]
    by (auto simp: cd_goto_def cd_passed_def)
qed

lemma cd_reach_inv:
  assumes "cd_step\<^sup>*\<^sup>* (cd_init g n) s" "n < 2147483647"
  shows "cd_inv s \<and> maxPerSession (cd_guard s) = maxPerSession g \<and> length (cd_threads s) = n"
  using assms
proof (induction rule: rtranclp_induct)
  case base
  then show ?case
    by (simp add: cd_inv_def cd_init_def weight_def sum_list_replicate cd_passed_def)
next
  case (step s s')
  then show ?case using cd_step_inv[of s s'] by simp
qed

text \<open>C18. Concurrent \<^verbatim>\<open>CheckDial\<close> calls of one session, interleaved in any way
  between their atomic operations, never accept more dials than
  \<^verbatim>\<open>DIAL_MAX_PER_SESSION\<close>; once all calls have returned the counter equals the
  number of accepted dials, so every rollback restored what it had added.\<close>

theorem CheckDial_concurrent_cap:
  assumes "cd_step\<^sup>*\<^sup>* (cd_init g n) s" "n < 2147483647" "0 \<le> maxPerSession g"
  shows "int (length (filter (\<lambda>pc. pc = CdDone None) (cd_threads s))) \<le> maxPerSession g \<and>
    ((\<forall>pc \<in> set (cd_threads s). \<exists>r. pc = CdDone r) \<longrightarrow>
      cd_counter s = int (length (filter (\<lambda>pc. pc = CdDone None) (cd_threads s))))"
proof
  have inv: "cd_inv s" and lim: "maxPerSession (cd_guard s) = maxPerSession g"
    using cd_reach_inv[OF assms(1,2)] by simp_all
  have "int (length (filter (\<lambda>pc. pc = CdDone None) (cd_threads s))) \<le> weight cd_passed (cd_threads s)"
    unfolding weight_filter[symmetric] by (rule weight_mono) (simp add: cd_passed_def)
  then show "int (length (filter (\<lambda>pc. pc = CdDone None) (cd_threads s))) \<le> maxPerSession g"
    using inv lim assms(3) by (simp add: cd_inv_def)
  show "(\<forall>pc \<in> set (cd_threads s). \<exists>r. pc = CdDone r) \<longrightarrow>
      cd_counter s = int (length (filter (\<lambda>pc. pc = CdDone None) (cd_threads s)))"
    using inv unfolding cd_inv_def weight_filter[symmetric] by (auto intro!: weight_cong)
qed

theorem CheckDial_concurrent_cap_witness:
  "cd_threads (cd_goto (cd_init (NewGuardrails [''+49''] 1 5) 2) 0 CdCounted 1) = [CdCounted, CdStart] \<and>
   int (length (filter (\<lambda>pc. pc = CdDone None) [CdCounted, CdStart])) \<le> 1"
proof -
  let ?s = "cd_init (NewGuardrails [''+49''] 1 5) 2"
  have "cd_step ?s (cd_goto ?s 0 CdCounted 1)"
    by (rule cd_step.add_ok) (simp_all add: cd_at_def cd_init_def NewGuardrails_def i32_def)
  then have "cd_step\<^sup>*\<^sup>* ?s (cd_goto ?s 0 CdCounted 1)" by simp
  moreover have "cd_threads (cd_goto ?s 0 CdCounted 1) = [CdCounted, CdStart]"
    by (simp add: cd_goto_def cd_init_def numeral_2_eq_2)
  ultimately show ?thesis
    using CheckDial_concurrent_cap[of "NewGuardrails [''+49''] 1 5" 2 "cd_goto ?s 0 CdCounted 1"]
    by (simp add: NewGuardrails_def i32_def)
qed

end
