(* ===== verification/Bytes_Codec.thy ===== *)
theory Bytes_Codec
  imports Prelude
begin

text \<open>
  Byte strings and the encodings and digests of the Go standard library the
  sources use: \<^verbatim>\<open>encoding/base64\<close> (standard alphabet, padded), \<^verbatim>\<open>encoding/hex\<close>,
  \<^verbatim>\<open>crypto/sha1\<close>, \<^verbatim>\<open>crypto/sha256\<close> and \<^verbatim>\<open>crypto/hmac\<close>, all executable.  The lemmas are the
  round trip of Base64 and the shape of its and the hexadecimal alphabet.
\<close>

unbundle bit_operations_syntax

type_synonym byte = "8 word"

section \<open>Strings and bytes\<close>

definition bytes_of :: "string \<Rightarrow> byte list" where
  "bytes_of s = map (\<lambda>c. of_nat (of_char c)) s"

definition string_of :: "byte list \<Rightarrow> string" where
  "string_of bs = map (\<lambda>b. char_of (unat b)) bs"

lemma unat_of_char [simp]: "unat (of_nat (of_char c) :: byte) = of_char c"
  by (simp add: unsigned_of_nat take_bit_nat_eq_self)

lemma string_of_bytes_of [simp]: "string_of (bytes_of s) = s"
  by (simp add: string_of_def bytes_of_def o_def)

lemma unat_byte_less [simp]: "unat (b :: byte) < 256"
  using unsigned_less[of b] by simp

section \<open>Base64\<close>

definition b64_alphabet :: string where
  "b64_alphabet = ''ABCDEFGHIJKLMNOPQRSTUVWXYZabcdefghijklmnopqrstuvwxyz0123456789+/''"

definition b64_char :: "nat \<Rightarrow> char" where
  "b64_char n = b64_alphabet ! n"

definition b64_val :: "char \<Rightarrow> nat option" where
  "b64_val c =
    (let n = (of_char c :: nat) in
     if 65 \<le> n \<and> n \<le> 90 then Some (n - 65)
     else if 97 \<le> n \<and> n \<le> 122 then Some (n - 71)
     else if 48 \<le> n \<and> n \<le> 57 then Some (n + 4)
     else if n = 43 then Some 62
     else if n = 47 then Some 63
     else None)"

fun b64_encode :: "byte list \<Rightarrow> string" where
  "b64_encode [] = []"
| "b64_encode [a] =
    [b64_char (unat a div 4), b64_char ((unat a mod 4) * 16), CHR ''='', CHR ''='']"
| "b64_encode [a, b] =
    [b64_char (unat a div 4), b64_char ((unat a mod 4) * 16 + unat b div 16),
     b64_char ((unat b mod 16) * 4), CHR ''='']"
| "b64_encode (a # b # c # rest) =
    b64_char (unat a div 4) # b64_char ((unat a mod 4) * 16 + unat b div 16) #
    b64_char ((unat b mod 16) * 4 + unat c div 64) # b64_char (unat c mod 64) # b64_encode rest"

text \<open>\<^verbatim>\<open>DecodeString\<close> drops carriage returns and line feeds, takes quanta of four
  characters, accepts padding only at the end, and does not inspect the unused
  bits of the last character.\<close>

definition b64_three :: "nat \<Rightarrow> nat \<Rightarrow> nat \<Rightarrow> nat \<Rightarrow> byte list" where
  "b64_three p q r s =
    [of_nat (p * 4 + q div 16), of_nat ((q mod 16) * 16 + r div 4), of_nat ((r mod 4) * 64 + s)]"

fun b64_quanta :: "string \<Rightarrow> byte list option" where
  "b64_quanta [] = Some []"
| "b64_quanta (w # x # y # z # rest) =
    (case (b64_val w, b64_val x) of
       (Some p, Some q) \<Rightarrow>
         (if y = CHR ''='' then (if z = CHR ''='' \<and> rest = [] then Some (take 1 (b64_three p q 0 0)) else None)
          else case b64_val y of
            None \<Rightarrow> None
          | Some r \<Rightarrow>
              (if z = CHR ''='' then (if rest = [] then Some (take 2 (b64_three p q r 0)) else None)
               else case b64_val z of
                 None \<Rightarrow> None
               | Some s \<Rightarrow> map_option ((@) (b64_three p q r s)) (b64_quanta rest)))
     | _ \<Rightarrow> None)"
| "b64_quanta _ = None"

definition b64_decode :: "string \<Rightarrow> byte list option" where
  "b64_decode s = b64_quanta (filter (\<lambda>c. c \<noteq> CHR 0x0D \<and> c \<noteq> CHR 0x0A) s)"

lemma upt_0_numeral: "2 < n \<Longrightarrow> [0..<n] = 0 # 1 # [2..<n]"
  by (simp add: upt_conv_Cons numeral_2_eq_2)

lemma b64_char_table: "list_all (\<lambda>n. b64_val (b64_char n) = Some n \<and> b64_char n \<noteq> CHR ''=''
    \<and> b64_char n \<noteq> CHR 0x0D \<and> b64_char n \<noteq> CHR 0x0A) [0..<64]"
  by (simp add: b64_val_def b64_char_def b64_alphabet_def upt_0_numeral upt_rec_numeral)

lemma b64_char_ok [simp]:
  assumes "n < 64"
  shows "b64_val (b64_char n) = Some n" "b64_char n \<noteq> CHR ''=''"
    "b64_char n \<noteq> CHR 0x0D" "b64_char n \<noteq> CHR 0x0A"
  using b64_char_table assms by (simp_all add: list_all_iff)

lemma b64_digits [simp]:
  "unat (a :: byte) div 4 < 64" "(unat a mod 4) * 16 < 64" "(unat a mod 4) * 16 + unat (b :: byte) div 16 < 64"
  "(unat b mod 16) * 4 < 64" "(unat b mod 16) * 4 + unat (c :: byte) div 64 < 64" "unat c mod 64 < 64"
  using unat_byte_less[of a] unat_byte_less[of b] unat_byte_less[of c] by linarith+

lemma b64_regroup:
  "n < 16 \<Longrightarrow> of_nat (unat (a :: byte) div 4 * 4 + ((unat a mod 4) * 16 + n) div 16) = a"
  "m < 4 \<Longrightarrow> of_nat ((((unat a mod 4) * 16 + unat (b :: byte) div 16) mod 16) * 16 + ((unat b mod 16) * 4 + m) div 4) = b"
  "of_nat ((((unat b mod 16) * 4 + unat (c :: byte) div 64) mod 4) * 64 + unat c mod 64) = c"
proof -
  show "n < 16 \<Longrightarrow> of_nat (unat a div 4 * 4 + ((unat a mod 4) * 16 + n) div 16) = a"
    by simp
  have "unat b div 16 < 16" using unat_byte_less[of b] by linarith
  then have "m < 4 \<Longrightarrow> (((unat a mod 4) * 16 + unat b div 16) mod 16) * 16 + ((unat b mod 16) * 4 + m) div 4 = unat b"
    by simp
  then show "m < 4 \<Longrightarrow> of_nat ((((unat a mod 4) * 16 + unat b div 16) mod 16) * 16 + ((unat b mod 16) * 4 + m) div 4) = b"
    by simp
  have "unat c div 64 < 4" using unat_byte_less[of c] by linarith
  then have "((unat b mod 16) * 4 + unat c div 64) mod 4 = unat c div 64" by simp
  then show "of_nat ((((unat b mod 16) * 4 + unat c div 64) mod 4) * 64 + unat c mod 64) = c"
    by simp
qed

lemma b64_three_regroup:
  "b64_three (unat (a :: byte) div 4) ((unat a mod 4) * 16 + unat (b :: byte) div 16)
     ((unat b mod 16) * 4 + unat (c :: byte) div 64) (unat c mod 64) = [a, b, c]"
  "take 2 (b64_three (unat a div 4) ((unat a mod 4) * 16 + unat b div 16) ((unat b mod 16) * 4) 0) = [a, b]"
  "take (Suc 0) (b64_three (unat a div 4) ((unat a mod 4) * 16) 0 0) = [a]"
proof -
  have "unat b div 16 < 16" "unat c div 64 < 4"
    using unat_byte_less[of b] unat_byte_less[of c] by linarith+
  then show "b64_three (unat a div 4) ((unat a mod 4) * 16 + unat b div 16)
       ((unat b mod 16) * 4 + unat c div 64) (unat c mod 64) = [a, b, c]"
    "take 2 (b64_three (unat a div 4) ((unat a mod 4) * 16 + unat b div 16) ((unat b mod 16) * 4) 0) = [a, b]"
    "take (Suc 0) (b64_three (unat a div 4) ((unat a mod 4) * 16) 0 0) = [a]"
    using b64_regroup(1)[of 0 a] b64_regroup(2)[of 0 a b]
    by (simp_all only: b64_three_def b64_regroup take.simps numeral_2_eq_2 add_0_right) simp_all
qed

lemma b64_quanta_encode: "b64_quanta (b64_encode bs) = Some bs"
  by (induction bs rule: b64_encode.induct) (simp_all add: b64_three_regroup)

lemma b64_encode_no_newline: "filter (\<lambda>c. c \<noteq> CHR 0x0D \<and> c \<noteq> CHR 0x0A) (b64_encode bs) = b64_encode bs"
  by (induction bs rule: b64_encode.induct) simp_all

lemma b64_roundtrip [simp]: "b64_decode (b64_encode bs) = Some bs"
  by (simp add: b64_decode_def b64_encode_no_newline b64_quanta_encode)

lemma b64_encode_inj: "b64_encode x = b64_encode y \<Longrightarrow> x = y"
  by (metis b64_roundtrip option.inject)

section \<open>Hexadecimal\<close>

definition hex_digit :: "nat \<Rightarrow> char" where
  "hex_digit n = ''0123456789abcdef'' ! n"

definition hex_encode :: "byte list \<Rightarrow> string" where
  "hex_encode bs = concat (map (\<lambda>b. [hex_digit (unat b div 16), hex_digit (unat b mod 16)]) bs)"

definition is_lower_hex :: "char \<Rightarrow> bool" where
  "is_lower_hex c \<longleftrightarrow> is_digit c \<or> (97 \<le> (of_char c :: nat) \<and> (of_char c :: nat) \<le> 102)"

lemma hex_digit_table: "list_all (\<lambda>n. is_lower_hex (hex_digit n)) [0..<16] \<and>
    distinct (map hex_digit [0..<16])"
  by (simp add: is_lower_hex_def is_digit_def hex_digit_def upt_0_numeral upt_rec_numeral)

lemma hex_digit_ok [simp]: "n < 16 \<Longrightarrow> is_lower_hex (hex_digit n)"
  using hex_digit_table by (simp add: list_all_iff)

lemma hex_digit_inj: "m < 16 \<Longrightarrow> n < 16 \<Longrightarrow> hex_digit m = hex_digit n \<Longrightarrow> m = n"
  using hex_digit_table by (auto simp: distinct_map inj_on_def)

lemma hex_encode_length [simp]: "length (hex_encode bs) = 2 * length bs"
  by (induction bs) (simp_all add: hex_encode_def)

lemma hex_encode_lower: "list_all is_lower_hex (hex_encode bs)"
proof (induction bs)
  case (Cons b bs)
  have "unat b div 16 < 16" using unat_byte_less[of b] by linarith
  with Cons show ?case by (simp add: hex_encode_def)
qed (simp add: hex_encode_def)

lemma hex_encode_inj: "hex_encode x = hex_encode y \<Longrightarrow> x = y"
proof (induction x arbitrary: y)
  case Nil
  then show ?case by (cases y) (simp_all add: hex_encode_def)
next
  case (Cons b bs)
  obtain c cs where y: "y = c # cs"
    using Cons.prems by (cases y) (simp_all add: hex_encode_def)
  have lt: "unat b div 16 < 16" "unat c div 16 < 16"
    using unat_byte_less[of b] unat_byte_less[of c] by linarith+
  have eqs: "hex_digit (unat b div 16) = hex_digit (unat c div 16)"
    "hex_digit (unat b mod 16) = hex_digit (unat c mod 16)" "hex_encode bs = hex_encode cs"
    using Cons.prems y by (simp_all add: hex_encode_def)
  have "unat b div 16 = unat c div 16" "unat b mod 16 = unat c mod 16"
    using hex_digit_inj[OF lt eqs(1)] hex_digit_inj[OF _ _ eqs(2)] by simp_all
  then have "unat b = unat c" by (metis div_mult_mod_eq)
  then have "b = c" by (rule unsigned_word_eqI)
  with Cons.IH[OF eqs(3)] y show ?case by simp
qed

section \<open>Digests\<close>

definition be32 :: "byte list \<Rightarrow> 32 word" where
  "be32 bs = foldl (\<lambda>acc b. acc * 256 + of_nat (unat b)) 0 bs"

definition bytes32 :: "32 word \<Rightarrow> byte list" where
  "bytes32 w = map (\<lambda>k. of_nat (unat (drop_bit k w))) [24, 16, 8, 0]"

definition md_pad :: "byte list \<Rightarrow> byte list" where
  "md_pad m =
    (let l = length m; z = (119 - l mod 64) mod 64; bits = 8 * l
     in m @ [0x80] @ replicate z 0 @ map (\<lambda>k. of_nat (bits div 2 ^ k)) [56, 48, 40, 32, 24, 16, 8, 0])"

function chunks :: "nat \<Rightarrow> 'a list \<Rightarrow> 'a list list" where
  "chunks n xs = (if xs = [] \<or> n = 0 then [] else take n xs # chunks n (drop n xs))"
  by pat_completeness auto
termination
  by (relation "measure (\<lambda>(n, xs). length xs)") auto

declare chunks.simps [simp del]

type_synonym sha1_state = "32 word \<times> 32 word \<times> 32 word \<times> 32 word \<times> 32 word"

definition sha1_f :: "nat \<Rightarrow> 32 word \<Rightarrow> 32 word \<Rightarrow> 32 word \<Rightarrow> 32 word \<times> 32 word" where
  "sha1_f t b c d =
    (if t < 20 then ((b AND c) OR ((NOT b) AND d), 0x5A827999)
     else if t < 40 then (b XOR c XOR d, 0x6ED9EBA1)
     else if t < 60 then ((b AND c) OR (b AND d) OR (c AND d), 0x8F1BBCDC)
     else (b XOR c XOR d, 0xCA62C1D6))"

definition sha1_schedule :: "byte list \<Rightarrow> 32 word list" where
  "sha1_schedule blk =
    foldl (\<lambda>w t. w @ [word_rotl 1 (w ! (t - 3) XOR w ! (t - 8) XOR w ! (t - 14) XOR w ! (t - 16))])
      (map be32 (chunks 4 blk)) [16..<80]"

definition sha1_round :: "32 word list \<Rightarrow> sha1_state \<Rightarrow> nat \<Rightarrow> sha1_state" where
  "sha1_round w s t =
    (case s of (a, b, c, d, e) \<Rightarrow>
       (let (f, k) = sha1_f t b c d
        in (word_rotl 5 a + f + e + w ! t + k, a, word_rotl 30 b, c, d)))"

definition sha1_block :: "sha1_state \<Rightarrow> byte list \<Rightarrow> sha1_state" where
  "sha1_block s blk =
    (case s of (a, b, c, d, e) \<Rightarrow> case foldl (sha1_round (sha1_schedule blk)) s [0..<80] of
       (a', b', c', d', e') \<Rightarrow> (a + a', b + b', c + c', d + d', e + e'))"

definition sha1 :: "byte list \<Rightarrow> byte list" where
  "sha1 m =
    (case foldl sha1_block (0x67452301, 0xEFCDAB89, 0x98BADCFE, 0x10325476, 0xC3D2E1F0)
        (chunks 64 (md_pad m)) of
       (a, b, c, d, e) \<Rightarrow> concat (map bytes32 [a, b, c, d, e]))"

definition hmac :: "(byte list \<Rightarrow> byte list) \<Rightarrow> byte list \<Rightarrow> byte list \<Rightarrow> byte list" where
  "hmac H key msg =
    (let k0 = (if length key > 64 then H key else key); k = k0 @ replicate (64 - length k0) 0
     in H (map (\<lambda>b. b XOR 0x5C) k @ H (map (\<lambda>b. b XOR 0x36) k @ msg)))"

lemma sha1_length: "length (sha1 m) = 20"
  by (auto simp: sha1_def bytes32_def split: prod.split)

text \<open>The round constants of FIPS 180-4 (section 4.2.2), in decimal.\<close>

definition sha256_K :: "32 word list" where
  "sha256_K =
    [1116352408, 1899447441, 3049323471, 3921009573, 961987163, 1508970993, 2453635748, 2870763221,
     3624381080, 310598401, 607225278, 1426881987, 1925078388, 2162078206, 2614888103, 3248222580,
     3835390401, 4022224774, 264347078, 604807628, 770255983, 1249150122, 1555081692, 1996064986,
     2554220882, 2821834349, 2952996808, 3210313671, 3336571891, 3584528711, 113926993, 338241895,
     666307205, 773529912, 1294757372, 1396182291, 1695183700, 1986661051, 2177026350, 2456956037,
     2730485921, 2820302411, 3259730800, 3345764771, 3516065817, 3600352804, 4094571909, 275423344,
     430227734, 506948616, 659060556, 883997877, 958139571, 1322822218, 1537002063, 1747873779,
     1955562222, 2024104815, 2227730452, 2361852424, 2428436474, 2756734187, 3204031479, 3329325298]"

definition sha256_schedule :: "byte list \<Rightarrow> 32 word list" where
  "sha256_schedule blk =
    foldl (\<lambda>w t.
        let x = w ! (t - 15); y = w ! (t - 2);
            s0 = word_rotr 7 x XOR word_rotr 18 x XOR drop_bit 3 x;
            s1 = word_rotr 17 y XOR word_rotr 19 y XOR drop_bit 10 y
        in w @ [w ! (t - 16) + s0 + w ! (t - 7) + s1])
      (map be32 (chunks 4 blk)) [16..<64]"

fun sha256_round :: "32 word list \<Rightarrow> 32 word list \<Rightarrow> nat \<Rightarrow> 32 word list" where
  "sha256_round w [a, b, c, d, e, f, g, h] t =
    (let s1 = word_rotr 6 e XOR word_rotr 11 e XOR word_rotr 25 e;
         ch = (e AND f) XOR ((NOT e) AND g);
         t1 = h + s1 + ch + sha256_K ! t + w ! t;
         s0 = word_rotr 2 a XOR word_rotr 13 a XOR word_rotr 22 a;
         mj = (a AND b) XOR (a AND c) XOR (b AND c)
     in [t1 + s0 + mj, a, b, c, d + t1, e, f, g])"
| "sha256_round w s t = s"

definition sha256_block :: "32 word list \<Rightarrow> byte list \<Rightarrow> 32 word list" where
  "sha256_block s blk = map2 (+) s (foldl (sha256_round (sha256_schedule blk)) s [0..<64])"

definition sha256 :: "byte list \<Rightarrow> byte list" where
  "sha256 m =
    concat (map bytes32 (foldl sha256_block
      [1779033703, 3144134277, 1013904242, 2773480762, 1359893119, 2600822924, 528734635, 1541459225]
      (chunks 64 (md_pad m))))"

lemma sha256_round_length [simp]: "length s = 8 \<Longrightarrow> length (sha256_round w s t) = 8"
  by (cases "(w, s, t)" rule: sha256_round.cases) (simp_all add: Let_def)

lemma sha256_block_length [simp]: "length s = 8 \<Longrightarrow> length (sha256_block s blk) = 8"
proof -
  have "length s = 8 \<Longrightarrow> length (foldl (sha256_round w) s ts) = 8" for w ts
    by (induction ts arbitrary: s) simp_all
  then show "length s = 8 \<Longrightarrow> ?thesis" by (simp add: sha256_block_def)
qed

lemma sha256_length: "length (sha256 m) = 32"
proof -
  have "length s = 8 \<Longrightarrow> length (foldl sha256_block s bs) = 8" for s bs
    by (induction bs arbitrary: s) simp_all
  moreover have "length (concat (map bytes32 ws)) = 4 * length ws" for ws
    by (induction ws) (simp_all add: bytes32_def)
  ultimately show ?thesis by (simp add: sha256_def)
qed

end
