(* ===== verification/Url_Values.thy ===== *)
theory Url_Values
  imports Bytes_Codec
begin

text \<open>
  Forms as \<^verbatim>\<open>net/url\<close> handles them, which every callback body and every REST
  request goes through: \<^verbatim>\<open>url.Values\<close> (a map from a key to the list of its
  values, here the association list of one iteration order), \<^verbatim>\<open>QueryEscape\<close>,
  \<^verbatim>\<open>QueryUnescape\<close>, \<^verbatim>\<open>Values.Encode\<close> and \<^verbatim>\<open>ParseQuery\<close>.  The main lemma is the round
  trip: parsing an encoded form gives back the form, with its keys in order.
\<close>

type_synonym url_values = "(string \<times> string list) list"

section \<open>Escaping\<close>

definition is_alpha :: "char \<Rightarrow> bool" where
  "is_alpha c \<longleftrightarrow>
    (65 \<le> (of_char c :: nat) \<and> (of_char c :: nat) \<le> 90) \<or> (97 \<le> (of_char c :: nat) \<and> (of_char c :: nat) \<le> 122)"

definition unreserved :: "char \<Rightarrow> bool" where
  "unreserved c \<longleftrightarrow> is_alpha c \<or> is_digit c \<or> c \<in> set ''-_.~''"

definition upper_hex :: "nat \<Rightarrow> char" where
  "upper_hex n = ''0123456789ABCDEF'' ! n"

definition unhex :: "char \<Rightarrow> nat option" where
  "unhex c =
    (let n = (of_char c :: nat) in
     if 48 \<le> n \<and> n \<le> 57 then Some (n - 48)
     else if 97 \<le> n \<and> n \<le> 102 then Some (n - 87)
     else if 65 \<le> n \<and> n \<le> 70 then Some (n - 55)
     else None)"

definition escape_char :: "char \<Rightarrow> string" where
  "escape_char c =
    (if unreserved c then [c] else if c = CHR '' '' then ''+''
     else [CHR ''%'', upper_hex (of_char c div 16), upper_hex (of_char c mod 16)])"

definition query_escape :: "string \<Rightarrow> string" where
  "query_escape s = concat (map escape_char s)"

fun query_unescape :: "string \<Rightarrow> string option" where
  "query_unescape [] = Some []"
| "query_unescape (c # cs) =
    (if c = CHR ''%'' then
       (case cs of
          a # b # rest \<Rightarrow>
            (case (unhex a, unhex b) of
               (Some x, Some y) \<Rightarrow> map_option (Cons (char_of (x * 16 + y))) (query_unescape rest)
             | _ \<Rightarrow> None)
        | _ \<Rightarrow> None)
     else if c = CHR ''+'' then map_option (Cons (CHR '' '')) (query_unescape cs)
     else map_option (Cons c) (query_unescape cs))"

lemma upper_hex_table: "list_all (\<lambda>n. unhex (upper_hex n) = Some n \<and>
    upper_hex n \<notin> {CHR ''&'', CHR ''='', CHR '';''}) [0..<16]"
  by (simp add: unhex_def upper_hex_def upt_0_numeral upt_rec_numeral)

lemma unhex_upper_hex [simp]: "n < 16 \<Longrightarrow> unhex (upper_hex n) = Some n"
  using upper_hex_table by (simp add: list_all_iff)

lemma upper_hex_no_delim: "n < 16 \<Longrightarrow> upper_hex n \<notin> {CHR ''&'', CHR ''='', CHR '';''}"
  using upper_hex_table by (simp add: list_all_iff)

lemma unreserved_plain: "unreserved c \<Longrightarrow> c \<notin> {CHR ''%'', CHR ''+'', CHR ''&'', CHR ''='', CHR '';''}"
  by (auto simp: unreserved_def is_alpha_def is_digit_def)

lemma of_char_div_16 [simp]: "(of_char c :: nat) div 16 < 16"
  using nat_of_char_less_256[of c] by linarith

lemma unescape_escape_char: "query_unescape (escape_char c @ r) = map_option (Cons c) (query_unescape r)"
  using unreserved_plain[of c] by (auto simp: escape_char_def)

lemma query_roundtrip [simp]: "query_unescape (query_escape s) = Some s"
  by (induction s) (simp_all add: query_escape_def unescape_escape_char)

lemma query_escape_no_delim: "x \<in> {CHR ''&'', CHR ''='', CHR '';''} \<Longrightarrow> x \<notin> set (query_escape s)"
proof (induction s)
  case Nil
  then show ?case by (simp add: query_escape_def)
next
  case (Cons c s)
  have "x \<notin> set (escape_char c)"
    using Cons.prems unreserved_plain[of c] upper_hex_no_delim[of "of_char c div 16"]
      upper_hex_no_delim[of "of_char c mod 16"] by (auto simp: escape_char_def)
  with Cons show ?case by (simp add: query_escape_def)
qed

section \<open>Forms\<close>

definition form_get :: "url_values \<Rightarrow> string \<Rightarrow> string" where
  "form_get m k = (case map_of m k of Some (v # vs) \<Rightarrow> v | _ \<Rightarrow> [])"

definition form_has :: "url_values \<Rightarrow> string \<Rightarrow> bool" where
  "form_has m k \<longleftrightarrow> map_of m k \<noteq> None"

fun form_add :: "url_values \<Rightarrow> string \<times> string \<Rightarrow> url_values" where
  "form_add [] (k, v) = [(k, [v])]"
| "form_add ((k', vs) # m) (k, v) =
    (if k' = k then (k', vs @ [v]) # m else (k', vs) # form_add m (k, v))"

definition form_sorted :: "url_values \<Rightarrow> url_values" where
  "form_sorted m = sort_key fst m"

definition form_pairs :: "url_values \<Rightarrow> (string \<times> string) list" where
  "form_pairs m = concat (map (\<lambda>(k, vs). map (Pair k) vs) m)"

definition encode_pair :: "string \<times> string \<Rightarrow> string" where
  "encode_pair p = query_escape (fst p) @ CHR ''='' # query_escape (snd p)"

definition form_encode :: "url_values \<Rightarrow> string" where
  "form_encode m = join_with ''&'' (map encode_pair (form_pairs (form_sorted m)))"

text \<open>\<^verbatim>\<open>strings.Cut\<close> at the first occurrence of a character.\<close>

definition cut :: "char \<Rightarrow> string \<Rightarrow> string \<times> string" where
  "cut d s = (takeWhile (\<lambda>c. c \<noteq> d) s, drop 1 (dropWhile (\<lambda>c. c \<noteq> d) s))"

text \<open>One piece between ampersands: \<^const>\<open>None\<close> for an error, after which the
  remaining pieces are still read and the first error is reported.\<close>

definition parse_piece :: "string \<Rightarrow> (string \<times> string) option" where
  "parse_piece piece =
    (if CHR '';'' \<in> set piece then None
     else let (k, v) = cut (CHR ''='') piece in
       case query_unescape k of
         None \<Rightarrow> None
       | Some k' \<Rightarrow> (case query_unescape v of None \<Rightarrow> None | Some v' \<Rightarrow> Some (k', v')))"

definition query_pieces :: "string \<Rightarrow> string list" where
  "query_pieces q = filter (\<lambda>p. p \<noteq> []) (split_on (CHR ''&'') q)"

definition parse_query :: "string \<Rightarrow> url_values option" where
  "parse_query q =
    (if list_all (\<lambda>p. parse_piece p \<noteq> None) (query_pieces q)
     then Some (foldl form_add [] (map (the \<circ> parse_piece) (query_pieces q)))
     else None)"

lemma cut_append: "d \<notin> set a \<Longrightarrow> cut d (a @ d # b) = (a, b)"
  by (induction a) (auto simp: cut_def)

lemma parse_encode_pair: "parse_piece (encode_pair p) = Some p"
proof -
  have "CHR '';'' \<notin> set (encode_pair p)"
    using query_escape_no_delim[of "CHR '';''"] by (simp add: encode_pair_def)
  moreover have "cut (CHR ''='') (encode_pair p) = (query_escape (fst p), query_escape (snd p))"
    unfolding encode_pair_def using query_escape_no_delim[of "CHR ''=''"] by (intro cut_append) simp
  ultimately show ?thesis by (simp add: parse_piece_def)
qed

lemma encode_pair_shape: "encode_pair p \<noteq> []" "CHR ''&'' \<notin> set (encode_pair p)"
  using query_escape_no_delim[of "CHR ''&''"] by (simp_all add: encode_pair_def)

lemma query_pieces_encode: "query_pieces (join_with ''&'' (map encode_pair ps)) = map encode_pair ps"
proof (cases "ps = []")
  case True
  then show ?thesis by (simp add: query_pieces_def)
next
  case False
  then have "split_on (CHR ''&'') (join_with ''&'' (map encode_pair ps)) = map encode_pair ps"
    using encode_pair_shape by (intro split_join) auto
  then show ?thesis
    using encode_pair_shape by (simp add: query_pieces_def filter_id_conv)
qed

lemma form_add_new: "k \<notin> fst ` set m \<Longrightarrow> form_add m (k, v) = m @ [(k, [v])]"
  by (induction m "(k, v)" rule: form_add.induct) auto

lemma form_add_last: "k \<notin> fst ` set m \<Longrightarrow> form_add (m @ [(k, vs)]) (k, v) = m @ [(k, vs @ [v])]"
  by (induction m) auto

lemma form_add_values:
  "k \<notin> fst ` set m \<Longrightarrow> foldl form_add (m @ [(k, us)]) (map (Pair k) vs) = m @ [(k, us @ vs)]"
proof (induction vs arbitrary: us)
  case (Cons v vs)
  show ?case
    using Cons.IH[of "us @ [v]"] Cons.prems by (simp add: form_add_last)
qed simp

definition nonempty_keys :: "url_values \<Rightarrow> url_values" where
  "nonempty_keys m = filter (\<lambda>kv. snd kv \<noteq> []) m"

lemma form_add_pairs:
  "distinct (map fst (m0 @ m)) \<Longrightarrow> foldl form_add m0 (form_pairs m) = m0 @ nonempty_keys m"
proof (induction m arbitrary: m0)
  case Nil
  then show ?case by (simp add: form_pairs_def nonempty_keys_def)
next
  case (Cons kv m)
  obtain k vs where kv: "kv = (k, vs)" by (cases kv)
  have new: "k \<notin> fst ` set m0" using Cons.prems kv by auto
  have pairs: "form_pairs (kv # m) = map (Pair k) vs @ form_pairs m"
    by (simp add: form_pairs_def kv)
  show ?case
  proof (cases vs)
    case Nil
    then show ?thesis
      using Cons.IH[of m0] Cons.prems kv pairs by (simp add: nonempty_keys_def)
  next
    case (Cons v us)
    then have "foldl form_add m0 (map (Pair k) vs) = m0 @ [(k, vs)]"
      using form_add_values[OF new, of "[v]" us] form_add_new[OF new, of v] by simp
    then show ?thesis
      using Cons.IH[of "m0 @ [(k, vs)]"] Cons.prems kv pairs Cons by (simp add: nonempty_keys_def)
  qed
qed

lemma parse_form_encode:
  assumes "distinct (map fst m)"
  shows "parse_query (form_encode m) = Some (nonempty_keys (form_sorted m))"
proof -
  let ?ps = "form_pairs (form_sorted m)"
  have pieces: "query_pieces (form_encode m) = map encode_pair ?ps"
    unfolding form_encode_def by (rule query_pieces_encode)
  have "distinct (map fst (form_sorted m))"
    using assms unfolding form_sorted_def
    by (metis distinct_map mset_eq_imp_distinct_iff mset_map mset_sort)
  then show ?thesis
    using form_add_pairs[of "[]" "form_sorted m"]
    by (simp add: parse_query_def pieces list_all_iff parse_encode_pair o_def)
qed

end
