(* ===== verification/Signer.thy ===== *)
theory Signer
  imports Url_Values
begin

text \<open>
  Request signing of \<^verbatim>\<open>webhook/signer.go\<close>: the canonical string (the URL followed by
  every key and value in order, values of one key sorted and without
  repetitions), its HMAC-SHA1 in Base64, and the transport that computes the
  signature from the body of the outgoing request.
\<close>

section \<open>Signing\<close>

definition form_values :: "url_values \<Rightarrow> string \<Rightarrow> string list" where
  "form_values m k = (case map_of m k of Some vs \<Rightarrow> vs | None \<Rightarrow> [])"

fun dedupe :: "string set \<Rightarrow> string list \<Rightarrow> string list" where
  "dedupe seen [] = []"
| "dedupe seen (v # vs) = (if v \<in> seen then dedupe seen vs else v # dedupe (insert v seen) vs)"

definition canonical :: "string \<Rightarrow> url_values \<Rightarrow> string" where
  "canonical urlStr params =
    foldl (\<lambda>s k. foldl (\<lambda>s v. s @ k @ v) s (sort (dedupe {} (form_values params k))))
      urlStr (sort (map fst params))"

definition Sign :: "string \<Rightarrow> string \<Rightarrow> url_values \<Rightarrow> string" where
  "Sign authToken urlStr params =
    b64_encode (hmac sha1 (bytes_of authToken) (bytes_of (canonical urlStr params)))"

datatype http_body = NoBody | Body string | BodyReadError

record http_request =
  req_method :: string
  req_url :: string
  req_body :: http_body
  req_raw_url :: "string option"
  req_headers :: "string \<rightharpoonup> string"

datatype sign_error = ErrReadBody | ErrParseQuery

definition RoundTrip :: "string \<Rightarrow> http_request \<Rightarrow> sign_error + http_request" where
  "RoundTrip authToken req =
    (let params =
       (if req_method req = ''POST'' then
          (case req_body req of
             NoBody \<Rightarrow> Inr []
           | BodyReadError \<Rightarrow> Inl ErrReadBody
           | Body b \<Rightarrow> (case parse_query b of None \<Rightarrow> Inl ErrParseQuery | Some m \<Rightarrow> Inr m))
        else Inr []);
       urlStr = (case req_raw_url req of Some raw \<Rightarrow> if raw \<noteq> [] then raw else req_url req | None \<Rightarrow> req_url req)
     in case params of
          Inl e \<Rightarrow> Inl e
        | Inr m \<Rightarrow> Inr (req\<lparr> req_headers := (req_headers req)(''X-Twilio-Signature'' \<mapsto> Sign authToken urlStr m) \<rparr>))"

section \<open>The canonical string\<close>

lemma dedupe_set: "set (dedupe seen vs) = set vs - seen"
  by (induction seen vs rule: dedupe.induct) auto

lemma dedupe_distinct: "distinct (dedupe seen vs)"
  by (induction seen vs rule: dedupe.induct) (auto simp: dedupe_set)

lemma sort_dedupe: "sort (dedupe {} vs) = sorted_list_of_set (set vs)"
  by (metis Diff_empty dedupe_distinct dedupe_set distinct_remdups_id sorted_list_of_set_sort_remdups)

lemma sort_distinct: "distinct ks \<Longrightarrow> sort ks = sorted_list_of_set (set ks)"
  by (metis distinct_remdups_id sorted_list_of_set_sort_remdups)

lemma foldl_append_concat: "foldl (\<lambda>s x. s @ f x) s xs = s @ concat (map f xs)"
  by (induction xs arbitrary: s) simp_all

definition key_part :: "url_values \<Rightarrow> string \<Rightarrow> string" where
  "key_part m k = concat (map (\<lambda>v. k @ v) (sorted_list_of_set (set (form_values m k))))"

lemma canonical_eq:
  assumes "distinct (map fst m)"
  shows "canonical u m = u @ concat (map (key_part m) (sorted_list_of_set {k. form_values m k \<noteq> []}))"
proof -
  have "canonical u m = u @ concat (map (key_part m) (sort (map fst m)))"
    by (simp add: canonical_def sort_dedupe foldl_append_concat key_part_def[abs_def])
  also have "concat (map (key_part m) (sort (map fst m))) =
      concat (map (key_part m) (filter (\<lambda>k. form_values m k \<noteq> []) (sort (map fst m))))"
  proof -
    have "concat (map (key_part m) ks) = concat (map (key_part m) (filter (\<lambda>k. form_values m k \<noteq> []) ks))" for ks
      by (induction ks) (auto simp: key_part_def)
    then show ?thesis .
  qed
  also have "filter (\<lambda>k. form_values m k \<noteq> []) (sort (map fst m)) =
      sorted_list_of_set {k. form_values m k \<noteq> []}"
  proof -
    have "sorted (filter (\<lambda>k. form_values m k \<noteq> []) (sort (map fst m)))"
      "distinct (filter (\<lambda>k. form_values m k \<noteq> []) (sort (map fst m)))"
      using assms by (simp_all add: sorted_wrt_filter)
    moreover have "set (filter (\<lambda>k. form_values m k \<noteq> []) (sort (map fst m))) = {k. form_values m k \<noteq> []}"
      by (auto simp: form_values_def split: option.splits dest: map_of_SomeD intro: rev_image_eqI)
    ultimately show ?thesis
      by (metis sorted_list_of_set.idem_if_sorted_distinct)
  qed
  finally show ?thesis .
qed

lemma canonical_cong:
  assumes "distinct (map fst m)" "distinct (map fst m')"
    and "\<And>k. set (form_values m k) = set (form_values m' k)"
  shows "canonical u m = canonical u m'"
proof -
  have "form_values m k = [] \<longleftrightarrow> form_values m' k = []" for k
    using assms(3)[of k] by (metis set_empty)
  then have "{k. form_values m k \<noteq> []} = {k. form_values m' k \<noteq> []}" by simp
  moreover have "key_part m = key_part m'"
    by (simp add: key_part_def fun_eq_iff assms(3))
  ultimately show ?thesis
    by (simp only: canonical_eq[OF assms(1)] canonical_eq[OF assms(2)])
qed

lemma form_values_nonempty:
  "distinct (map fst m) \<Longrightarrow> form_values (nonempty_keys m) k = form_values m k"
proof (induction m)
  case Nil
  then show ?case by (simp add: nonempty_keys_def)
next
  case (Cons kv m)
  have "map_of (nonempty_keys m) (fst kv) = None"
    using Cons.prems by (auto simp: nonempty_keys_def map_of_eq_None_iff)
  with Cons show ?case
    by (cases kv) (auto simp: nonempty_keys_def form_values_def)
qed

lemma form_values_sorted:
  assumes "distinct (map fst m)"
  shows "form_values (nonempty_keys (form_sorted m)) k = form_values m k"
    and "distinct (map fst (nonempty_keys (form_sorted m)))"
proof -
  have d: "distinct (map fst (form_sorted m))"
    using assms unfolding form_sorted_def by (metis mset_eq_imp_distinct_iff mset_map mset_sort)
  then show d': "distinct (map fst (nonempty_keys (form_sorted m)))"
    unfolding nonempty_keys_def by (rule distinct_map_filter)
  have "map_of (form_sorted m) = map_of m"
    using assms d by (intro map_of_inject_set[THEN iffD2]) (simp_all add: form_sorted_def)
  with form_values_nonempty[OF d] show "form_values (nonempty_keys (form_sorted m)) k = form_values m k"
    by (simp add: form_values_def)
qed

lemma RoundTrip_signs_form:
  assumes "distinct (map fst m)"
  shows "RoundTrip tok \<lparr> req_method = ''POST'', req_url = u', req_body = Body (form_encode m),
      req_raw_url = Some u, req_headers = h \<rparr> =
    Inr \<lparr> req_method = ''POST'', req_url = u', req_body = Body (form_encode m),
      req_raw_url = Some u, req_headers = h(''X-Twilio-Signature'' \<mapsto> Sign tok (if u \<noteq> [] then u else u') m) \<rparr>"
proof -
  have "canonical v (nonempty_keys (form_sorted m)) = canonical v m" for v
    by (rule canonical_cong) (simp_all add: form_values_sorted[OF assms] assms)
  then show ?thesis
    by (simp add: RoundTrip_def parse_form_encode[OF assms] Sign_def)
qed

text \<open>The signature put on the wire is the signature of the form the caller
  built: the transport decodes the encoded body again, and what it signs does
  not depend on the order in which the map is iterated, on the order of the
  values of a key, on repeated values, or on keys without values.  So a receiver
  that holds the same form and the verbatim URL computes the same header.\<close>

theorem RoundTrip_signature_canonical:
  assumes "distinct (map fst m)" "distinct (map fst m')"
    and "\<And>k. set (form_values m k) = set (form_values m' k)" and "u \<noteq> []"
  shows "map_sum id (\<lambda>r. req_headers r ''X-Twilio-Signature'')
      (RoundTrip tok \<lparr> req_method = ''POST'', req_url = u', req_body = Body (form_encode m),
        req_raw_url = Some u, req_headers = h \<rparr>) = Inr (Some (Sign tok u m'))"
  using canonical_cong[OF assms(1-3)] by (simp add: RoundTrip_signs_form[OF assms(1)] assms(4) Sign_def)

theorem RoundTrip_signature_canonical_witness:
  "form_encode [(''To'', [''+49 30'']), (''CallSid'', [''CA1''])] = ''CallSid=CA1&To=%2B49+30'' \<and>
   map_sum id (\<lambda>r. req_headers r ''X-Twilio-Signature'')
      (RoundTrip ''tok'' \<lparr> req_method = ''POST'', req_url = ''https://x/'',
        req_body = Body (form_encode [(''To'', [''+49 30'']), (''CallSid'', [''CA1''])]),
        req_raw_url = Some ''https://x/'', req_headers = Map.empty \<rparr>) =
     Inr (Some (Sign ''tok'' ''https://x/'' [(''CallSid'', [''CA1'', ''CA1'']), (''To'', [''+49 30''])]))"
  using RoundTrip_signature_canonical[of "[(''To'', [''+49 30'']), (''CallSid'', [''CA1''])]"
      "[(''CallSid'', [''CA1'', ''CA1'']), (''To'', [''+49 30''])]" "''https://x/''" "''tok''" "''https://x/''" Map.empty]
  apply (simp add: form_values_def)
  apply (simp add: form_encode_def form_sorted_def form_pairs_def encode_pair_def query_escape_def
      escape_char_def unreserved_def is_alpha_def is_digit_def upper_hex_def)
  done

text \<open>The canonical string has no separators, so different forms can share a
  signature; the order of keys and values is all the construction fixes.\<close>

lemma canonical_not_injective:
  "canonical u [(''a'', [''bc''])] = canonical u [(''ab'', [''c''])]"
  by (simp add: canonical_def form_values_def)

end
