(* ===== verification/Identity.thy ===== *)
theory Identity
  imports Bytes_Codec
begin

text \<open>
  The identifiers of \<^verbatim>\<open>internal/identity\<close>: the AccountSid derived from the SIP
  user, the CallSid minted from sixteen random bytes, and the two regular
  expressions that validate them.  The bytes of \<^verbatim>\<open>crypto/rand\<close> are an argument.
\<close>

definition DeriveAccountSid :: "string \<Rightarrow> string" where
  "DeriveAccountSid sipUser = ''AC'' @ hex_encode (take 16 (sha256 (bytes_of sipUser)))"

definition NewCallSid :: "byte list \<Rightarrow> string" where
  "NewCallSid b = ''CA'' @ hex_encode b"

definition AccountSidRE :: "string \<Rightarrow> bool" where
  "AccountSidRE s \<longleftrightarrow> has_prefix s ''AC'' \<and> length s = 34 \<and> list_all is_lower_hex (drop 2 s)"

definition CallSidRE :: "string \<Rightarrow> bool" where
  "CallSidRE s \<longleftrightarrow> has_prefix s ''CA'' \<and> length s = 34 \<and> list_all is_lower_hex (drop 2 s)"

text \<open>C27. Every AccountSid the program derives and every CallSid it mints
  matches the regular expression of its kind, no string matches both, and
  distinct random bytes give distinct CallSids.\<close>

theorem sids_well_formed:
  "AccountSidRE (DeriveAccountSid user) \<and>
   (length b = 16 \<longrightarrow> CallSidRE (NewCallSid b)) \<and>
   \<not> (AccountSidRE s \<and> CallSidRE s) \<and>
   (NewCallSid b = NewCallSid b' \<longrightarrow> b = b')"
  by (auto simp: AccountSidRE_def CallSidRE_def DeriveAccountSid_def NewCallSid_def has_prefix_def
      sha256_length hex_encode_lower intro: hex_encode_inj)

theorem sids_well_formed_witness:
  "CallSidRE (NewCallSid (replicate 16 0xAB)) \<and> NewCallSid [1] \<noteq> NewCallSid [2]"
  using sids_well_formed[of undefined "replicate 16 0xAB"] sids_well_formed[of undefined "[1]" undefined "[2]"]
  by auto

end
