(* ===== verification/Subscription.thy ===== *)
theory Subscription
  imports Prelude
begin

text \<open>
  Subscriptions to status events, \<^verbatim>\<open>webhook/subscription.go\<close>: which events a
  customer's \<^verbatim>\<open>statusCallbackEvent\<close> set selects, and the label under which a
  terminal event is reported.  A Go set \<^verbatim>\<open>map[string]struct{}\<close> is a set.
\<close>

definition terminalEvents :: "string set" where
  "terminalEvents = {''completed'', ''busy'', ''failed'', ''no-answer'', ''canceled''}"

definition IsTerminalEvent :: "string \<Rightarrow> bool" where
  "IsTerminalEvent e \<longleftrightarrow> e \<in> terminalEvents"

definition SubscriptionMatches :: "string set \<Rightarrow> string \<Rightarrow> bool" where
  "SubscriptionMatches events eventName =
    (if events = {} then True
     else if eventName \<in> events then True
     else if IsTerminalEvent eventName then (if ''completed'' \<in> events then True else False)
     else False)"

definition ResolveEventName :: "string set \<Rightarrow> string \<Rightarrow> string \<times> bool" where
  "ResolveEventName events eventName =
    (if events = {} then (eventName, True)
     else if eventName \<in> events then (eventName, True)
     else if IsTerminalEvent eventName then
       (if ''completed'' \<in> events then (''completed'', True) else ('''', False))
     else ('''', False))"

text \<open>The two entry points agree, and a relabelled event keeps its class.\<close>

lemma resolve_matches: "snd (ResolveEventName events e) = SubscriptionMatches events e"
  by (simp add: ResolveEventName_def SubscriptionMatches_def)

lemma resolve_label:
  "SubscriptionMatches events e \<Longrightarrow>
    IsTerminalEvent (fst (ResolveEventName events e)) = IsTerminalEvent e \<and>
    (events \<noteq> {} \<longrightarrow> fst (ResolveEventName events e) \<in> events)"
  by (auto simp: ResolveEventName_def SubscriptionMatches_def IsTerminalEvent_def terminalEvents_def
      split: if_splits)

text \<open>The contract the emitters rely on: an event goes out exactly if the
  subscription selects it, under a label the customer subscribed to and of the
  same class.\<close>

locale event_filter =
  fixes matches :: "string set \<Rightarrow> string \<Rightarrow> bool"
    and resolve :: "string set \<Rightarrow> string \<Rightarrow> string \<times> bool"
  assumes resolve_iff: "snd (resolve events e) = matches events e"
    and empty_all: "matches {} e"
    and empty_label: "fst (resolve {} e) = e"
    and label_subscribed: "matches events e \<Longrightarrow> events \<noteq> {} \<Longrightarrow> fst (resolve events e) \<in> events"
    and label_class: "matches events e \<Longrightarrow> IsTerminalEvent (fst (resolve events e)) = IsTerminalEvent e"
    and lifecycle_exact: "\<not> IsTerminalEvent e \<Longrightarrow> events \<noteq> {} \<Longrightarrow> matches events e \<longleftrightarrow> e \<in> events"
    and terminal_completed: "IsTerminalEvent e \<Longrightarrow> ''completed'' \<in> events \<Longrightarrow> matches events e"
begin

lemma lifecycle_label: "\<not> IsTerminalEvent e \<Longrightarrow> matches events e \<Longrightarrow> events \<noteq> {} \<Longrightarrow> e \<in> events"
  using lifecycle_exact by blast

lemma subset_mono:
  "events \<noteq> {} \<Longrightarrow> events \<subseteq> events' \<Longrightarrow> \<not> IsTerminalEvent e \<Longrightarrow> matches events e \<Longrightarrow> matches events' e"
  using lifecycle_exact by blast

end

interpretation sub: event_filter SubscriptionMatches ResolveEventName
proof
  show "snd (ResolveEventName events e) = SubscriptionMatches events e" for events e
    by (rule resolve_matches)
qed (simp_all add: resolve_label, simp_all add: SubscriptionMatches_def ResolveEventName_def)

end
