(* ===== verification/Ssrf.thy ===== *)
theory Ssrf
  imports Bytes_Codec
begin

text \<open>
  The address guard of \<^verbatim>\<open>webhook/ssrf.go\<close>.  An address is the byte list of a Go
  \<^verbatim>\<open>net.IP\<close> (4 or 16 bytes, or none); the classifiers of \<^verbatim>\<open>net.IP\<close> are written out.
  The resolver, the URL parser and the parser of address literals are
  arguments; every statement holds for all of them, so also for a resolver
  under the control of an attacker.
\<close>

section \<open>Addresses\<close>

type_synonym ip = "byte list"

definition v4_in_v6_prefix :: ip where
  "v4_in_v6_prefix = replicate 10 0 @ [0xFF, 0xFF]"

definition To4 :: "ip \<Rightarrow> ip option" where
  "To4 ip =
    (if length ip = 4 then Some ip
     else if length ip = 16 \<and> take 12 ip = v4_in_v6_prefix then Some (drop 12 ip)
     else None)"

definition ip_equal :: "ip \<Rightarrow> ip \<Rightarrow> bool" where
  "ip_equal x y =
    (if length x = length y then x = y
     else if length x = 4 \<and> length y = 16 then take 12 y = v4_in_v6_prefix \<and> x = drop 12 y
     else if length x = 16 \<and> length y = 4 then take 12 x = v4_in_v6_prefix \<and> drop 12 x = y
     else False)"

definition IsLoopback :: "ip \<Rightarrow> bool" where
  "IsLoopback ip = (case To4 ip of Some v \<Rightarrow> v ! 0 = 127 | None \<Rightarrow> ip_equal ip (replicate 15 0 @ [1]))"

definition IsPrivate :: "ip \<Rightarrow> bool" where
  "IsPrivate ip =
    (case To4 ip of
       Some v \<Rightarrow> v ! 0 = 10 \<or> (v ! 0 = 172 \<and> v ! 1 AND 0xF0 = 16) \<or> (v ! 0 = 192 \<and> v ! 1 = 168)
     | None \<Rightarrow> length ip = 16 \<and> ip ! 0 AND 0xFE = 0xFC)"

definition IsLinkLocalUnicast :: "ip \<Rightarrow> bool" where
  "IsLinkLocalUnicast ip =
    (case To4 ip of
       Some v \<Rightarrow> v ! 0 = 169 \<and> v ! 1 = 254
     | None \<Rightarrow> length ip = 16 \<and> ip ! 0 = 0xFE \<and> ip ! 1 AND 0xC0 = 0x80)"

definition IsLinkLocalMulticast :: "ip \<Rightarrow> bool" where
  "IsLinkLocalMulticast ip =
    (case To4 ip of
       Some v \<Rightarrow> v ! 0 = 224 \<and> v ! 1 = 0 \<and> v ! 2 = 0
     | None \<Rightarrow> length ip = 16 \<and> ip ! 0 = 0xFF \<and> ip ! 1 AND 0x0F = 0x02)"

definition IsUnspecified :: "ip \<Rightarrow> bool" where
  "IsUnspecified ip \<longleftrightarrow> ip_equal ip (v4_in_v6_prefix @ [0, 0, 0, 0]) \<or> ip_equal ip (replicate 16 0)"

definition IsMulticast :: "ip \<Rightarrow> bool" where
  "IsMulticast ip =
    (case To4 ip of Some v \<Rightarrow> v ! 0 AND 0xF0 = 0xE0 | None \<Rightarrow> length ip = 16 \<and> ip ! 0 = 0xFF)"

text \<open>\<^verbatim>\<open>IPNet.Contains\<close> for an IPv4 network given by its address and mask bytes.\<close>

definition net_contains :: "ip \<times> ip \<Rightarrow> ip \<Rightarrow> bool" where
  "net_contains n ip =
    (let x = (case To4 ip of Some v \<Rightarrow> v | None \<Rightarrow> ip)
     in length x = length (fst n) \<and>
        list_all (\<lambda>i. fst n ! i AND snd n ! i = x ! i AND snd n ! i) [0..<length x])"

definition blockedExtraCIDRs :: "(ip \<times> ip) list" where
  "blockedExtraCIDRs =
    [([100, 64, 0, 0], [255, 192, 0, 0]), ([0, 0, 0, 0], [255, 0, 0, 0]),
     ([255, 255, 255, 255], [255, 255, 255, 255])]"

definition inBlockedExtraCIDRs :: "ip \<Rightarrow> bool" where
  "inBlockedExtraCIDRs ip = list_ex (\<lambda>n. net_contains n ip) blockedExtraCIDRs"

text \<open>A nil \<^verbatim>\<open>net.IP\<close> is the empty byte list.\<close>

definition isBlockedIP :: "ip \<Rightarrow> bool" where
  "isBlockedIP ip0 =
    (if ip0 = [] then True
     else let ip = (case To4 ip0 of Some v \<Rightarrow> v | None \<Rightarrow> ip0)
       in if IsLoopback ip \<or> IsPrivate ip \<or> IsLinkLocalUnicast ip \<or> IsLinkLocalMulticast ip
             \<or> IsUnspecified ip \<or> IsMulticast ip then True
          else inBlockedExtraCIDRs ip)"

section \<open>The dial guard\<close>

datatype ssrf_error = ErrSplitHostPort | ErrDNS | ErrSSRFRejected | ErrEmptyURL | ErrParseURL | ErrNonHTTPS

text \<open>\<^verbatim>\<open>net.SplitHostPort\<close>.\<close>

fun last_index :: "char \<Rightarrow> string \<Rightarrow> nat option" where
  "last_index d [] = None"
| "last_index d (c # cs) =
    (case last_index d cs of Some i \<Rightarrow> Some (Suc i) | None \<Rightarrow> if c = d then Some 0 else None)"

definition split_host_port :: "string \<Rightarrow> (string \<times> string) option" where
  "split_host_port s =
    (case last_index (CHR '':'') s of
       None \<Rightarrow> None
     | Some i \<Rightarrow>
        (if s ! 0 = CHR ''['' then
           (case index_of s '']'' of
              None \<Rightarrow> None
            | Some e \<Rightarrow>
                if e + 1 = length s \<or> e + 1 \<noteq> i then None
                else if CHR ''['' \<in> set (drop 1 s) \<or> CHR '']'' \<in> set (drop (e + 1) s) then None
                else Some (take (e - 1) (drop 1 s), drop (i + 1) s))
         else if CHR '':'' \<in> set (take i s) then None
         else if CHR ''['' \<in> set s \<or> CHR '']'' \<in> set s then None
         else Some (take i s, drop (i + 1) s)))"

text \<open>The guard resolves the host once and returns the address and port handed
  to the dialer.  The resolver may answer differently on every lookup: it is
  given the number of the lookup, and the guard makes exactly one.\<close>

definition DialContext :: "(nat \<Rightarrow> string \<Rightarrow> ip list option) \<Rightarrow> nat \<Rightarrow> string \<Rightarrow> ssrf_error + (ip \<times> string)" where
  "DialContext lookup n addr =
    (case split_host_port addr of
       None \<Rightarrow> Inl ErrSplitHostPort
     | Some (host, port) \<Rightarrow>
        (case lookup n host of
           None \<Rightarrow> Inl ErrDNS
         | Some ips \<Rightarrow>
            (if length ips = 0 then Inl ErrSSRFRejected
             else if list_ex isBlockedIP ips then Inl ErrSSRFRejected
             else Inr (ips ! 0, port))))"

definition ValidateCallbackURL ::
    "(string \<Rightarrow> (string \<times> string) option) \<Rightarrow> (string \<Rightarrow> ip option) \<Rightarrow> string \<Rightarrow> ssrf_error option" where
  "ValidateCallbackURL url_parse parse_ip u =
    (if u = '''' then Some ErrEmptyURL
     else case url_parse u of
       None \<Rightarrow> Some ErrParseURL
     | Some (scheme, host) \<Rightarrow>
        (if to_lower scheme \<noteq> ''https'' then Some ErrNonHTTPS
         else if host = '''' then Some ErrSSRFRejected
         else if to_lower host = ''localhost'' then Some ErrSSRFRejected
         else case parse_ip host of
           Some ip \<Rightarrow> if isBlockedIP ip then Some ErrSSRFRejected else None
         | None \<Rightarrow> None))"

section \<open>What is blocked\<close>

definition blocked_v4 :: "byte \<Rightarrow> byte \<Rightarrow> byte \<Rightarrow> byte \<Rightarrow> bool" where
  "blocked_v4 a b c d \<longleftrightarrow>
    a = 127 \<or> a = 10 \<or> (a = 172 \<and> b AND 0xF0 = 16) \<or> (a = 192 \<and> b = 168) \<or> (a = 169 \<and> b = 254) \<or>
    a AND 0xF0 = 0xE0 \<or> (a = 100 \<and> b AND 0xC0 = 64) \<or> a = 0 \<or>
    (a = 255 \<and> b = 255 \<and> c = 255 \<and> d = 255)"

definition blocked_v6 :: "ip \<Rightarrow> bool" where
  "blocked_v6 ip \<longleftrightarrow>
    ip = replicate 15 0 @ [1] \<or> ip = replicate 16 0 \<or> ip ! 0 AND 0xFE = 0xFC \<or>
    (ip ! 0 = 0xFE \<and> ip ! 1 AND 0xC0 = 0x80) \<or> ip ! 0 = 0xFF"

lemma and_full_byte [simp]: "(b :: byte) AND 255 = b"
proof -
  have "(255 :: byte) = - 1" by simp
  then show ?thesis by (metis and.right_neutral)
qed

lemma isBlockedIP_v4: "isBlockedIP [a, b, c, d] = blocked_v4 a b c d"
proof -
  have nets: "inBlockedExtraCIDRs [a, b, c, d] \<longleftrightarrow>
      (a = 100 \<and> b AND 0xC0 = 64) \<or> a = 0 \<or> (a = 255 \<and> b = 255 \<and> c = 255 \<and> d = 255)"
    by (auto simp: inBlockedExtraCIDRs_def blockedExtraCIDRs_def net_contains_def To4_def
        upt_0_numeral upt_rec_numeral numeral_3_eq_3)
  have uns: "IsUnspecified [a, b, c, d] \<longleftrightarrow> a = 0 \<and> b = 0 \<and> c = 0 \<and> d = 0"
    by (auto simp: IsUnspecified_def ip_equal_def v4_in_v6_prefix_def numeral_eq_Suc)
  have llm: "a = 224 \<Longrightarrow> a AND 0xF0 = 0xE0" by simp
  show ?thesis
    using llm by (auto simp: isBlockedIP_def To4_def IsLoopback_def IsPrivate_def IsLinkLocalUnicast_def
        IsLinkLocalMulticast_def IsMulticast_def nets uns blocked_v4_def Let_def)
qed

lemma isBlockedIP_mapped: "isBlockedIP (v4_in_v6_prefix @ [a, b, c, d]) = isBlockedIP [a, b, c, d]"
  by (simp add: isBlockedIP_def To4_def v4_in_v6_prefix_def)

lemma isBlockedIP_v6:
  assumes "length ip = 16" "take 12 ip \<noteq> v4_in_v6_prefix"
  shows "isBlockedIP ip = blocked_v6 ip"
proof -
  have t: "To4 ip = None" using assms by (simp add: To4_def)
  have "ip \<noteq> v4_in_v6_prefix @ [0, 0, 0, 0]"
    using assms by (auto simp: v4_in_v6_prefix_def)
  then have uns: "IsUnspecified ip \<longleftrightarrow> ip = replicate 16 0"
    using assms by (auto simp: IsUnspecified_def ip_equal_def v4_in_v6_prefix_def)
  have nets: "\<not> inBlockedExtraCIDRs ip"
    using assms t by (simp add: inBlockedExtraCIDRs_def blockedExtraCIDRs_def net_contains_def)
  have "ip \<noteq> []" using assms by auto
  then show ?thesis
    using assms by (auto simp: isBlockedIP_def t IsLoopback_def IsPrivate_def IsLinkLocalUnicast_def
        IsLinkLocalMulticast_def IsMulticast_def nets uns blocked_v6_def ip_equal_def)
qed

text \<open>No blocked address is ever dialled: whatever the resolver answers, now
  or on a later lookup, an address handed to the dialer is the first answer of
  the single lookup that was validated, and none of the answers is blocked; in
  particular it is no loopback, private, link-local, CGNAT, multicast,
  unspecified or broadcast IPv4 address, also not in IPv4-mapped IPv6 form.\<close>

theorem DialContext_never_blocked:
  assumes "DialContext lookup n addr = Inr (ip, port)"
  shows "\<exists>host ips. split_host_port addr = Some (host, port) \<and> lookup n host = Some ips \<and>
      ip = hd ips \<and> ips \<noteq> [] \<and> (\<forall>x \<in> set ips. \<not> isBlockedIP x) \<and>
      (\<forall>a b c d. ip = [a, b, c, d] \<or> ip = v4_in_v6_prefix @ [a, b, c, d] \<longrightarrow> \<not> blocked_v4 a b c d) \<and>
      (length ip = 16 \<and> take 12 ip \<noteq> v4_in_v6_prefix \<longrightarrow> \<not> blocked_v6 ip)"
proof -
  obtain host ips where sp: "split_host_port addr = Some (host, port)" "lookup n host = Some ips"
    and ne: "ips \<noteq> []" and ok: "\<forall>x \<in> set ips. \<not> isBlockedIP x" and ip: "ip = hd ips"
    using assms by (auto simp: DialContext_def list_ex_iff hd_conv_nth split: option.splits if_splits)
  have nb: "\<not> isBlockedIP ip" using ne ok ip by simp
  have "\<not> blocked_v4 a b c d" if "ip = [a, b, c, d] \<or> ip = v4_in_v6_prefix @ [a, b, c, d]" for a b c d
    using that nb by (auto simp: isBlockedIP_mapped isBlockedIP_v4)
  moreover have "length ip = 16 \<and> take 12 ip \<noteq> v4_in_v6_prefix \<longrightarrow> \<not> blocked_v6 ip"
    using nb isBlockedIP_v6[of ip] by blast
  ultimately show ?thesis
    using sp ne ok ip by (intro exI[of _ host] exI[of _ ips]) simp
qed

theorem DialContext_never_blocked_witness:
  "DialContext (\<lambda>n h. Some [[93, 184, 216, 34], [1, 1, 1, 1]]) 0 ''example.com:443'' = Inr ([93, 184, 216, 34], ''443'') \<and>
   DialContext (\<lambda>n h. Some [[93, 184, 216, 34], [127, 0, 0, 1]]) 0 ''example.com:443'' = Inl ErrSSRFRejected \<and>
   \<not> blocked_v4 93 184 216 34"
proof -
  have sp: "split_host_port ''example.com:443'' = Some (''example.com'', ''443'')"
    by (simp add: split_host_port_def)
  have ok: "DialContext (\<lambda>n h. Some [[93, 184, 216, 34], [1, 1, 1, 1]]) 0 ''example.com:443'' = Inr ([93, 184, 216, 34], ''443'')"
    by (simp add: DialContext_def sp isBlockedIP_v4 blocked_v4_def)
  have no: "DialContext (\<lambda>n h. Some [[93, 184, 216, 34], [127, 0, 0, 1]]) 0 ''example.com:443'' = Inl ErrSSRFRejected"
    by (simp add: DialContext_def sp isBlockedIP_v4 blocked_v4_def)
  show ?thesis
    using DialContext_never_blocked[OF ok] ok no by blast
qed

text \<open>The pre-flight check on a URL accepts only https URLs with a host, and no
  literal address it accepts is one the dial guard would refuse.\<close>

lemma ValidateCallbackURL_ok:
  "ValidateCallbackURL url_parse parse_ip u = None \<Longrightarrow>
    \<exists>scheme host. url_parse u = Some (scheme, host) \<and> to_lower scheme = ''https'' \<and> host \<noteq> '''' \<and>
      to_lower host \<noteq> ''localhost'' \<and> (\<forall>ip. parse_ip host = Some ip \<longrightarrow> \<not> isBlockedIP ip)"
  by (auto simp: ValidateCallbackURL_def split: if_splits option.splits)

end
