(* ===== verification/Observability.thy ===== *)
theory Observability
  imports Prelude
begin

text \<open>
  The pure parts of \<^verbatim>\<open>internal/observability\<close>: the bucketers that map errors and
  status codes to the bounded label sets of the metrics, and the log writer that
  masks secrets.  An error is given by its message, as the bucketers read it.
\<close>

section \<open>Bucketers\<close>

definition BucketStatus :: "int \<Rightarrow> string" where
  "BucketStatus code =
    (if code < 100 then ''2xx'' else if code < 400 then ''2xx'' else if code < 500 then ''4xx'' else ''5xx'')"

definition containsCI :: "string \<Rightarrow> string \<Rightarrow> bool" where
  "containsCI s sub \<longleftrightarrow> contains_str (to_lower s) (to_lower sub)"

definition any_ci :: "string \<Rightarrow> string list \<Rightarrow> bool" where
  "any_ci msg subs \<longleftrightarrow> list_ex (containsCI msg) subs"

definition BucketForwardReason :: "string option \<Rightarrow> string" where
  "BucketForwardReason err =
    (case err of
       None \<Rightarrow> ''''
     | Some msg \<Rightarrow>
        (if any_ci msg [''ErrTollFraudBlocked'', ''toll-fraud'', ''toll_fraud''] then ''toll_fraud''
         else if any_ci msg [''ErrSessionRateLimit'', ''ErrGlobalRateLimit'', ''rate limit'', ''rate-limit'', ''rate_limit'']
           then ''rate_limit''
         else if any_ci msg [''13214'', ''caller-id'', ''caller_id'', ''callerid''] then ''caller_id_rejected''
         else if any_ci msg [''486'', ''Busy''] then ''busy''
         else if any_ci msg [''603'', ''Decline''] then ''rejected''
         else if any_ci msg [''408'', ''480'', ''no-answer'', ''no answer'', ''no_answer''] then ''no_answer''
         else if any_ci msg [''codec''] then ''codec_mismatch''
         else if any_ci msg [''401'', ''407'', ''auth''] then ''auth_failed''
         else if any_ci msg [''5xx'', ''500'', ''502'', ''503'', ''504''] then ''trunk_5xx''
         else if any_ci msg [''timeout'', ''deadline''] then ''timeout''
         else if any_ci msg [''unreachable'', ''no route'', ''DNS''] then ''unreachable''
         else ''''))"

definition BucketOutcome :: "string \<Rightarrow> string" where
  "BucketOutcome status =
    (if status = ''answered'' then ''answered''
     else if status = ''no-answer'' then ''no_answer''
     else if status = ''busy'' then ''busy''
     else ''error'')"

definition sentinel_reason :: "string \<Rightarrow> string option" where
  "sentinel_reason msg =
    (if any_ci msg [''queue full'', ''queue_full''] then Some ''queue_full''
     else if any_ci msg [''retries exhausted'', ''exhausted_retries''] then Some ''exhausted_retries''
     else if any_ci msg [''ssrf'', ''blocked address space'', ''blocked ip''] then Some ''ssrf_rejected''
     else if any_ci msg [''timeout'', ''deadline exceeded''] then Some ''timeout''
     else if any_ci msg [''connection refused'', ''no such host'', ''dns lookup'', ''dial tcp'', ''tls handshake'']
       then Some ''connect_error''
     else None)"

definition BucketStatusCallbackReason :: "string option \<Rightarrow> int \<Rightarrow> string" where
  "BucketStatusCallbackReason err statusCode =
    (if err = None \<and> statusCode \<ge> 200 \<and> statusCode < 300 then ''''
     else case Option.bind err sentinel_reason of
       Some r \<Rightarrow> r
     | None \<Rightarrow>
        (if statusCode \<ge> 500 then ''5xx''
         else if statusCode \<ge> 400 then ''4xx''
         else if err \<noteq> None then ''connect_error''
         else ''''))"

section \<open>Masking of secrets\<close>

text \<open>\<^verbatim>\<open>bytes.ReplaceAll\<close> with a non-empty pattern: left to right, without overlap.\<close>

function replace_all :: "'a list \<Rightarrow> 'a list \<Rightarrow> 'a list \<Rightarrow> 'a list" where
  "replace_all pat new s =
    (if s = [] then []
     else if pat \<noteq> [] \<and> has_prefix s pat then new @ replace_all pat new (drop (length pat) s)
     else hd s # replace_all pat new (tl s))"
  by pat_completeness auto
termination
  by (relation "measure (\<lambda>(pat, new, s). length s)") auto

declare replace_all.simps [simp del]

definition maskedReplacement :: string where
  "maskedReplacement = ''***''"

definition mask_secrets :: "string list \<Rightarrow> string list" where
  "mask_secrets secrets = rev (sort_key length (rev (filter (\<lambda>s. s \<noteq> '''') secrets)))"

datatype write_error = ErrShortWrite | ErrUnderlying string

text \<open>The underlying writer returns how many bytes it took and possibly an
  error.  The result is what reached it, the count and the error returned.\<close>

definition mask_write ::
    "(string \<Rightarrow> nat \<times> string option) \<Rightarrow> string list \<Rightarrow> string \<Rightarrow> string \<times> nat \<times> write_error option" where
  "mask_write underlying secrets p =
    (let masked = foldl (\<lambda>m s. replace_all s maskedReplacement m) p secrets;
         (n, err) = underlying masked
     in case err of
          Some e \<Rightarrow> (masked, n, Some (ErrUnderlying e))
        | None \<Rightarrow> if n < length masked then (masked, n, Some ErrShortWrite) else (masked, length p, None))"

definition NewSecretMaskWriter ::
    "(string \<Rightarrow> nat \<times> string option) \<Rightarrow> string list \<Rightarrow> string \<Rightarrow> string \<times> nat \<times> write_error option" where
  "NewSecretMaskWriter underlying secrets p =
    (if filter (\<lambda>s. s \<noteq> '''') secrets = [] then
       (p, fst (underlying p), map_option ErrUnderlying (snd (underlying p)))
     else mask_write underlying (mask_secrets secrets) p)"

section \<open>Occurrences\<close>

definition occurs :: "'a list \<Rightarrow> 'a list \<Rightarrow> bool" where
  "occurs p s \<longleftrightarrow> (\<exists>u v. s = u @ p @ v)"

lemma occurs_Cons: "occurs p (c # s) \<longleftrightarrow> has_prefix (c # s) p \<or> occurs p s"
proof
  assume "occurs p (c # s)"
  then obtain u v where uv: "c # s = u @ p @ v" by (auto simp: occurs_def)
  then show "has_prefix (c # s) p \<or> occurs p s"
    by (cases u) (auto simp: has_prefix_iff occurs_def)
next
  assume "has_prefix (c # s) p \<or> occurs p s"
  then show "occurs p (c # s)"
    unfolding occurs_def has_prefix_iff by (metis append_Cons append_Nil)
qed

lemma contains_str_occurs: "contains_str s p \<longleftrightarrow> occurs p s"
proof (induction s)
  case Nil
  then show ?case by (auto simp: contains_str_def occurs_def)
next
  case (Cons c s)
  then show ?case by (auto simp: contains_str_def occurs_Cons)
qed

text \<open>A pattern that contains no character of the separator cannot straddle it,
  so an occurrence after a replacement lies in one of the kept stretches.\<close>

lemma occurs_separator:
  assumes "set p \<inter> set m = {}" "m \<noteq> []" "p \<noteq> []"
  shows "occurs p (a @ m @ b) \<longleftrightarrow> occurs p a \<or> occurs p b"
proof
  assume "occurs p (a @ m @ b)"
  then obtain u v where eq: "a @ m @ b = u @ p @ v" by (auto simp: occurs_def)
  consider (left) "length u + length p \<le> length a" | (right) "length a + length m \<le> length u"
    | (overlap) i where "length u \<le> i" "i < length u + length p" "length a \<le> i" "i < length a + length m"
  proof -
    assume l: "length u + length p \<le> length a \<Longrightarrow> thesis" and r: "length a + length m \<le> length u \<Longrightarrow> thesis"
      and o: "\<And>i. length u \<le> i \<Longrightarrow> i < length u + length p \<Longrightarrow> length a \<le> i \<Longrightarrow> i < length a + length m \<Longrightarrow> thesis"
    have "0 < length p" "0 < length m" using assms by auto
    then show thesis
      using l r o[of "max (length u) (length a)"] by linarith
  qed
  then show "occurs p a \<or> occurs p b"
  proof cases
    case left
    have "take (length u + length p) (a @ m @ b) = u @ p" using eq by simp
    then have "take (length u + length p) a = u @ p" using left by simp
    then have "a = u @ p @ drop (length u + length p) a"
      by (metis append.assoc append_take_drop_id)
    then show ?thesis unfolding occurs_def by blast
  next
    case right
    have "drop (length a + length m) (a @ m @ b) = drop (length a + length m) u @ p @ v"
      using eq right by simp
    then have "b = drop (length a + length m) u @ p @ v" by simp
    then show ?thesis unfolding occurs_def by blast
  next
    case overlap
    have "i - length a < length m" "i - length u < length p" using overlap by linarith+
    then have "(a @ m @ b) ! i = m ! (i - length a)" "(u @ p @ v) ! i = p ! (i - length u)"
      using overlap by (auto simp: nth_append)
    then have "m ! (i - length a) = p ! (i - length u)" using eq by simp
    moreover have "m ! (i - length a) \<in> set m" "p ! (i - length u) \<in> set p"
      using overlap by simp_all
    ultimately show ?thesis using assms(1) by auto
  qed
next
  assume "occurs p a \<or> occurs p b"
  then show "occurs p (a @ m @ b)"
    unfolding occurs_def by (metis append.assoc)
qed

section \<open>No secret is logged\<close>

lemma replace_all_introduces_nothing:
  assumes "set q \<inter> set new = {}" "new \<noteq> []" "q \<noteq> []"
  shows "occurs q (a @ replace_all pat new s) \<Longrightarrow> occurs q (a @ s)"
  using assms
proof (induction pat new s arbitrary: a rule: replace_all.induct)
  case (1 pat new s)
  show ?case
  proof (cases "s = [] \<or> \<not> (pat \<noteq> [] \<and> has_prefix s pat)")
    case True
    then have "replace_all pat new s = (if s = [] then [] else hd s # replace_all pat new (tl s))"
      by (subst replace_all.simps) auto
    then show ?thesis
      using 1(2)[of "a @ [hd s]"] 1(3-6) True by (cases "s = []") auto
  next
    case False
    have "occurs q a \<or> occurs q (replace_all pat new (drop (length pat) s))"
      using 1(3-6) False occurs_separator[of q new a] by (simp add: replace_all.simps[of pat new s])
    moreover have "occurs q (replace_all pat new (drop (length pat) s)) \<Longrightarrow> occurs q (drop (length pat) s)"
      using 1(1)[of "[]"] 1(4-6) False by simp
    moreover have "a @ s = a @ take (length pat) s @ drop (length pat) s" by simp
    ultimately show ?thesis
      unfolding occurs_def by (metis append.assoc)
  qed
qed

lemma replace_all_removes:
  assumes "set pat \<inter> set new = {}" "new \<noteq> []" "pat \<noteq> []"
    and "\<And>u v. a @ s = u @ pat @ v \<Longrightarrow> length a \<le> length u"
  shows "\<not> occurs pat (a @ replace_all pat new s)"
  using assms
proof (induction pat new s arbitrary: a rule: replace_all.induct)
  case (1 pat new s)
  have no_a: "\<not> occurs pat a"
  proof
    assume "occurs pat a"
    then obtain u v where "a = u @ pat @ v" by (auto simp: occurs_def)
    with 1(6)[of u "v @ s"] 1(5) show False by simp
  qed
  show ?case
  proof (cases "s = []")
    case True
    then show ?thesis using no_a by (simp add: replace_all.simps)
  next
    case s: False
    show ?thesis
    proof (cases "has_prefix s pat")
      case True
      then have "\<not> occurs pat ([] @ replace_all pat new (drop (length pat) s))"
        using 1(1)[of "[]"] 1(3-5) s by simp
      then show ?thesis
        using True s no_a 1(3-5) occurs_separator[of pat new a]
        by (simp add: replace_all.simps[of pat new s])
    next
      case False
      have "length (a @ [hd s]) \<le> length u" if "(a @ [hd s]) @ tl s = u @ pat @ v" for u v
      proof -
        have eq: "a @ s = u @ pat @ v" using that s by simp
        then have "length a \<le> length u" by (rule 1(6))
        moreover have "length a \<noteq> length u"
          using eq False by (auto simp: has_prefix_iff)
        ultimately show ?thesis by simp
      qed
      then have "\<not> occurs pat ((a @ [hd s]) @ replace_all pat new (tl s))"
        using 1(2)[of "a @ [hd s]"] 1(3-5) s False by simp
      then show ?thesis
        using s False by (simp add: replace_all.simps[of pat new s])
    qed
  qed
qed

lemma mask_fold_removes:
  assumes "\<forall>x \<in> set secrets. x \<noteq> [] \<and> set x \<inter> set new = {}" "new \<noteq> []"
    and "\<forall>x \<in> D. x \<noteq> [] \<and> set x \<inter> set new = {} \<and> \<not> occurs x m"
  shows "\<forall>x \<in> D \<union> set secrets. \<not> occurs x (foldl (\<lambda>m s. replace_all s new m) m secrets)"
  using assms
proof (induction secrets arbitrary: D m)
  case Nil
  then show ?case by simp
next
  case (Cons s secrets)
  have "\<not> occurs s (replace_all s new m)"
    using replace_all_removes[of s new "[]" m] Cons.prems by simp
  moreover have "\<not> occurs x (replace_all s new m)" if "x \<in> D" for x
    using replace_all_introduces_nothing[of x new "[]" s m] Cons.prems that by auto
  ultimately have "\<forall>x \<in> insert s D. x \<noteq> [] \<and> set x \<inter> set new = {} \<and> \<not> occurs x (replace_all s new m)"
    using Cons.prems by simp
  from Cons.IH[OF _ Cons.prems(2) this] Cons.prems(1) show ?case by simp
qed

lemma mask_writer_hides:
  assumes "\<forall>x \<in> set secrets. CHR ''*'' \<notin> set x" "s \<in> set secrets" "s \<noteq> ''''"
  shows "\<not> contains_str (fst (NewSecretMaskWriter underlying secrets p)) s"
proof -
  have ne: "filter (\<lambda>s. s \<noteq> '''') secrets \<noteq> []"
    using assms by (auto simp: filter_empty_conv)
  have "\<forall>x \<in> set (mask_secrets secrets). x \<noteq> [] \<and> set x \<inter> set maskedReplacement = {}"
    "s \<in> set (mask_secrets secrets)"
    using assms by (auto simp: mask_secrets_def maskedReplacement_def)
  then have "\<not> occurs s (foldl (\<lambda>m s. replace_all s maskedReplacement m) p (mask_secrets secrets))"
    using mask_fold_removes[of "mask_secrets secrets" maskedReplacement "{}" p]
    by (auto simp: maskedReplacement_def)
  then show ?thesis
    using ne by (auto simp: contains_str_occurs NewSecretMaskWriter_def mask_write_def Let_def
        split: prod.split option.split)
qed



text \<open>A quotation mark or a backslash in a secret is escaped before the writer sees the line,
  and the escaped secret passes.\<close>

lemma escaped_secret_passes:
  "fst (NewSecretMaskWriter (\<lambda>m. (length m, None)) [''a\"b''] (''{\"sip_password\":\"a'' @ [CHR 0x5C] @ ''\"b\"}'')) =
    ''{\"sip_password\":\"a'' @ [CHR 0x5C] @ ''\"b\"}''"
  by code_simp

text \<open>The label sets are bounded.\<close>

lemma bucket_ranges:
  "BucketStatus c \<in> {''2xx'', ''4xx'', ''5xx''}"
  "BucketOutcome st \<in> {''answered'', ''no_answer'', ''busy'', ''error''}"
  "BucketForwardReason e \<in> {'''', ''toll_fraud'', ''rate_limit'', ''caller_id_rejected'', ''busy'', ''rejected'',
     ''no_answer'', ''codec_mismatch'', ''auth_failed'', ''trunk_5xx'', ''timeout'', ''unreachable''}"
  "BucketStatusCallbackReason e sc \<in> {'''', ''timeout'', ''4xx'', ''5xx'', ''connect_error'',
     ''exhausted_retries'', ''ssrf_rejected'', ''queue_full''}"
proof -
  show "BucketStatus c \<in> {''2xx'', ''4xx'', ''5xx''}"
    by (simp add: BucketStatus_def)
  show "BucketOutcome st \<in> {''answered'', ''no_answer'', ''busy'', ''error''}"
    by (simp add: BucketOutcome_def)
  show "BucketForwardReason e \<in> {'''', ''toll_fraud'', ''rate_limit'', ''caller_id_rejected'', ''busy'', ''rejected'',
     ''no_answer'', ''codec_mismatch'', ''auth_failed'', ''trunk_5xx'', ''timeout'', ''unreachable''}"
    by (cases e) (simp_all add: BucketForwardReason_def)
  have "sentinel_reason m \<in> {None} \<union> Some ` {''timeout'', ''connect_error'',
     ''exhausted_retries'', ''ssrf_rejected'', ''queue_full''}" for m
    by (simp add: sentinel_reason_def)
  note this[of "the e"]
  then show "BucketStatusCallbackReason e sc \<in> {'''', ''timeout'', ''4xx'', ''5xx'', ''connect_error'',
     ''exhausted_retries'', ''ssrf_rejected'', ''queue_full''}"
    by (cases e) (auto simp: BucketStatusCallbackReason_def split: option.splits)
qed

end
