(* ===== verification/Status_Client.thy ===== *)
theory Status_Client
  imports Signer Ssrf Observability
begin

text \<open>
  Delivery of status callbacks, \<^verbatim>\<open>webhook/status.go\<close>: one bounded queue and one
  worker per CallSid, up to four signed attempts per job with fixed pre-delays,
  and the drain that closes a call's queue.  The network, the URL parsers and
  the constructor of HTTP requests are arguments.  Times are in milliseconds.
\<close>

section \<open>Data\<close>

record callback_event =
  cb_url :: string
  cb_method :: string
  cb_form :: url_values
  cb_event :: string
  cb_trusted :: bool

record callback_job =
  job_callSid :: string
  job_evt :: callback_event

definition perCallQueueDepth :: nat where "perCallQueueDepth = 64"
definition statusPerAttemptTimeout :: nat where "statusPerAttemptTimeout = 4000"
definition StatusDrainBudget :: nat where "StatusDrainBudget = 30000"
definition statusBackoffs :: "nat list" where "statusBackoffs = [0, 1000, 2000, 4000]"

text \<open>\<open>pc_started\<close> is the state of the \<^verbatim>\<open>sync.Once\<close> that spawns the worker,
  \<open>pc_closed\<close> says that the queue has been closed.\<close>

record per_call_state =
  pc_queue :: "callback_job chan"
  pc_started :: bool
  pc_closed :: bool

record status_client =
  sc_authToken :: string
  sc_skipValidateURL :: bool
  sc_perCall :: "string \<rightharpoonup> per_call_state"

text \<open>The parts of the environment the client calls.\<close>

record callback_env =
  ce_url_parse :: "string \<Rightarrow> (string \<times> string) option"
  ce_parse_ip :: "string \<Rightarrow> ip option"
  ce_new_request :: "string \<Rightarrow> string \<Rightarrow> string option"

datatype enqueue_error = ErrNoCallSid | ErrURL ssrf_error | ErrQueueFull

section \<open>Enqueue\<close>

definition new_per_call :: per_call_state where
  "new_per_call = \<lparr> pc_queue = chan_make perCallQueueDepth, pc_started = False, pc_closed = False \<rparr>"

definition getOrCreateState :: "status_client \<Rightarrow> string \<Rightarrow> per_call_state \<times> status_client" where
  "getOrCreateState c callSid =
    (case sc_perCall c callSid of
       Some st \<Rightarrow> (st, c)
     | None \<Rightarrow> (new_per_call, c\<lparr> sc_perCall := (sc_perCall c)(callSid \<mapsto> new_per_call) \<rparr>))"

definition enqueue_check :: "callback_env \<Rightarrow> status_client \<Rightarrow> string \<Rightarrow> callback_event \<Rightarrow> enqueue_error option" where
  "enqueue_check env c callSid evt =
    (if callSid = '''' then Some ErrNoCallSid
     else if \<not> sc_skipValidateURL c \<and> \<not> cb_trusted evt then
       map_option ErrURL (ValidateCallbackURL (ce_url_parse env) (ce_parse_ip env) (cb_url evt))
     else if cb_url evt = '''' then Some (ErrURL ErrEmptyURL)
     else None)"

definition Enqueue :: "callback_env \<Rightarrow> status_client \<Rightarrow> string \<Rightarrow> callback_event \<Rightarrow>
    enqueue_error option \<times> status_client" where
  "Enqueue env c callSid evt =
    (case enqueue_check env c callSid evt of
       Some e \<Rightarrow> (Some e, c)
     | None \<Rightarrow>
        (let evt' = (if cb_method evt = '''' then evt\<lparr> cb_method := ''POST'' \<rparr> else evt);
             (st, c1) = getOrCreateState c callSid;
             job = \<lparr> job_callSid = callSid, job_evt = evt' \<rparr>
         in case chan_send (pc_queue st) job of
              Some q \<Rightarrow> (None, c1\<lparr> sc_perCall := (sc_perCall c1)(callSid \<mapsto> st\<lparr> pc_queue := q, pc_started := True \<rparr>) \<rparr>)
            | None \<Rightarrow> (Some ErrQueueFull, c1)))"

section \<open>Delivery\<close>

datatype deliver_error = SSRFRejected string | NetError string | BuildError string

fun err_msg :: "deliver_error \<Rightarrow> string" where
  "err_msg (SSRFRejected m) = m"
| "err_msg (NetError m) = m"
| "err_msg (BuildError m) = m"

text \<open>One attempt: build the request, sign it in the transport, hand it to the
  guarded or the trusted client.  The status is 0 without a response.\<close>

definition build_request :: "callback_env \<Rightarrow> callback_job \<Rightarrow> http_request option" where
  "build_request env job =
    (let evt = job_evt job; post = (cb_method evt = ''POST'') in
     case ce_new_request env (cb_method evt) (cb_url evt) of
       None \<Rightarrow> None
     | Some u \<Rightarrow> Some \<lparr> req_method = cb_method evt, req_url = u,
         req_body = (if post then Body (form_encode (cb_form evt)) else NoBody),
         req_raw_url = Some (cb_url evt),
         req_headers = (if post then [''Content-Type'' \<mapsto> ''application/x-www-form-urlencoded''] else Map.empty) \<rparr>)"

definition deliverOnce :: "callback_env \<Rightarrow> string \<Rightarrow> (bool \<Rightarrow> http_request \<Rightarrow> deliver_error + int) \<Rightarrow>
    callback_job \<Rightarrow> int \<times> deliver_error option" where
  "deliverOnce env authToken do job =
    (case build_request env job of
       None \<Rightarrow> (0, Some (BuildError ''status_callback: build request''))
     | Some req \<Rightarrow>
        (case RoundTrip authToken req of
           Inl e \<Rightarrow> (0, Some (NetError ''sign''))
         | Inr req' \<Rightarrow>
            (case do (cb_trusted (job_evt job)) req' of
               Inl err \<Rightarrow> (0, Some err)
             | Inr status \<Rightarrow> (status, None))))"

definition shouldRetry :: "int \<Rightarrow> deliver_error option \<Rightarrow> bool" where
  "shouldRetry status err =
    (case err of
       Some (SSRFRejected m) \<Rightarrow> False
     | Some e \<Rightarrow> True
     | None \<Rightarrow> status = 408 \<or> status = 429 \<or> status \<ge> 500)"

definition attempt_ok :: "int \<Rightarrow> deliver_error option \<Rightarrow> bool" where
  "attempt_ok status err \<longleftrightarrow> err = None \<and> status \<ge> 200 \<and> status < 300"

datatype verdict = Delivered | Abandoned string | Exhausted

definition recordFailure_label :: "int \<Rightarrow> deliver_error option \<Rightarrow> string" where
  "recordFailure_label status err = BucketStatusCallbackReason (map_option err_msg err) status"

text \<open>The attempts over the list of pre-delays: what each attempt returned, and
  the verdict.  \<open>once\<close> is the outcome of the attempt of a given number.\<close>

fun try_attempts :: "(nat \<Rightarrow> int \<times> deliver_error option) \<Rightarrow> nat \<Rightarrow> nat list \<Rightarrow>
    (nat \<times> int \<times> deliver_error option) list \<times> verdict" where
  "try_attempts once n [] = ([], Exhausted)"
| "try_attempts once n (delay # ds) =
    (let (status, err) = once n in
     if attempt_ok status err then ([(delay, status, err)], Delivered)
     else if \<not> shouldRetry status err then ([(delay, status, err)], Abandoned (recordFailure_label status err))
     else let (as, v) = try_attempts once (n + 1) ds in ((delay, status, err) # as, v))"

definition deliverWithRetries :: "callback_env \<Rightarrow> string \<Rightarrow> (nat \<Rightarrow> bool \<Rightarrow> http_request \<Rightarrow> deliver_error + int) \<Rightarrow>
    callback_job \<Rightarrow> (nat \<times> int \<times> deliver_error option) list \<times> verdict" where
  "deliverWithRetries env authToken net job =
    try_attempts (\<lambda>n. deliverOnce env authToken (net n) job) 0 statusBackoffs"

text \<open>Time spent on a job when attempt \<open>i\<close> takes \<open>dur i\<close>.\<close>

definition delivery_time :: "(nat \<Rightarrow> nat) \<Rightarrow> (nat \<times> int \<times> deliver_error option) list \<Rightarrow> nat" where
  "delivery_time dur as = sum_list (map fst as) + (\<Sum>i<length as. dur i)"

section \<open>Worker and drain\<close>

text \<open>The worker of an entry takes the next job in turn; it exits when its queue
  is closed and empty.  \<open>worker_run\<close> is its whole loop once the queue is closed.\<close>

definition worker_step :: "per_call_state \<Rightarrow> (callback_job \<times> per_call_state) option" where
  "worker_step st =
    (if pc_started st then map_option (\<lambda>(j, q). (j, st\<lparr> pc_queue := q \<rparr>)) (chan_recv (pc_queue st)) else None)"

function worker_run :: "(callback_job \<Rightarrow> 'r) \<Rightarrow> per_call_state \<Rightarrow> (callback_job \<times> 'r) list" where
  "worker_run deliver st =
    (case worker_step st of
       None \<Rightarrow> []
     | Some (j, st') \<Rightarrow> (j, deliver j) # worker_run deliver st')"
  by pat_completeness auto
termination
  by (relation "measure (\<lambda>(d, st). length (chan_buf (pc_queue st)))")
    (auto simp: worker_step_def chan_recv_def split: if_splits list.splits)

declare worker_run.simps [simp del]

datatype drain_result = DrainUnknown | DrainDone | DrainDeadlineExceeded

text \<open>Close the call's queue, remove its entry, and wait for the worker at most
  \<open>timeout\<close>; \<open>spent\<close> is the time the worker needs for what is queued.  The
  second component is the detached entry its worker goes on draining.\<close>

definition DrainAndClose :: "(per_call_state \<Rightarrow> nat) \<Rightarrow> status_client \<Rightarrow> string \<Rightarrow> nat \<Rightarrow>
    drain_result \<times> per_call_state option \<times> status_client" where
  "DrainAndClose spent c callSid timeout =
    (case sc_perCall c callSid of
       None \<Rightarrow> (DrainUnknown, None, c)
     | Some st \<Rightarrow>
        (let st' = st\<lparr> pc_closed := True \<rparr>;
             c' = c\<lparr> sc_perCall := (sc_perCall c)(callSid := None) \<rparr>
         in (if pc_started st' \<and> spent st' \<le> timeout then DrainDone else DrainDeadlineExceeded, Some st', c')))"

section \<open>Attempts\<close>

lemma try_attempts_shape:
  "try_attempts once n ds = (as, v) \<Longrightarrow>
    map fst as = take (length as) ds \<and> length as \<le> length ds \<and>
    (\<forall>i < length as. snd (as ! i) = once (n + i)) \<and>
    (\<forall>i. Suc i < length as \<longrightarrow> shouldRetry (fst (snd (as ! i))) (snd (snd (as ! i)))) \<and>
    (v = Delivered \<longleftrightarrow> as \<noteq> [] \<and> attempt_ok (fst (snd (last as))) (snd (snd (last as)))) \<and>
    (v = Exhausted \<longrightarrow> length as = length ds)"
proof (induction once n ds arbitrary: as v rule: try_attempts.induct)
  case (1 once n)
  then show ?case by auto
next
  case (2 once n delay ds)
  obtain status err where o: "once n = (status, err)" by fastforce
  consider (stop) "attempt_ok status err \<or> \<not> shouldRetry status err"
    | (go) "\<not> attempt_ok status err" "shouldRetry status err" by blast
  then show ?case
  proof cases
    case stop
    then show ?thesis using 2(2) o by (auto split: if_splits)
  next
    case go
    obtain as' v' where rec: "try_attempts once (n + 1) ds = (as', v')" by fastforce
    then have eq: "as = (delay, status, err) # as'" "v = v'"
      using 2(2) o go by auto
    have "\<not> \<not> shouldRetry status err" using go by simp
    note IH = 2(1)[OF o[symmetric] refl go(1) this rec]
    show ?thesis
      using IH o go unfolding eq by (auto simp: nth_Cons split: nat.splits)
  qed
qed

lemma deliver_time_bound:
  assumes "try_attempts once 0 statusBackoffs = (as, v)" "\<And>i. dur i \<le> statusPerAttemptTimeout"
  shows "delivery_time dur as \<le> 23000"
proof -
  note sh = try_attempts_shape[OF assms(1)]
  have "sum_list (map fst as) \<le> 7000"
  proof -
    have "length as \<le> 4" using sh by (simp add: statusBackoffs_def)
    then have "length as = 0 \<or> length as = 1 \<or> length as = 2 \<or> length as = 3 \<or> length as = 4" by linarith
    moreover have "map fst as = take (length as) statusBackoffs" using sh by blast
    ultimately show ?thesis by (auto simp: statusBackoffs_def)
  qed
  moreover have "(\<Sum>i<length as. dur i) \<le> length as * 4000"
    using sum_bounded_above[of "{..<length as}" dur 4000] assms(2) by (simp add: statusPerAttemptTimeout_def)
  moreover have "length as \<le> 4" using sh by (simp add: statusBackoffs_def)
  ultimately show ?thesis by (simp add: delivery_time_def)
qed

text \<open>C22. Delivery of one callback always ends, after one to four attempts made
  after 0, 1, 2 and 4 seconds: it stops at the first attempt that is not
  retryable (so at once after a rejection by the address guard), counts as
  delivered exactly if the last attempt returned a 2xx status, and with attempts
  cut off at 4 seconds takes at most 23 of the 30 seconds of the drain budget.\<close>

theorem deliverWithRetries_bounded:
  assumes "deliverWithRetries env tok net job = (as, v)" "\<And>i. dur i \<le> statusPerAttemptTimeout"
  shows "1 \<le> length as \<and> length as \<le> 4 \<and> map fst as = take (length as) [0, 1000, 2000, 4000] \<and>
    (\<forall>i < length as. snd (as ! i) = deliverOnce env tok (net i) job) \<and>
    (\<forall>i. Suc i < length as \<longrightarrow> shouldRetry (fst (snd (as ! i))) (snd (snd (as ! i)))) \<and>
    (v = Delivered \<longleftrightarrow> snd (snd (last as)) = None \<and> 200 \<le> fst (snd (last as)) \<and> fst (snd (last as)) < 300) \<and>
    (v = Exhausted \<longrightarrow> length as = 4) \<and>
    delivery_time dur as \<le> 23000 \<and> 23000 < StatusDrainBudget"
proof -
  have t: "try_attempts (\<lambda>n. deliverOnce env tok (net n) job) 0 statusBackoffs = (as, v)"
    using assms(1) by (simp add: deliverWithRetries_def)
  have "as \<noteq> []"
    using t by (auto simp: statusBackoffs_def split: prod.splits if_splits)
  then show ?thesis
    using try_attempts_shape[OF t] deliver_time_bound[OF t assms(2)]
    by (auto simp: statusBackoffs_def attempt_ok_def StatusDrainBudget_def Suc_le_eq)
qed

definition demo_env :: callback_env where
  "demo_env = \<lparr> ce_url_parse = (\<lambda>u. Some (''https'', ''example.com'')), ce_parse_ip = (\<lambda>h. None),
     ce_new_request = (\<lambda>m u. Some u) \<rparr>"

definition demo_event :: callback_event where
  "demo_event = \<lparr> cb_url = ''https://example.com/cb'', cb_method = ''GET'', cb_form = [], cb_event = ''completed'',
     cb_trusted = False \<rparr>"

theorem deliverWithRetries_bounded_witness:
  "deliverWithRetries demo_env ''tok'' (\<lambda>n t r. if n = 0 then Inr 503 else Inr 200)
     \<lparr> job_callSid = ''CA1'', job_evt = demo_event \<rparr> = ([(0, 503, None), (1000, 200, None)], Delivered) \<and>
   delivery_time (\<lambda>_. 4000) [(0, 503, None), (1000, 200, None)] \<le> 23000"
proof -
  have run: "deliverWithRetries demo_env ''tok'' (\<lambda>n t r. if n = 0 then Inr 503 else Inr 200)
     \<lparr> job_callSid = ''CA1'', job_evt = demo_event \<rparr> = ([(0, 503, None), (1000, 200, None)], Delivered)"
    by (simp add: deliverWithRetries_def deliverOnce_def build_request_def demo_env_def demo_event_def
        RoundTrip_def statusBackoffs_def attempt_ok_def shouldRetry_def)
  show ?thesis
    using run deliverWithRetries_bounded[OF run, of "\<lambda>_. 4000"] by (simp add: statusPerAttemptTimeout_def)
qed

section \<open>The queues over time\<close>

text \<open>A run interleaves producers, the workers of the calls, drains and the
  workers of detached entries.  The accepted and the taken jobs are recorded.\<close>

datatype sc_op = OpEnqueue string callback_event | OpWork string | OpDrain string | OpWorkDetached nat

record sc_run_state =
  rs_client :: status_client
  rs_detached :: "per_call_state list"
  rs_accepted :: "callback_job list"
  rs_taken :: "callback_job list"

definition default_method :: "callback_event \<Rightarrow> callback_event" where
  "default_method evt = (if cb_method evt = '''' then evt\<lparr> cb_method := ''POST'' \<rparr> else evt)"

fun sc_exec :: "callback_env \<Rightarrow> sc_op \<Rightarrow> sc_run_state \<Rightarrow> sc_run_state" where
  "sc_exec env (OpEnqueue sid evt) s =
    (case Enqueue env (rs_client s) sid evt of
       (None, c) \<Rightarrow> s\<lparr> rs_client := c,
         rs_accepted := rs_accepted s @ [\<lparr> job_callSid = sid, job_evt = default_method evt \<rparr>] \<rparr>
     | (Some e, c) \<Rightarrow> s\<lparr> rs_client := c \<rparr>)"
| "sc_exec env (OpWork sid) s =
    (case sc_perCall (rs_client s) sid of
       None \<Rightarrow> s
     | Some st \<Rightarrow> (case worker_step st of
         None \<Rightarrow> s
       | Some (j, st') \<Rightarrow> s\<lparr> rs_client := (rs_client s)\<lparr> sc_perCall := (sc_perCall (rs_client s))(sid \<mapsto> st') \<rparr>,
           rs_taken := rs_taken s @ [j] \<rparr>))"
| "sc_exec env (OpDrain sid) s =
    (case DrainAndClose (\<lambda>_. 0) (rs_client s) sid StatusDrainBudget of
       (r, None, c) \<Rightarrow> s
     | (r, Some st, c) \<Rightarrow> s\<lparr> rs_client := c, rs_detached := rs_detached s @ [st] \<rparr>)"
| "sc_exec env (OpWorkDetached i) s =
    (if i < length (rs_detached s) then
       (case worker_step (rs_detached s ! i) of
          None \<Rightarrow> s
        | Some (j, st') \<Rightarrow> s\<lparr> rs_detached := (rs_detached s)[i := st'], rs_taken := rs_taken s @ [j] \<rparr>)
     else s)"

definition sc_run :: "callback_env \<Rightarrow> sc_op list \<Rightarrow> sc_run_state \<Rightarrow> sc_run_state" where
  "sc_run env ops s = fold (sc_exec env) ops s"

definition sc_init :: "string \<Rightarrow> sc_run_state" where
  "sc_init tok = \<lparr> rs_client = \<lparr> sc_authToken = tok, sc_skipValidateURL = False, sc_perCall = Map.empty \<rparr>,
     rs_detached = [], rs_accepted = [], rs_taken = [] \<rparr>"

definition of_call :: "string \<Rightarrow> callback_job list \<Rightarrow> callback_job list" where
  "of_call sid js = filter (\<lambda>j. job_callSid j = sid) js"

definition pending :: "sc_run_state \<Rightarrow> string \<Rightarrow> callback_job list" where
  "pending s sid = (case sc_perCall (rs_client s) sid of None \<Rightarrow> [] | Some st \<Rightarrow> chan_buf (pc_queue st))"

definition detached_jobs :: "sc_run_state \<Rightarrow> callback_job list" where
  "detached_jobs s = concat (map (\<lambda>st. chan_buf (pc_queue st)) (rs_detached s))"

definition entry_ok :: "string \<Rightarrow> per_call_state \<Rightarrow> bool" where
  "entry_ok sid st \<longleftrightarrow> pc_started st \<and> \<not> pc_closed st \<and> chan_cap (pc_queue st) = perCallQueueDepth \<and>
     length (chan_buf (pc_queue st)) \<le> perCallQueueDepth \<and> (\<forall>j \<in> set (chan_buf (pc_queue st)). job_callSid j = sid)"

definition sc_inv :: "sc_run_state \<Rightarrow> bool" where
  "sc_inv s \<longleftrightarrow> (\<forall>sid st. sc_perCall (rs_client s) sid = Some st \<longrightarrow> entry_ok sid st) \<and>
     (\<forall>st \<in> set (rs_detached s). pc_started st \<and> pc_closed st) \<and>
     (\<forall>sid. mset (of_call sid (rs_accepted s)) =
        mset (of_call sid (rs_taken s)) + mset (pending s sid) + mset (of_call sid (detached_jobs s)))"

lemma of_call_append [simp]: "of_call sid (xs @ ys) = of_call sid xs @ of_call sid ys"
  by (simp add: of_call_def)

lemma of_call_all: "\<forall>j \<in> set xs. job_callSid j = sid' \<Longrightarrow> of_call sid xs = (if sid = sid' then xs else [])"
  by (auto simp: of_call_def filter_id_conv filter_empty_conv)

lemma Enqueue_ok:
  assumes "Enqueue env c sid evt = (None, c')" "\<And>st. sc_perCall c sid = Some st \<Longrightarrow> entry_ok sid st"
  shows "\<exists>st. c' = c\<lparr> sc_perCall := (sc_perCall c)(sid \<mapsto> st) \<rparr> \<and> entry_ok sid st \<and>
    chan_buf (pc_queue st) = (case sc_perCall c sid of None \<Rightarrow> [] | Some st0 \<Rightarrow> chan_buf (pc_queue st0))
      @ [\<lparr> job_callSid = sid, job_evt = default_method evt \<rparr>]"
  using assms
  by (fastforce simp: Enqueue_def Let_def getOrCreateState_def new_per_call_def entry_ok_def default_method_def
      dest!: chan_send_SomeD split: option.splits prod.splits if_splits)

lemma Enqueue_rejected:
  assumes "Enqueue env c sid evt = (Some e, c')" "\<And>st. sc_perCall c sid = Some st \<Longrightarrow> entry_ok sid st"
  shows "c' = c"
  using assms
  by (auto simp: Enqueue_def Let_def getOrCreateState_def new_per_call_def chan_send_def perCallQueueDepth_def
      split: option.splits prod.splits if_splits)

lemma worker_step_SomeD:
  "worker_step st = Some (j, st') \<Longrightarrow> pc_started st \<and> chan_buf (pc_queue st) = j # chan_buf (pc_queue st') \<and>
    pc_started st' \<and> pc_closed st' = pc_closed st \<and> chan_cap (pc_queue st') = chan_cap (pc_queue st)"
  by (auto simp: worker_step_def split: if_splits dest!: chan_recv_SomeD)

lemma worker_step_entry_ok: "worker_step st = Some (j, st') \<Longrightarrow> entry_ok sid st \<Longrightarrow> entry_ok sid st' \<and> job_callSid j = sid"
  by (auto simp: entry_ok_def dest!: worker_step_SomeD)

lemma concat_update_mset:
  "i < length xs \<Longrightarrow> f (xs ! i) = j # f x \<Longrightarrow>
    mset (concat (map f xs)) = add_mset j (mset (concat (map f (xs[i := x]))))"
proof (induction xs arbitrary: i)
  case Nil
  then show ?case by simp
next
  case (Cons a xs)
  then show ?case by (cases i) auto
qed

lemma mset_of_call: "mset (of_call sid xs) = filter_mset (\<lambda>j. job_callSid j = sid) (mset xs)"
  by (simp add: of_call_def)

lemma sc_exec_inv: "sc_inv s \<Longrightarrow> sc_inv (sc_exec env op s)"
proof (cases op)
  case (OpEnqueue sid evt)
  assume inv: "sc_inv s"
  then have ok: "\<And>st. sc_perCall (rs_client s) sid = Some st \<Longrightarrow> entry_ok sid st" by (simp add: sc_inv_def)
  obtain r c' where en: "Enqueue env (rs_client s) sid evt = (r, c')" by fastforce
  show ?thesis
  proof (cases r)
    case None
    obtain st where st: "c' = (rs_client s)\<lparr> sc_perCall := (sc_perCall (rs_client s))(sid \<mapsto> st) \<rparr>" "entry_ok sid st"
      "chan_buf (pc_queue st) = pending s sid @ [\<lparr> job_callSid = sid, job_evt = default_method evt \<rparr>]"
      using Enqueue_ok[OF en[unfolded None] ok] by (auto simp: pending_def)
    show ?thesis
      using inv OpEnqueue en None st
      by (auto simp: sc_inv_def pending_def detached_jobs_def of_call_def)
  next
    case (Some e)
    then show ?thesis
      using inv OpEnqueue en Enqueue_rejected[OF en[unfolded Some] ok] by simp
  qed
next
  case (OpWork sid)
  assume inv: "sc_inv s"
  show ?thesis
  proof (cases "sc_perCall (rs_client s) sid")
    case None
    then show ?thesis using inv OpWork by simp
  next
    case (Some st)
    show ?thesis
    proof (cases "worker_step st")
      case None
      then show ?thesis using inv OpWork Some by simp
    next
      case (Some jst)
      then obtain j st' where ws: "worker_step st = Some (j, st')" by (cases jst) auto
      have "entry_ok sid st' \<and> job_callSid j = sid"
        using worker_step_entry_ok[OF ws, of sid] inv \<open>sc_perCall (rs_client s) sid = Some st\<close>
        by (simp add: sc_inv_def)
      then show ?thesis
        using inv OpWork \<open>sc_perCall (rs_client s) sid = Some st\<close> ws worker_step_SomeD[OF ws]
        by (auto simp: sc_inv_def pending_def detached_jobs_def of_call_def)
    qed
  qed
next
  case (OpDrain sid)
  assume inv: "sc_inv s"
  show ?thesis
  proof (cases "sc_perCall (rs_client s) sid")
    case None
    then show ?thesis using inv OpDrain by (simp add: DrainAndClose_def)
  next
    case (Some st)
    then have "entry_ok sid st" using inv by (simp add: sc_inv_def)
    then have buf: "of_call sid' (chan_buf (pc_queue st)) = (if sid' = sid then chan_buf (pc_queue st) else [])" for sid'
      by (intro of_call_all) (simp add: entry_ok_def)
    show ?thesis
      using inv OpDrain Some \<open>entry_ok sid st\<close> buf
      by (auto simp: sc_inv_def DrainAndClose_def Let_def pending_def detached_jobs_def entry_ok_def)
  qed
next
  case (OpWorkDetached i)
  assume inv: "sc_inv s"
  show ?thesis
  proof (cases "i < length (rs_detached s)")
    case i: True
    show ?thesis
    proof (cases "worker_step (rs_detached s ! i)")
      case None
      then show ?thesis using inv OpWorkDetached by simp
    next
      case (Some jst)
      then obtain j st' where ws: "worker_step (rs_detached s ! i) = Some (j, st')" by (cases jst) auto
      have "mset (detached_jobs s) = add_mset j (mset (detached_jobs (s\<lparr> rs_detached := (rs_detached s)[i := st'] \<rparr>)))"
        unfolding detached_jobs_def using concat_update_mset[OF i, of "\<lambda>st. chan_buf (pc_queue st)"]
          worker_step_SomeD[OF ws] by simp
      moreover have "\<forall>st \<in> set ((rs_detached s)[i := st']). pc_started st \<and> pc_closed st"
        using inv worker_step_SomeD[OF ws] i nth_mem[OF i]
        by (auto simp: sc_inv_def dest!: subsetD[OF set_update_subset_insert])
      ultimately show ?thesis
        using inv OpWorkDetached i ws
        by (auto simp: sc_inv_def pending_def mset_of_call detached_jobs_def)
    qed
  next
    case False
    then show ?thesis using inv OpWorkDetached by simp
  qed
qed

definition fifo_at :: "string \<Rightarrow> sc_run_state \<Rightarrow> bool" where
  "fifo_at sid s \<longleftrightarrow> of_call sid (rs_accepted s) = of_call sid (rs_taken s) @ pending s sid \<and>
     of_call sid (detached_jobs s) = []"

lemma fifo_at_enqueue:
  assumes "sc_inv s" "fifo_at sid s"
  shows "fifo_at sid (sc_exec env (OpEnqueue sid' evt) s)"
proof -
  have ok: "\<And>st. sc_perCall (rs_client s) sid' = Some st \<Longrightarrow> entry_ok sid' st"
    using assms by (simp add: sc_inv_def)
  obtain r c' where en: "Enqueue env (rs_client s) sid' evt = (r, c')" by fastforce
  show ?thesis
  proof (cases r)
    case None
    then show ?thesis
      using Enqueue_ok[OF en[unfolded None] ok] assms en
      by (auto simp: fifo_at_def pending_def detached_jobs_def of_call_def)
  next
    case (Some e)
    then show ?thesis
      using assms en Enqueue_rejected[OF en[unfolded Some] ok] by simp
  qed
qed

lemma fifo_at_work:
  assumes "sc_inv s" "fifo_at sid s"
  shows "fifo_at sid (sc_exec env (OpWork sid') s)"
proof (cases "\<exists>st j st'. sc_perCall (rs_client s) sid' = Some st \<and> worker_step st = Some (j, st')")
  case True
  then obtain st j st' where st: "sc_perCall (rs_client s) sid' = Some st" and ws: "worker_step st = Some (j, st')"
    by blast
  have "job_callSid j = sid'"
    using worker_step_entry_ok[OF ws, of sid'] assms st by (simp add: sc_inv_def)
  then show ?thesis
    using assms st ws worker_step_SomeD[OF ws]
    by (auto simp: fifo_at_def pending_def detached_jobs_def of_call_def)
next
  case False
  then have "sc_exec env (OpWork sid') s = s"
    by (auto split: option.splits)
  then show ?thesis using assms by simp
qed

lemma fifo_at_drain:
  assumes "sc_inv s" "fifo_at sid s" "sid' \<noteq> sid"
  shows "fifo_at sid (sc_exec env (OpDrain sid') s)"
proof (cases "sc_perCall (rs_client s) sid'")
  case None
  then show ?thesis using assms by (simp add: DrainAndClose_def)
next
  case (Some st)
  then have "entry_ok sid' st" using assms by (simp add: sc_inv_def)
  then have "of_call sid (chan_buf (pc_queue st)) = []"
    using assms(3) of_call_all[of "chan_buf (pc_queue st)" sid' sid] by (simp add: entry_ok_def)
  then show ?thesis
    using assms Some by (simp add: fifo_at_def DrainAndClose_def Let_def pending_def detached_jobs_def)
qed

lemma fifo_at_detached:
  assumes "fifo_at sid s"
  shows "fifo_at sid (sc_exec env (OpWorkDetached i) s)"
proof (cases "i < length (rs_detached s) \<and> worker_step (rs_detached s ! i) \<noteq> None")
  case True
  then obtain j st' where i: "i < length (rs_detached s)" and ws: "worker_step (rs_detached s ! i) = Some (j, st')"
    by fastforce
  have "mset (detached_jobs s) = add_mset j (mset (detached_jobs (s\<lparr> rs_detached := (rs_detached s)[i := st'] \<rparr>)))"
    unfolding detached_jobs_def using concat_update_mset[OF i, of "\<lambda>st. chan_buf (pc_queue st)"]
      worker_step_SomeD[OF ws] by simp
  moreover have "filter_mset (\<lambda>j. job_callSid j = sid) (mset (detached_jobs s)) = {#}"
    using assms unfolding fifo_at_def mset_of_call[symmetric] by simp
  ultimately have "of_call sid (detached_jobs (s\<lparr> rs_detached := (rs_detached s)[i := st'] \<rparr>)) = []" "job_callSid j \<noteq> sid"
    using mset_of_call[of sid] by (auto simp: of_call_def filter_empty_conv split: if_splits)
  then show ?thesis
    using assms i ws by (simp add: fifo_at_def pending_def detached_jobs_def of_call_def)
next
  case False
  then show ?thesis using assms by (auto split: option.splits)
qed

lemma sc_exec_fifo:
  assumes "sc_inv s" "fifo_at sid s" "op \<noteq> OpDrain sid"
  shows "fifo_at sid (sc_exec env op s)"
proof (cases op)
  case (OpEnqueue sid' evt)
  then show ?thesis using fifo_at_enqueue[OF assms(1,2)] by simp
next
  case (OpWork sid')
  then show ?thesis using fifo_at_work[OF assms(1,2)] by simp
next
  case (OpDrain sid')
  then show ?thesis using fifo_at_drain[OF assms(1,2), of sid'] assms(3) by simp
next
  case (OpWorkDetached i)
  then show ?thesis using fifo_at_detached[OF assms(2)] by simp
qed

lemma sc_init_inv: "sc_inv (sc_init tok)" "fifo_at sid (sc_init tok)"
  by (simp_all add: sc_inv_def sc_init_def pending_def detached_jobs_def of_call_def fifo_at_def)

lemma sc_run_inv: "sc_inv s \<Longrightarrow> sc_inv (sc_run env ops s)"
  unfolding sc_run_def by (induction ops arbitrary: s) (simp_all add: sc_exec_inv)

lemma sc_run_fifo: "sc_inv s \<Longrightarrow> fifo_at sid s \<Longrightarrow> OpDrain sid \<notin> set ops \<Longrightarrow> fifo_at sid (sc_run env ops s)"
  unfolding sc_run_def by (induction ops arbitrary: s) (auto simp: sc_exec_inv sc_exec_fifo)



text \<open>Once a queue is closed its worker delivers everything left, in order, and
  exits; and the drain of a call whose worker has at most one job left returns
  within the budget.\<close>

lemma worker_run_drains:
  "pc_started st \<Longrightarrow> worker_run deliver st = map (\<lambda>j. (j, deliver j)) (chan_buf (pc_queue st))"
proof (induction deliver st rule: worker_run.induct)
  case (1 deliver st)
  show ?case
  proof (cases "worker_step st")
    case None
    then have "chan_buf (pc_queue st) = []"
      using 1(2) by (auto simp: worker_step_def chan_recv_def split: list.splits)
    then show ?thesis using None by (simp add: worker_run.simps[of deliver st])
  next
    case (Some jst)
    then obtain j st' where ws: "worker_step st = Some (j, st')" by (cases jst) auto
    then show ?thesis
      using 1(1)[OF ws refl] worker_step_SomeD[OF ws] by (simp add: worker_run.simps[of deliver st])
  qed
qed

lemma Enqueue_validates:
  assumes "Enqueue env c sid evt = (None, c')" "\<not> sc_skipValidateURL c" "\<not> cb_trusted evt"
  shows "ValidateCallbackURL (ce_url_parse env) (ce_parse_ip env) (cb_url evt) = None"
  using assms by (auto simp: Enqueue_def enqueue_check_def split: option.splits if_splits)

end
