(* ===== verification/Twiml.thy ===== *)
theory Twiml
  imports Prelude
begin

text \<open>
  TwiML documents, \<^verbatim>\<open>internal/twiml\<close>: the verbs, the parser (a forward walk over
  the tokens of \<^verbatim>\<open>encoding/xml\<close>, whose tokeniser is an argument), the resolution
  of the dial target, and the dispatcher with its handlers, written over the
  operations of the interface \<^verbatim>\<open>DialTarget\<close>.  The main lemmas are the round trip
  from a document to its tokens and back, and the order of the operations a
  \<^verbatim>\<open><Dial>\<close> performs on any target.
\<close>

section \<open>Verbs\<close>

record stream =
  st_URL :: string
  st_Name :: string
  st_Track :: string
  st_Parameters :: "string \<rightharpoonup> string"

record number =
  nb_Text :: string
  nb_StatusCallback :: string
  nb_StatusCallbackMethod :: string
  nb_StatusCallbackEvents :: "string list"

record dial =
  d_CallerID :: string
  d_Timeout :: "int option"
  d_TimeLimit :: "int option"
  d_HangupOnStar :: bool
  d_Action :: string
  d_Method :: string
  d_AnswerOnBridge :: "bool option"
  d_NumberText :: string
  d_Number :: "number option"
  d_HasSip :: bool
  d_HasClient :: bool
  d_HasConference :: bool
  d_HasQueue :: bool
  d_StatusCallback :: string
  d_StatusCallbackMethod :: string
  d_StatusCallbackEvents :: "string list"

datatype verb =
    VConnect "stream option"
  | VDial dial
  | VHangup
  | VRedirect string string
  | VReject string
  | VUnknown string

definition empty_stream :: stream where
  "empty_stream = \<lparr> st_URL = '''', st_Name = '''', st_Track = '''', st_Parameters = Map.empty \<rparr>"

definition empty_number :: number where
  "empty_number = \<lparr> nb_Text = '''', nb_StatusCallback = '''', nb_StatusCallbackMethod = '''', nb_StatusCallbackEvents = [] \<rparr>"

definition empty_dial :: dial where
  "empty_dial = \<lparr> d_CallerID = '''', d_Timeout = None, d_TimeLimit = None, d_HangupOnStar = False,
     d_Action = '''', d_Method = '''', d_AnswerOnBridge = None, d_NumberText = '''', d_Number = None,
     d_HasSip = False, d_HasClient = False, d_HasConference = False, d_HasQueue = False,
     d_StatusCallback = '''', d_StatusCallbackMethod = '''', d_StatusCallbackEvents = [] \<rparr>"

definition ResolveDialTarget :: "dial \<Rightarrow> string \<times> bool" where
  "ResolveDialTarget d =
    (let text = trim_space (d_NumberText d) in
     case d_Number d of
       Some n \<Rightarrow> if text \<noteq> '''' then (trim_space (nb_Text n), True) else (trim_space (nb_Text n), False)
     | None \<Rightarrow> if text \<noteq> '''' then (text, False) else ('''', False))"

definition ExtractStreamURL :: "verb list \<Rightarrow> (string \<times> (string \<rightharpoonup> string)) option" where
  "ExtractStreamURL verbs =
    map_option (\<lambda>v. case v of VConnect (Some s) \<Rightarrow> (st_URL s, st_Parameters s) | _ \<Rightarrow> ('''', Map.empty))
      (List.find (\<lambda>v. case v of VConnect (Some s) \<Rightarrow> st_URL s \<noteq> '''' | _ \<Rightarrow> False) verbs)"

section \<open>Status-callback events\<close>

definition event_separator :: "char \<Rightarrow> bool" where
  "event_separator c \<longleftrightarrow> c = CHR '','' \<or> is_space c"

definition validStatusCallbackEvent :: "string \<Rightarrow> bool" where
  "validStatusCallbackEvent v \<longleftrightarrow>
    v \<in> {''initiated'', ''ringing'', ''answered'', ''in-progress'', ''completed'', ''busy'', ''failed'',
         ''no-answer'', ''canceled''}"

text \<open>\<^verbatim>\<open>strings.FieldsFunc\<close>: the non-empty stretches between separators.\<close>

definition fields_func :: "(char \<Rightarrow> bool) \<Rightarrow> string \<Rightarrow> string list" where
  "fields_func P s = filter (\<lambda>w. w \<noteq> []) (split_on CHR '' '' (map (\<lambda>c. if P c then CHR '' '' else c) s))"

text \<open>The error carries the first token outside the documented set.\<close>

definition ParseStatusCallbackEvents :: "string \<Rightarrow> string + string list" where
  "ParseStatusCallbackEvents raw =
    (let tokens = filter (\<lambda>t. t \<noteq> '''') (map trim_space (fields_func event_separator raw)) in
     case List.find (\<lambda>t. \<not> validStatusCallbackEvent t) tokens of
       Some t \<Rightarrow> Inl t
     | None \<Rightarrow> Inr tokens)"

section \<open>Tokens\<close>

type_synonym attrs = "(string \<times> string) list"

datatype xml_tok = StartEl string attrs | EndEl string | CharData string | OtherTok

datatype twiml_error = TwimlError int string

definition errorCodeMalformed :: int where "errorCodeMalformed = 12100"

definition malformed :: "string \<Rightarrow> twiml_error + 'a" where
  "malformed msg = Inl (TwimlError errorCodeMalformed msg)"

text \<open>\<^verbatim>\<open>Decoder.Skip\<close>: up to the end of the element already open; \<^const>\<open>None\<close> when
  the tokens run out, that is when the decoder reports its error.\<close>

fun dec_skip :: "nat \<Rightarrow> xml_tok list \<Rightarrow> xml_tok list option" where
  "dec_skip depth [] = None"
| "dec_skip depth (t # ts) =
    (case t of
       StartEl n a \<Rightarrow> dec_skip (depth + 1) ts
     | EndEl n \<Rightarrow> if depth = 0 then Some ts else dec_skip (depth - 1) ts
     | _ \<Rightarrow> dec_skip depth ts)"

fun skipToEnd :: "string \<Rightarrow> int \<Rightarrow> xml_tok list \<Rightarrow> xml_tok list option" where
  "skipToEnd name depth [] = None"
| "skipToEnd name depth (t # ts) =
    (case t of
       StartEl n a \<Rightarrow> skipToEnd name (depth + 1) ts
     | EndEl n \<Rightarrow> if depth = 0 \<and> n = name then Some ts else skipToEnd name (depth - 1) ts
     | _ \<Rightarrow> skipToEnd name depth ts)"

lemma dec_skip_shorter: "dec_skip depth ts = Some r \<Longrightarrow> length r < length ts"
  by (induction depth ts rule: dec_skip.induct) (auto split: xml_tok.splits if_splits)

lemma skipToEnd_shorter: "skipToEnd name depth ts = Some r \<Longrightarrow> length r < length ts"
  by (induction name depth ts rule: skipToEnd.induct) (auto split: xml_tok.splits if_splits)

section \<open>The parser\<close>

text \<open>Each parser takes the error the decoder reports when the tokens run out
  and the remaining tokens, and returns the parsed element and the rest.\<close>

type_synonym 'a parse_result = "twiml_error + 'a \<times> xml_tok list"

definition stream_attr :: "stream \<Rightarrow> string \<times> string \<Rightarrow> stream" where
  "stream_attr s a =
    (if fst a = ''url'' then s\<lparr> st_URL := snd a \<rparr>
     else if fst a = ''name'' then s\<lparr> st_Name := snd a \<rparr>
     else if fst a = ''track'' then s\<lparr> st_Track := snd a \<rparr>
     else s)"

definition param_attr :: "string \<times> string \<Rightarrow> string \<times> string \<Rightarrow> string \<times> string" where
  "param_attr p a =
    (if fst a = ''name'' then (snd a, snd p) else if fst a = ''value'' then (fst p, snd a) else p)"

definition add_parameter :: "stream \<Rightarrow> attrs \<Rightarrow> stream" where
  "add_parameter s as =
    (let (pn, pv) = foldl param_attr ('''', '''') as
     in if pn \<noteq> '''' then s\<lparr> st_Parameters := (st_Parameters s)(pn \<mapsto> pv) \<rparr> else s)"

function parseStream :: "string \<Rightarrow> stream \<Rightarrow> xml_tok list \<Rightarrow> stream parse_result" where
  "parseStream err s [] = malformed err"
| "parseStream err s (t # ts) =
    (case t of
       StartEl n as \<Rightarrow>
         (let s' = (if n = ''Parameter'' then add_parameter s as else s) in
          case dec_skip 0 ts of
            None \<Rightarrow> malformed err
          | Some r \<Rightarrow> parseStream err s' r)
     | EndEl n \<Rightarrow> if n = ''Stream'' then Inr (s, ts) else parseStream err s ts
     | _ \<Rightarrow> parseStream err s ts)"
  by pat_completeness auto
termination
  by (relation "measure (\<lambda>(err, s, ts). length ts)") (auto dest: dec_skip_shorter)

definition parseStream_start :: "string \<Rightarrow> attrs \<Rightarrow> xml_tok list \<Rightarrow> stream parse_result" where
  "parseStream_start err as ts = parseStream err (foldl stream_attr empty_stream as) ts"

lemma parseStream_shorter: "parseStream err s ts = Inr (s', r) \<Longrightarrow> length r < length ts"
proof (induction err s ts rule: parseStream.induct)
  case (1 err s)
  then show ?case by (simp add: malformed_def)
next
  case (2 err s t ts)
  show ?case
  proof (cases t)
    case (StartEl n as)
    let ?s = "if n = ''Parameter'' then add_parameter s as else s"
    obtain r1 where r1: "dec_skip 0 ts = Some r1" "parseStream err ?s r1 = Inr (s', r)"
      using 2(5) StartEl by (auto simp: malformed_def Let_def split: option.splits)
    from 2(1)[OF StartEl refl r1] dec_skip_shorter[OF r1(1)] show ?thesis by simp
  next
    case (EndEl n)
    then show ?thesis using 2(2)[of n] 2(5) by (auto split: if_splits)
  next
    case (CharData x)
    then show ?thesis using 2 by (auto simp: less_SucI)
  next
    case OtherTok
    then show ?thesis using 2 by (auto simp: less_SucI)
  qed
qed

function parseConnect :: "string \<Rightarrow> stream option \<Rightarrow> xml_tok list \<Rightarrow> stream option parse_result" where
  "parseConnect err c [] = malformed err"
| "parseConnect err c (t # ts) =
    (case t of
       StartEl n as \<Rightarrow>
         (if n = ''Stream'' then
            (case parseStream_start err as ts of
               Inl e \<Rightarrow> Inl e
             | Inr (s, r) \<Rightarrow> parseConnect err (Some s) r)
          else case dec_skip 0 ts of
            None \<Rightarrow> malformed err
          | Some r \<Rightarrow> parseConnect err c r)
     | EndEl n \<Rightarrow> if n = ''Connect'' then Inr (c, ts) else parseConnect err c ts
     | _ \<Rightarrow> parseConnect err c ts)"
  by pat_completeness auto
termination
  by (relation "measure (\<lambda>(err, c, ts). length ts)")
    (auto simp: parseStream_start_def dest: dec_skip_shorter parseStream_shorter)

definition number_attr :: "twiml_error + number \<Rightarrow> string \<times> string \<Rightarrow> twiml_error + number" where
  "number_attr acc a =
    (case acc of
       Inl e \<Rightarrow> Inl e
     | Inr n \<Rightarrow>
        (if fst a = ''statusCallback'' then Inr (n\<lparr> nb_StatusCallback := snd a \<rparr>)
         else if fst a = ''statusCallbackMethod'' then Inr (n\<lparr> nb_StatusCallbackMethod := snd a \<rparr>)
         else if fst a = ''statusCallbackEvent'' then
           (case ParseStatusCallbackEvents (snd a) of
              Inl bad \<Rightarrow> malformed (''<Number>: StatusCallbackEvent: unknown value '' @ bad)
            | Inr events \<Rightarrow> Inr (n\<lparr> nb_StatusCallbackEvents := events \<rparr>))
         else Inr n))"

function number_body :: "string \<Rightarrow> number \<Rightarrow> xml_tok list \<Rightarrow> number parse_result" where
  "number_body err n [] = malformed err"
| "number_body err n (t # ts) =
    (case t of
       CharData s \<Rightarrow> number_body err (n\<lparr> nb_Text := nb_Text n @ s \<rparr>) ts
     | StartEl m as \<Rightarrow> (case dec_skip 0 ts of None \<Rightarrow> malformed err | Some r \<Rightarrow> number_body err n r)
     | EndEl m \<Rightarrow> if m = ''Number'' then Inr (n, ts) else number_body err n ts
     | OtherTok \<Rightarrow> number_body err n ts)"
  by pat_completeness auto
termination
  by (relation "measure (\<lambda>(err, n, ts). length ts)") (auto dest: dec_skip_shorter)

definition parseNumber :: "string \<Rightarrow> attrs \<Rightarrow> xml_tok list \<Rightarrow> number parse_result" where
  "parseNumber err as ts =
    (case foldl number_attr (Inr empty_number) as of
       Inl e \<Rightarrow> Inl e
     | Inr n \<Rightarrow> number_body err n ts)"

lemma number_body_shorter: "number_body err n ts = Inr (n', r) \<Longrightarrow> length r < length ts"
proof (induction err n ts rule: number_body.induct)
  case (1 err n)
  then show ?case by (simp add: malformed_def)
next
  case (2 err n t ts)
  then show ?case
    by (cases t) (auto simp: malformed_def split: option.splits if_splits,
        (metis dec_skip_shorter less_SucI less_trans)+)
qed

lemma parseNumber_shorter: "parseNumber err as ts = Inr (n, r) \<Longrightarrow> length r < length ts"
  by (auto simp: parseNumber_def split: sum.splits dest: number_body_shorter)

definition dial_attr :: "twiml_error + dial \<Rightarrow> string \<times> string \<Rightarrow> twiml_error + dial" where
  "dial_attr acc a =
    (case acc of
       Inl e \<Rightarrow> Inl e
     | Inr d \<Rightarrow>
        (let v = snd a in
         if fst a = ''callerId'' then Inr (d\<lparr> d_CallerID := v \<rparr>)
         else if fst a = ''timeout'' then
           Inr (case atoi v of Some n \<Rightarrow> d\<lparr> d_Timeout := Some n \<rparr> | None \<Rightarrow> d)
         else if fst a = ''timeLimit'' then
           Inr (case atoi v of Some n \<Rightarrow> d\<lparr> d_TimeLimit := Some n \<rparr> | None \<Rightarrow> d)
         else if fst a = ''hangupOnStar'' then Inr (d\<lparr> d_HangupOnStar := (v = ''true'') \<rparr>)
         else if fst a = ''action'' then Inr (d\<lparr> d_Action := v \<rparr>)
         else if fst a = ''method'' then Inr (d\<lparr> d_Method := v \<rparr>)
         else if fst a = ''answerOnBridge'' then Inr (d\<lparr> d_AnswerOnBridge := Some (v = ''true'') \<rparr>)
         else if fst a = ''statusCallback'' then Inr (d\<lparr> d_StatusCallback := v \<rparr>)
         else if fst a = ''statusCallbackMethod'' then Inr (d\<lparr> d_StatusCallbackMethod := v \<rparr>)
         else if fst a = ''statusCallbackEvent'' then
           (case ParseStatusCallbackEvents v of
              Inl bad \<Rightarrow> malformed (''<Dial>: StatusCallbackEvent: unknown value '' @ bad)
            | Inr events \<Rightarrow> Inr (d\<lparr> d_StatusCallbackEvents := events \<rparr>))
         else Inr d))"

definition dial_child_flag :: "dial \<Rightarrow> string \<Rightarrow> dial" where
  "dial_child_flag d n =
    (if n = ''Sip'' then d\<lparr> d_HasSip := True \<rparr>
     else if n = ''Client'' then d\<lparr> d_HasClient := True \<rparr>
     else if n = ''Conference'' then d\<lparr> d_HasConference := True \<rparr>
     else if n = ''Queue'' then d\<lparr> d_HasQueue := True \<rparr>
     else d)"

function dial_body :: "string \<Rightarrow> dial \<Rightarrow> xml_tok list \<Rightarrow> dial parse_result" where
  "dial_body err d [] = malformed err"
| "dial_body err d (t # ts) =
    (case t of
       CharData s \<Rightarrow> dial_body err (d\<lparr> d_NumberText := d_NumberText d @ s \<rparr>) ts
     | StartEl n as \<Rightarrow>
         (if n = ''Number'' then
            (case parseNumber err as ts of
               Inl e \<Rightarrow> Inl e
             | Inr (nb, r) \<Rightarrow> dial_body err (d\<lparr> d_Number := Some nb \<rparr>) r)
          else case dec_skip 0 ts of
            None \<Rightarrow> malformed err
          | Some r \<Rightarrow> dial_body err (dial_child_flag d n) r)
     | EndEl n \<Rightarrow> if n = ''Dial'' then Inr (d, ts) else dial_body err d ts
     | OtherTok \<Rightarrow> dial_body err d ts)"
  by pat_completeness auto
termination
  by (relation "measure (\<lambda>(err, d, ts). length ts)") (auto dest: dec_skip_shorter parseNumber_shorter)

definition parseDial :: "string \<Rightarrow> attrs \<Rightarrow> xml_tok list \<Rightarrow> dial parse_result" where
  "parseDial err as ts =
    (case foldl dial_attr (Inr empty_dial) as of
       Inl e \<Rightarrow> Inl e
     | Inr d \<Rightarrow> dial_body err d ts)"

function parseRedirect :: "string \<Rightarrow> string \<times> string \<Rightarrow> xml_tok list \<Rightarrow> (string \<times> string) parse_result" where
  "parseRedirect err mu [] = malformed err"
| "parseRedirect err mu (t # ts) =
    (case t of
       CharData s \<Rightarrow> parseRedirect err (fst mu, snd mu @ s) ts
     | StartEl n as \<Rightarrow> (case dec_skip 0 ts of None \<Rightarrow> malformed err | Some r \<Rightarrow> parseRedirect err mu r)
     | EndEl n \<Rightarrow> if n = ''Redirect'' then Inr (mu, ts) else parseRedirect err mu ts
     | OtherTok \<Rightarrow> parseRedirect err mu ts)"
  by pat_completeness auto
termination
  by (relation "measure (\<lambda>(err, mu, ts). length ts)") (auto dest: dec_skip_shorter)

definition last_attr :: "string \<Rightarrow> attrs \<Rightarrow> string" where
  "last_attr k as = foldl (\<lambda>v a. if fst a = k then snd a else v) '''' as"

definition parseReject :: "attrs \<Rightarrow> verb" where
  "parseReject as = VReject (last_attr ''reason'' as)"

text \<open>One child element of the response.\<close>

definition parse_verb :: "string \<Rightarrow> string \<Rightarrow> attrs \<Rightarrow> xml_tok list \<Rightarrow> verb parse_result" where
  "parse_verb err n as ts =
    (if n = ''Connect'' then map_sum id (map_prod VConnect id) (parseConnect err None ts)
     else if n = ''Dial'' then map_sum id (map_prod VDial id) (parseDial err as ts)
     else if n = ''Hangup'' then
       (case skipToEnd n 0 ts of None \<Rightarrow> malformed err | Some r \<Rightarrow> Inr (VHangup, r))
     else if n = ''Redirect'' then
       map_sum id (map_prod (\<lambda>(m, u). VRedirect m u) id) (parseRedirect err (last_attr ''method'' as, '''') ts)
     else if n = ''Reject'' then
       (case skipToEnd n 0 ts of None \<Rightarrow> malformed err | Some r \<Rightarrow> Inr (parseReject as, r))
     else
       (case dec_skip 0 ts of None \<Rightarrow> malformed err | Some r \<Rightarrow> Inr (VUnknown n, r)))"

lemma parseConnect_shorter: "parseConnect err c ts = Inr (c', r) \<Longrightarrow> length r < length ts"
proof (induction err c ts rule: parseConnect.induct)
  case (1 err c)
  then show ?case by (simp add: malformed_def)
next
  case (2 err c t ts)
  show ?case
  proof (cases t)
    case (StartEl n as)
    show ?thesis
    proof (cases "n = ''Stream''")
      case True
      then obtain s r1 where r1: "parseStream_start err as ts = Inr (s, r1)" "parseConnect err (Some s) r1 = Inr (c', r)"
        using 2(6) StartEl by (auto split: sum.splits)
      from 2(1)[OF StartEl True r1(1) refl r1(2)] r1(1) show ?thesis
        by (auto simp: parseStream_start_def dest: parseStream_shorter)
    next
      case False
      then obtain r1 where r1: "dec_skip 0 ts = Some r1" "parseConnect err c r1 = Inr (c', r)"
        using 2(6) StartEl by (auto simp: malformed_def split: option.splits)
      from 2(2)[OF StartEl False r1] dec_skip_shorter[OF r1(1)] show ?thesis by simp
    qed
  qed (use 2 in \<open>auto simp: less_SucI split: if_splits\<close>)
qed

lemma dial_body_shorter: "dial_body err d ts = Inr (d', r) \<Longrightarrow> length r < length ts"
proof (induction err d ts rule: dial_body.induct)
  case (1 err d)
  then show ?case by (simp add: malformed_def)
next
  case (2 err d t ts)
  show ?case
  proof (cases t)
    case (StartEl n as)
    show ?thesis
    proof (cases "n = ''Number''")
      case True
      then obtain nb r1 where r1: "parseNumber err as ts = Inr (nb, r1)"
          "dial_body err (d\<lparr> d_Number := Some nb \<rparr>) r1 = Inr (d', r)"
        using 2(6) StartEl by (auto split: sum.splits)
      from 2(1)[OF StartEl True r1(1) refl r1(2)] parseNumber_shorter[OF r1(1)] show ?thesis by simp
    next
      case False
      then obtain r1 where r1: "dec_skip 0 ts = Some r1" "dial_body err (dial_child_flag d n) r1 = Inr (d', r)"
        using 2(6) StartEl by (auto simp: malformed_def split: option.splits)
      from 2(2)[OF StartEl False r1] dec_skip_shorter[OF r1(1)] show ?thesis by simp
    qed
  qed (use 2 in \<open>auto simp: less_SucI split: if_splits\<close>)
qed

lemma parseRedirect_shorter: "parseRedirect err mu ts = Inr (mu', r) \<Longrightarrow> length r < length ts"
proof (induction err mu ts rule: parseRedirect.induct)
  case (1 err mu)
  then show ?case by (simp add: malformed_def)
next
  case (2 err mu t ts)
  then show ?case
    by (cases t) (auto simp: malformed_def split: option.splits if_splits,
        (metis dec_skip_shorter less_SucI less_trans)+)
qed

lemma parse_verb_shorter:
  assumes "parse_verb err n as ts = Inr (v, r)"
  shows "length r < length ts"
proof -
  have lift: "map_sum id (map_prod f id) x = Inr (v, r) \<Longrightarrow> \<exists>y. x = Inr (y, r)"
    for f :: "'b \<Rightarrow> verb" and x :: "twiml_error + 'b \<times> xml_tok list"
    by (cases x) auto
  show ?thesis
    using assms unfolding parse_verb_def
    by (auto simp: malformed_def parseDial_def split: if_splits option.splits sum.splits
        dest!: lift dest: parseConnect_shorter dial_body_shorter parseRedirect_shorter skipToEnd_shorter
          dec_skip_shorter)
qed

function parseResponseChildren :: "string \<Rightarrow> verb list \<Rightarrow> xml_tok list \<Rightarrow> twiml_error + verb list" where
  "parseResponseChildren err verbs [] = malformed err"
| "parseResponseChildren err verbs (t # ts) =
    (case t of
       StartEl n as \<Rightarrow>
         (case parse_verb err n as ts of
            Inl e \<Rightarrow> Inl e
          | Inr (v, r) \<Rightarrow> parseResponseChildren err (verbs @ [v]) r)
     | EndEl n \<Rightarrow>
         if n = ''Response'' then Inr verbs else malformed (''unexpected </'' @ n @ ''> at Response level'')
     | _ \<Rightarrow> parseResponseChildren err verbs ts)"
  by pat_completeness auto
termination
  by (relation "measure (\<lambda>(err, verbs, ts). length ts)") (auto dest: parse_verb_shorter)

text \<open>How the token stream of a document ends: cleanly, or in a syntax error.\<close>

datatype xml_end = XmlEOF | XmlSyntax string

fun xml_err :: "xml_end \<Rightarrow> string" where
  "xml_err XmlEOF = ''EOF''"
| "xml_err (XmlSyntax m) = m"

fun parse_root :: "xml_end \<Rightarrow> xml_tok list \<Rightarrow> twiml_error + verb list" where
  "parse_root fin [] = (case fin of XmlEOF \<Rightarrow> malformed ''empty document'' | XmlSyntax m \<Rightarrow> malformed m)"
| "parse_root fin (t # ts) =
    (case t of
       StartEl n as \<Rightarrow>
         if n \<noteq> ''Response'' then malformed ''root is not <Response>''
         else parseResponseChildren (xml_err fin) [] ts
     | _ \<Rightarrow> parse_root fin ts)"

definition Parse :: "(string \<Rightarrow> xml_tok list \<times> xml_end) \<Rightarrow> string \<Rightarrow> twiml_error + verb list" where
  "Parse tokens body =
    (if length body = 0 then malformed ''empty document''
     else parse_root (snd (tokens body)) (fst (tokens body)))"

section \<open>Errors carry one code\<close>

fun err_ok :: "twiml_error \<Rightarrow> bool" where
  "err_ok (TwimlError c m) \<longleftrightarrow> c = 12100"

definition code_ok :: "twiml_error + 'a \<Rightarrow> bool" where
  "code_ok x \<longleftrightarrow> (case x of Inl e \<Rightarrow> err_ok e | Inr y \<Rightarrow> True)"

lemma code_ok_simps [simp]: "code_ok (malformed m)" "code_ok (Inr y)" "code_ok (Inl e) = err_ok e"
  by (simp_all add: code_ok_def malformed_def errorCodeMalformed_def)

lemma code_ok_map [simp]: "code_ok (map_sum id f x) = code_ok x"
  by (cases x) (auto simp: code_ok_def)

lemma code_okD: "code_ok x \<Longrightarrow> x = Inl e \<Longrightarrow> err_ok e"
  by (simp add: code_ok_def)

lemma parseStream_code: "code_ok (parseStream err s ts)"
proof (induction err s ts rule: parseStream.induct)
  case (2 err s t ts)
  show ?case
  proof (cases t)
    case (StartEl n as)
    then show ?thesis
      using 2(1)[OF StartEl refl] by (simp add: Let_def split: option.split split del: if_split)
  qed (use 2 in auto)
qed simp

lemma parseConnect_code: "code_ok (parseConnect err c ts)"
proof (induction err c ts rule: parseConnect.induct)
  case (2 err c t ts)
  have "parseStream_start err as ts = Inl e \<Longrightarrow> err_ok e" for as e
    using code_okD[OF parseStream_code] by (simp add: parseStream_start_def)
  with 2 show ?case by (cases t) (auto split: option.split sum.split)
qed simp

lemma number_body_code: "code_ok (number_body err n ts)"
  by (induction err n ts rule: number_body.induct) (auto split: xml_tok.split option.split)

lemma number_attr_code: "code_ok acc \<Longrightarrow> code_ok (foldl number_attr acc as)"
  by (induction as arbitrary: acc) (auto simp: number_attr_def split: sum.split)

lemma parseNumber_code: "code_ok (parseNumber err as ts)"
proof -
  have "code_ok (foldl number_attr (Inr empty_number) as)" by (simp add: number_attr_code)
  then show ?thesis
    unfolding parseNumber_def using number_body_code by (auto split: sum.split)
qed

lemma dial_body_code: "code_ok (dial_body err d ts)"
proof (induction err d ts rule: dial_body.induct)
  case (2 err d t ts)
  have "parseNumber err as ts = Inl e \<Longrightarrow> err_ok e" for as e
    using code_okD[OF parseNumber_code] .
  with 2 show ?case by (cases t) (auto split: option.split sum.split)
qed simp

lemma dial_attr_code: "code_ok acc \<Longrightarrow> code_ok (foldl dial_attr acc as)"
  by (induction as arbitrary: acc) (auto simp: dial_attr_def Let_def split: sum.split)

lemma parseDial_code: "code_ok (parseDial err as ts)"
proof -
  have "code_ok (foldl dial_attr (Inr empty_dial) as)" by (simp add: dial_attr_code)
  then show ?thesis
    unfolding parseDial_def using dial_body_code by (auto split: sum.split)
qed

lemma parseRedirect_code: "code_ok (parseRedirect err mu ts)"
  by (induction err mu ts rule: parseRedirect.induct) (auto split: xml_tok.split option.split)

lemma parse_verb_code: "code_ok (parse_verb err n as ts)"
  by (auto simp: parse_verb_def parseConnect_code parseDial_code parseRedirect_code split: option.split)

lemma parseResponseChildren_code: "code_ok (parseResponseChildren err verbs ts)"
proof (induction err verbs ts rule: parseResponseChildren.induct)
  case (2 err verbs t ts)
  have "parse_verb err n as ts = Inl e \<Longrightarrow> err_ok e" for n as e
    using code_okD[OF parse_verb_code] .
  with 2 show ?case by (cases t) (auto split: sum.split)
qed simp

lemma parse_root_code: "code_ok (parse_root fin ts)"
  by (induction fin ts rule: parse_root.induct)
    (auto simp: parseResponseChildren_code split: xml_tok.split xml_end.split)

lemma Parse_code: "Parse tokens body = Inl (TwimlError c m) \<Longrightarrow> c = 12100"
  using code_okD[OF parse_root_code, of "snd (tokens body)" "fst (tokens body)" "TwimlError c m"]
  by (auto simp: Parse_def malformed_def errorCodeMalformed_def split: if_splits)

section \<open>Round trip\<close>

text \<open>The tokens of a document, written out from its verbs.\<close>

definition opt_attr :: "string \<Rightarrow> ('a \<Rightarrow> string) \<Rightarrow> 'a option \<Rightarrow> attrs" where
  "opt_attr k f x = (case x of None \<Rightarrow> [] | Some y \<Rightarrow> [(k, f y)])"

definition bool_str :: "bool \<Rightarrow> string" where
  "bool_str b = (if b then ''true'' else ''false'')"

definition emit_empty :: "bool \<Rightarrow> string \<Rightarrow> xml_tok list" where
  "emit_empty b n = (if b then [StartEl n [], EndEl n] else [])"

definition callback_attrs :: "string \<Rightarrow> string \<Rightarrow> string list \<Rightarrow> attrs" where
  "callback_attrs u m evs =
    [(''statusCallback'', u), (''statusCallbackMethod'', m), (''statusCallbackEvent'', join_with '' '' evs)]"

definition emit_number :: "number \<Rightarrow> xml_tok list" where
  "emit_number n =
    [StartEl ''Number'' (callback_attrs (nb_StatusCallback n) (nb_StatusCallbackMethod n) (nb_StatusCallbackEvents n)),
     CharData (nb_Text n), EndEl ''Number'']"

definition dial_attrs :: "dial \<Rightarrow> attrs" where
  "dial_attrs d =
    [(''callerId'', d_CallerID d)] @ opt_attr ''timeout'' itoa (d_Timeout d) @
    opt_attr ''timeLimit'' itoa (d_TimeLimit d) @
    [(''hangupOnStar'', bool_str (d_HangupOnStar d)), (''action'', d_Action d), (''method'', d_Method d)] @
    opt_attr ''answerOnBridge'' bool_str (d_AnswerOnBridge d) @
    callback_attrs (d_StatusCallback d) (d_StatusCallbackMethod d) (d_StatusCallbackEvents d)"

definition dial_children :: "dial \<Rightarrow> xml_tok list" where
  "dial_children d =
    [CharData (d_NumberText d)] @ (case d_Number d of None \<Rightarrow> [] | Some n \<Rightarrow> emit_number n) @
    emit_empty (d_HasSip d) ''Sip'' @ emit_empty (d_HasClient d) ''Client'' @
    emit_empty (d_HasConference d) ''Conference'' @ emit_empty (d_HasQueue d) ''Queue''"

definition param_list :: "(string \<rightharpoonup> string) \<Rightarrow> (string \<times> string) list" where
  "param_list m = map (\<lambda>k. (k, the (m k))) (sorted_list_of_set (dom m))"

definition emit_params :: "(string \<times> string) list \<Rightarrow> xml_tok list" where
  "emit_params ps = concat (map (\<lambda>(k, v). [StartEl ''Parameter'' [(''name'', k), (''value'', v)], EndEl ''Parameter'']) ps)"

definition emit_stream :: "stream \<Rightarrow> xml_tok list" where
  "emit_stream s =
    [StartEl ''Stream'' [(''url'', st_URL s), (''name'', st_Name s), (''track'', st_Track s)]] @
    emit_params (param_list (st_Parameters s)) @ [EndEl ''Stream'']"

fun emit_verb :: "verb \<Rightarrow> xml_tok list" where
  "emit_verb (VConnect c) =
    [StartEl ''Connect'' []] @ (case c of None \<Rightarrow> [] | Some s \<Rightarrow> emit_stream s) @ [EndEl ''Connect'']"
| "emit_verb (VDial d) = [StartEl ''Dial'' (dial_attrs d)] @ dial_children d @ [EndEl ''Dial'']"
| "emit_verb VHangup = [StartEl ''Hangup'' [], EndEl ''Hangup'']"
| "emit_verb (VRedirect m u) = [StartEl ''Redirect'' [(''method'', m)], CharData u, EndEl ''Redirect'']"
| "emit_verb (VReject r) = [StartEl ''Reject'' [(''reason'', r)], EndEl ''Reject'']"
| "emit_verb (VUnknown n) = [StartEl n [], EndEl n]"

definition emit_doc :: "verb list \<Rightarrow> xml_tok list" where
  "emit_doc vs = [StartEl ''Response'' []] @ concat (map emit_verb vs) @ [EndEl ''Response'']"

definition events_ok :: "string list \<Rightarrow> bool" where
  "events_ok evs = list_all validStatusCallbackEvent evs"

definition opt_int_ok :: "int option \<Rightarrow> bool" where
  "opt_int_ok x = (case x of None \<Rightarrow> True | Some n \<Rightarrow> int64_ok n)"

fun verb_wf :: "verb \<Rightarrow> bool" where
  "verb_wf (VConnect None) = True"
| "verb_wf (VConnect (Some s)) = (finite (dom (st_Parameters s)) \<and> st_Parameters s '''' = None)"
| "verb_wf (VDial d) = (opt_int_ok (d_Timeout d) \<and> opt_int_ok (d_TimeLimit d) \<and> events_ok (d_StatusCallbackEvents d) \<and>
     (case d_Number d of None \<Rightarrow> True | Some n \<Rightarrow> events_ok (nb_StatusCallbackEvents n)))"
| "verb_wf (VUnknown n) = (n \<notin> {''Connect'', ''Dial'', ''Hangup'', ''Redirect'', ''Reject''})"
| "verb_wf v = True"

lemma valid_event_plain:
  assumes "validStatusCallbackEvent v"
  shows "v \<noteq> ''''" "\<forall>c \<in> set v. \<not> event_separator c"
  using assms by (auto simp: validStatusCallbackEvent_def event_separator_def is_space_def)

lemma parse_events_join:
  assumes "events_ok evs"
  shows "ParseStatusCallbackEvents (join_with '' '' evs) = Inr evs"
proof -
  have plain: "\<forall>v \<in> set evs. v \<noteq> '''' \<and> (\<forall>c \<in> set v. \<not> event_separator c)"
    using assms valid_event_plain by (auto simp: events_ok_def list_all_iff)
  have sp: "event_separator CHR '' ''" by (simp add: event_separator_def is_space_def)
  have "map (\<lambda>c. if event_separator c then CHR '' '' else c) (join_with '' '' vs) = join_with '' '' vs"
    if "\<forall>v \<in> set vs. \<forall>c \<in> set v. \<not> event_separator c" for vs
    using that
  proof (induction vs)
    case (Cons v vs)
    have "map (\<lambda>c. if event_separator c then CHR '' '' else c) v = v"
      using Cons.prems by (auto intro!: map_idI)
    with Cons sp show ?case by (cases vs) auto
  qed simp
  then have m: "map (\<lambda>c. if event_separator c then CHR '' '' else c) (join_with '' '' evs) = join_with '' '' evs"
    using plain by blast
  have "fields_func event_separator (join_with '' '' evs) = evs"
  proof (cases "evs = []")
    case False
    then have "split_on CHR '' '' (join_with '' '' evs) = evs"
      using plain sp by (intro split_join) auto
    then show ?thesis unfolding fields_func_def m using plain by (simp add: filter_id_conv)
  qed (simp add: fields_func_def)
  moreover have "map trim_space evs = evs"
    using plain by (intro map_idI trim_space_no_space) (auto simp: event_separator_def)
  moreover have "filter (\<lambda>t. t \<noteq> []) evs = evs" using plain by (simp add: filter_id_conv)
  moreover have "List.find (\<lambda>t. \<not> validStatusCallbackEvent t) evs = None"
    using assms by (auto simp: find_None_iff events_ok_def list_all_iff)
  ultimately show ?thesis by (simp add: ParseStatusCallbackEvents_def Let_def)
qed

lemma parseNumber_emit:
  assumes "events_ok (nb_StatusCallbackEvents n)"
  shows "parseNumber err (callback_attrs (nb_StatusCallback n) (nb_StatusCallbackMethod n) (nb_StatusCallbackEvents n))
    (CharData (nb_Text n) # EndEl ''Number'' # rest) = Inr (n, rest)"
  by (simp add: parseNumber_def callback_attrs_def number_attr_def parse_events_join[OF assms] empty_number_def)

lemma bool_str_true [simp]: "bool_str b = ''true'' \<longleftrightarrow> b"
  by (simp add: bool_str_def)

lemma dial_attrs_emit:
  assumes "opt_int_ok (d_Timeout d)" "opt_int_ok (d_TimeLimit d)" "events_ok (d_StatusCallbackEvents d)"
  shows "foldl dial_attr (Inr empty_dial) (dial_attrs d) =
    Inr (d\<lparr> d_NumberText := '''', d_Number := None, d_HasSip := False, d_HasClient := False,
           d_HasConference := False, d_HasQueue := False \<rparr>)"
  using assms
  by (cases "d_Timeout d"; cases "d_TimeLimit d"; cases "d_AnswerOnBridge d")
    (simp_all add: dial_attrs_def opt_attr_def callback_attrs_def dial_attr_def empty_dial_def Let_def opt_int_ok_def
      parse_events_join)

lemma dial_body_flag:
  "dial_body err d (emit_empty b n @ rest) = (if b then dial_body err (dial_child_flag d n) rest else dial_body err d rest)"
  if "n \<noteq> ''Number''" for n
  using that by (simp add: emit_empty_def)

lemma parseDial_emit:
  assumes "verb_wf (VDial d)"
  shows "parseDial err (dial_attrs d) (dial_children d @ EndEl ''Dial'' # rest) = Inr (d, rest)"
proof -
  let ?d0 = "d\<lparr> d_NumberText := '''', d_Number := None, d_HasSip := False, d_HasClient := False,
           d_HasConference := False, d_HasQueue := False \<rparr>"
  have a: "foldl dial_attr (Inr empty_dial) (dial_attrs d) = Inr ?d0"
    using assms by (intro dial_attrs_emit) auto
  have num: "dial_body err x (emit_number n @ r) = dial_body err (x\<lparr> d_Number := Some n \<rparr>) r"
    if "d_Number d = Some n" for x n r
    using assms that by (simp add: emit_number_def parseNumber_emit)
  show ?thesis
    unfolding parseDial_def a dial_children_def
    by (cases d; cases "d_Number d") (simp_all add: num dial_body_flag dial_child_flag_def)
qed

definition set_param :: "stream \<Rightarrow> string \<times> string \<Rightarrow> stream" where
  "set_param s p = s\<lparr> st_Parameters := (st_Parameters s)(fst p \<mapsto> snd p) \<rparr>"

lemma parseStream_params:
  assumes "\<forall>p \<in> set ps. fst p \<noteq> ''''"
  shows "parseStream err s (emit_params ps @ rest) =
    parseStream err (foldl set_param s ps) rest"
  using assms
proof (induction ps arbitrary: s)
  case Nil
  then show ?case by (simp add: emit_params_def)
next
  case (Cons p ps)
  then show ?case
    by (cases p) (simp add: emit_params_def add_parameter_def param_attr_def set_param_def)
qed

lemma foldl_params:
  "foldl set_param s ps =
    s\<lparr> st_Parameters := foldl (\<lambda>m p. m(fst p \<mapsto> snd p)) (st_Parameters s) ps \<rparr>"
  by (induction ps arbitrary: s) (simp_all add: set_param_def)

lemma foldl_map_upd:
  "distinct (map fst ps) \<Longrightarrow> foldl (\<lambda>m p. m(fst p \<mapsto> snd p)) m ps = m ++ map_of ps"
proof (induction ps arbitrary: m)
  case (Cons p ps)
  then show ?case by (cases p) (simp add: map_add_upd_left dom_map_of_conv_image_fst del: fun_upd_apply)
qed simp

lemma param_list_map_of:
  assumes "finite (dom m)"
  shows "map_of (param_list m) = m" "distinct (map fst (param_list m))" "fst ` set (param_list m) = dom m"
proof -
  show "distinct (map fst (param_list m))" "fst ` set (param_list m) = dom m"
    using assms by (auto simp: param_list_def o_def image_image)
  show "map_of (param_list m) = m"
    using assms by (auto simp: param_list_def fun_eq_iff map_of_map_restrict restrict_map_def dom_def)
qed

lemma parseStream_emit:
  assumes "finite (dom (st_Parameters s))" "st_Parameters s '''' = None"
  shows "parseStream_start err [(''url'', st_URL s), (''name'', st_Name s), (''track'', st_Track s)]
    (emit_params (param_list (st_Parameters s)) @ EndEl ''Stream'' # rest) = Inr (s, rest)"
proof -
  have ne: "\<forall>p \<in> set (param_list (st_Parameters s)). fst p \<noteq> ''''"
    using assms param_list_map_of(3)[OF assms(1)] by (metis domIff image_eqI)
  show ?thesis
    by (simp add: parseStream_start_def stream_attr_def empty_stream_def parseStream_params[OF ne]
        foldl_params foldl_map_upd param_list_map_of[OF assms(1)])
qed

lemma parse_verb_emit:
  assumes "verb_wf v" "emit_verb v = StartEl n as # ts"
  shows "parse_verb err n as (ts @ rest) = Inr (v, rest)"
proof (cases v)
  case (VConnect c)
  then show ?thesis
    using assms by (cases c) (auto simp: parse_verb_def emit_stream_def parseStream_emit)
next
  case (VDial d)
  then show ?thesis
    using assms parseDial_emit[of d err rest] by (auto simp: parse_verb_def)
next
  case VHangup
  then show ?thesis using assms by (auto simp: parse_verb_def)
next
  case (VRedirect m u)
  then have "n = ''Redirect''" "as = [(''method'', m)]" "ts = [CharData u, EndEl ''Redirect'']"
    using assms by auto
  then show ?thesis using VRedirect by (simp add: parse_verb_def last_attr_def)
next
  case (VReject r)
  then have "n = ''Reject''" "as = [(''reason'', r)]" "ts = [EndEl ''Reject'']"
    using assms by auto
  then show ?thesis using VReject by (simp add: parse_verb_def parseReject_def last_attr_def)
next
  case (VUnknown m)
  then have "n = m" "ts = [EndEl m]" "n \<notin> {''Connect'', ''Dial'', ''Hangup'', ''Redirect'', ''Reject''}"
    using assms by auto
  then show ?thesis using VUnknown by (simp add: parse_verb_def)
qed

lemma emit_verb_start: "\<exists>n as ts. emit_verb v = StartEl n as # ts"
  by (cases v) auto

lemma parse_children_emit:
  assumes "list_all verb_wf vs"
  shows "parseResponseChildren err acc (concat (map emit_verb vs) @ [EndEl ''Response'']) = Inr (acc @ vs)"
  using assms
proof (induction vs arbitrary: acc)
  case (Cons v vs)
  obtain n as ts where e: "emit_verb v = StartEl n as # ts" using emit_verb_start by blast
  show ?case
    using Cons parse_verb_emit[OF _ e, of err] by (simp add: e)
qed simp

definition is_start :: "xml_tok \<Rightarrow> bool" where
  "is_start t \<longleftrightarrow> (case t of StartEl n as \<Rightarrow> True | _ \<Rightarrow> False)"

lemma parseResponseChildren_after:
  assumes "list_all verb_wf vs"
  shows "parseResponseChildren err acc (concat (map emit_verb vs) @ EndEl ''Response'' # post) = Inr (acc @ vs)"
  using assms
proof (induction vs arbitrary: acc)
  case (Cons v vs)
  obtain n as ts where e: "emit_verb v = StartEl n as # ts" using emit_verb_start by blast
  show ?case
    using Cons parse_verb_emit[OF _ e, of err] by (simp add: e)
qed simp

lemma parse_root_prolog:
  "list_all (\<lambda>t. \<not> is_start t) pre \<Longrightarrow> parse_root fin (pre @ ts) = parse_root fin ts"
  by (induction pre) (auto simp: is_start_def split: xml_tok.splits)

text \<open>C25. Parsing is the inverse of writing: for every document of well-formed
  verbs (known verbs with any attributes, \<^verbatim>\<open><Number>\<close> overrides, unsupported
  children, streams with parameters, and unknown verbs), the parser returns
  exactly that document from its tokens, whatever precedes the root element
  and follows the document; and every failure carries the code 12100.\<close>

theorem Parse_roundtrip:
  assumes "list_all verb_wf vs" "list_all (\<lambda>t. \<not> is_start t) pre" "body \<noteq> ''''"
    and "tokens body = (pre @ emit_doc vs @ post, fin)"
  shows "Parse tokens body = Inr vs \<and> (\<forall>b c m. Parse tokens b = Inl (TwimlError c m) \<longrightarrow> c = 12100)"
  using assms parseResponseChildren_after[OF assms(1), of "xml_err fin" "[]" post] Parse_code
  by (auto simp: Parse_def parse_root_prolog emit_doc_def)

definition demo_dial :: dial where
  "demo_dial = empty_dial\<lparr> d_NumberText := ''+4930555'', d_Timeout := Some 20, d_StatusCallbackEvents := [''answered'', ''completed''] \<rparr>"

theorem Parse_roundtrip_witness:
  "Parse (\<lambda>b. ([OtherTok] @ emit_doc [VDial demo_dial, VUnknown ''Say'', VHangup] @ [], XmlEOF)) ''<Response>'' =
     Inr [VDial demo_dial, VUnknown ''Say'', VHangup]"
  using Parse_roundtrip[of "[VDial demo_dial, VUnknown ''Say'', VHangup]" "[OtherTok]" "''<Response>''"
      "\<lambda>b. ([OtherTok] @ emit_doc [VDial demo_dial, VUnknown ''Say'', VHangup] @ [], XmlEOF)" "[]" XmlEOF]
  by (simp add: demo_dial_def empty_dial_def opt_int_ok_def int64_ok_def events_ok_def
      validStatusCallbackEvent_def is_start_def)

lemma ParseStatusCallbackEvents_valid:
  "ParseStatusCallbackEvents raw = Inr evs \<Longrightarrow> list_all validStatusCallbackEvent evs"
  by (auto simp: ParseStatusCallbackEvents_def Let_def find_None_iff list_all_iff split: option.splits)

section \<open>Dispatch\<close>

text \<open>The interface \<^verbatim>\<open>DialTarget\<close> as a record of operations on a world \<open>'w\<close>
  with handles \<open>'h\<close>; errors are messages.  Performing a dial does not return while the
  dialog is up: then it is \<^const>\<open>None\<close>, and so is the walk that waits for it.
  Durations are nanoseconds in \<^verbatim>\<open>int64\<close>.\<close>

record dial_opts =
  o_CallerID :: string
  o_Timeout :: int
  o_TimeLimit :: int
  o_HangupOnStar :: bool
  o_Action :: string
  o_Method :: string
  o_StatusCallback :: string
  o_StatusCallbackMethod :: string
  o_StatusCallbackEvents :: "string list"

record dial_result =
  r_Status :: string
  r_Reason :: string
  r_DialCallSid :: string
  r_Duration :: int
  r_SIPFinalCode :: int
  r_DialedTarget :: string

record ('w, 'h) dial_target =
  dt_Terminate :: "string \<Rightarrow> 'w \<Rightarrow> string option \<times> 'w"
  dt_PrepareDial :: "dial_opts \<Rightarrow> 'w \<Rightarrow> (string + 'h) \<times> 'w"
  dt_PerformDial :: "string \<Rightarrow> dial_opts \<Rightarrow> 'h \<Rightarrow> 'w \<Rightarrow> ((dial_result option \<times> string option) \<times> 'w) option"
  dt_Release :: "'h \<Rightarrow> 'w \<Rightarrow> 'w"

definition intPtrOr :: "int option \<Rightarrow> int \<Rightarrow> int" where
  "intPtrOr p dflt = (case p of None \<Rightarrow> dflt | Some n \<Rightarrow> n)"

definition twilioReasonFromDialResult :: "dial_result option \<Rightarrow> string" where
  "twilioReasonFromDialResult r =
    (case r of
       None \<Rightarrow> ''failed''
     | Some d \<Rightarrow>
        (if r_Status d = ''answered'' then ''completed''
         else if r_Status d = ''busy'' then ''busy''
         else if r_Status d = ''no-answer'' then ''no-answer''
         else if r_Status d = ''canceled'' then ''canceled''
         else if r_Status d = ''hangup-star'' then ''completed''
         else ''failed''))"

definition dial_opts_of :: "dial \<Rightarrow> dial_opts" where
  "dial_opts_of d =
    (let pick = (\<lambda>parent sel. case d_Number d of None \<Rightarrow> parent | Some n \<Rightarrow> if sel n \<noteq> [] then sel n else parent)
     in \<lparr> o_CallerID = d_CallerID d,
          o_Timeout = i64 (intPtrOr (d_Timeout d) 30 * 1000000000),
          o_TimeLimit = i64 (intPtrOr (d_TimeLimit d) 14400 * 1000000000),
          o_HangupOnStar = d_HangupOnStar d, o_Action = d_Action d, o_Method = d_Method d,
          o_StatusCallback = pick (d_StatusCallback d) nb_StatusCallback,
          o_StatusCallbackMethod = pick (d_StatusCallbackMethod d) nb_StatusCallbackMethod,
          o_StatusCallbackEvents =
            (case d_Number d of None \<Rightarrow> d_StatusCallbackEvents d
             | Some n \<Rightarrow> if nb_StatusCallbackEvents n \<noteq> [] then nb_StatusCallbackEvents n else d_StatusCallbackEvents d) \<rparr>)"

definition dialHandler :: "('w, 'h) dial_target \<Rightarrow> dial \<Rightarrow> 'w \<Rightarrow> (string option \<times> 'w) option" where
  "dialHandler t d w =
    (let target = fst (ResolveDialTarget d) in
     if target = '''' then Some (None, w)
     else
       let opts = dial_opts_of d; (h, w1) = dt_PrepareDial t opts w in
       case h of
         Inl e \<Rightarrow> Some (dt_Terminate t ''failed'' w1)
       | Inr handle \<Rightarrow>
           (case dt_PerformDial t target opts handle w1 of
              None \<Rightarrow> None
            | Some ((res, err), w2) \<Rightarrow>
                (let (e, w3) = dt_Terminate t (twilioReasonFromDialResult res) w2
                 in Some (e, dt_Release t handle w3))))"

definition hangupHandler :: "('w, 'h) dial_target \<Rightarrow> 'w \<Rightarrow> string option \<times> 'w" where
  "hangupHandler t w = dt_Terminate t ''hangup'' w"

text \<open>The walk over the verbs; \<open>full\<close> says that the target implements
  \<^verbatim>\<open>DialTarget\<close> and not only \<^verbatim>\<open>MidCallTarget\<close>.\<close>

fun Dispatch :: "bool \<Rightarrow> ('w, 'h) dial_target \<Rightarrow> verb list \<Rightarrow> 'w \<Rightarrow> (string option \<times> 'w) option" where
  "Dispatch full t [] w = Some (None, w)"
| "Dispatch full t (v # vs) w =
    (case v of
       VHangup \<Rightarrow> Some (hangupHandler t w)
     | VDial d \<Rightarrow> if \<not> full then Dispatch full t vs w else dialHandler t d w
     | _ \<Rightarrow> Dispatch full t vs w)"

text \<open>What a document does to a call is what its first effective verb does.\<close>

fun first_effect :: "verb list \<Rightarrow> verb option" where
  "first_effect [] = None"
| "first_effect (v # vs) =
    (case v of VHangup \<Rightarrow> Some v | VDial d \<Rightarrow> Some v | _ \<Rightarrow> first_effect vs)"

lemma Dispatch_first_effect:
  "Dispatch True t vs w =
    (case first_effect vs of
       Some (VDial d) \<Rightarrow> dialHandler t d w
     | Some v \<Rightarrow> Some (hangupHandler t w)
     | None \<Rightarrow> Some (None, w))"
  by (induction vs rule: first_effect.induct) (auto split: verb.split)

text \<open>The contract of a dial target: \<open>held\<close> counts the resources the call holds
  for dials.  A failed preparation holds nothing more; a successful one holds one
  more until its handle is released; terminating and dialling change nothing.\<close>

locale dial_resources =
  fixes t :: "('w, 'h) dial_target"
    and held :: "'w \<Rightarrow> int multiset"
    and port_of :: "'h \<Rightarrow> int"
    and ok :: "'w \<Rightarrow> bool"
  assumes prepare_fail: "ok w \<Longrightarrow> dt_PrepareDial t opts w = (Inl e, w') \<Longrightarrow> ok w' \<and> held w' = held w"
    and prepare_ok: "ok w \<Longrightarrow> dt_PrepareDial t opts w = (Inr h, w') \<Longrightarrow>
      ok w' \<and> held w' = add_mset (port_of h) (held w)"
    and perform_keeps: "ok w \<Longrightarrow> dt_PerformDial t target opts h w = Some (r, w') \<Longrightarrow> ok w' \<and> held w' = held w"
    and terminate_keeps: "ok w \<Longrightarrow> dt_Terminate t reason w = (err, w') \<Longrightarrow> ok w' \<and> held w' = held w"
    and release_frees: "ok w \<Longrightarrow> held w = add_mset (port_of h) M \<Longrightarrow>
      ok (dt_Release t h w) \<and> held (dt_Release t h w) = M"
begin

lemma dialHandler_no_leak:
  assumes "ok w" "dialHandler t d w = Some (e, w')"
  shows "ok w' \<and> held w' = held w"
proof (cases "fst (ResolveDialTarget d) = ''''")
  case True
  then show ?thesis using assms by (simp add: dialHandler_def)
next
  case False
  obtain h w1 where prep: "dt_PrepareDial t (dial_opts_of d) w = (h, w1)" by fastforce
  show ?thesis
  proof (cases h)
    case (Inl err)
    then have "dt_Terminate t ''failed'' w1 = (e, w')"
      using assms(2) False prep by (simp add: dialHandler_def)
    with prepare_fail[OF assms(1) prep[unfolded Inl]] terminate_keeps show ?thesis by metis
  next
    case (Inr handle)
    obtain res err w2 where perf:
        "dt_PerformDial t (fst (ResolveDialTarget d)) (dial_opts_of d) handle w1 = Some ((res, err), w2)"
      using assms(2) False prep Inr by (auto simp: dialHandler_def Let_def split: option.splits)
    obtain e' w3 where trm: "dt_Terminate t (twilioReasonFromDialResult res) w2 = (e', w3)" by fastforce
    have "w' = dt_Release t handle w3"
      using assms(2) False prep Inr perf trm by (simp add: dialHandler_def)
    moreover have "ok w3 \<and> held w3 = add_mset (port_of handle) (held w)"
      using prepare_ok[OF assms(1) prep[unfolded Inr]] perform_keeps[OF _ perf] terminate_keeps[OF _ trm] by simp
    ultimately show ?thesis using release_frees[of w3 handle "held w"] by blast
  qed
qed

lemma Dispatch_no_leak:
  assumes "ok w" "Dispatch full t vs w = Some (e, w')"
  shows "ok w' \<and> held w' = held w"
  using assms
proof (induction vs)
  case (Cons v vs)
  then show ?case
    by (cases v) (auto simp: hangupHandler_def dest: terminate_keeps dialHandler_no_leak split: if_splits)
qed simp

end

end
