(* ===== verification/Call_Session.thy ===== *)
theory Call_Session
  imports Status_Client Subscription Identity
begin

text \<open>
  The call session of \<^verbatim>\<open>bridge/session.go\<close>, its legs (\<^verbatim>\<open>bridge/leg.go\<close>) and its
  lifecycle states (\<^verbatim>\<open>bridge/state.go\<close>): construction of the callee leg, the
  privacy gate \<^verbatim>\<open>CloseStream\<close>, the activation of the relay \<^verbatim>\<open>OnAnswered\<close>, the status
  of the call, and its termination with the terminal status callback.  What a
  session does to the outside (frames on the WebSocket, BYEs, callbacks handed
  to the status client, the drain it starts) is the list \<open>s_log\<close>, in order.
  Times are nanoseconds; the clock and the rendering of time stamps are
  arguments.  The media goroutines are in the theory \<open>Media\<close>.
\<close>

section \<open>States\<close>

datatype call_state = StateDispatching | StateStreaming | StateForwardingSetup | StateForwarding
  | StateRedirected | StateHungUp | StateTerminated | StateDialingOut

fun State_String :: "call_state \<Rightarrow> string" where
  "State_String StateDispatching = ''dispatching''"
| "State_String StateStreaming = ''streaming''"
| "State_String StateForwardingSetup = ''forwarding-setup''"
| "State_String StateForwarding = ''forwarding''"
| "State_String StateRedirected = ''redirected''"
| "State_String StateHungUp = ''hung-up''"
| "State_String StateTerminated = ''terminated''"
| "State_String StateDialingOut = ''dialing-out''"

section \<open>Data\<close>

text \<open>A frame for the RTP writer: audio bytes, or a mark sentinel; a nil audio
  slice is \<^const>\<open>None\<close>.\<close>

record outbound_frame =
  f_audio :: "byte list option"
  f_mark :: string

record leg =
  l_hasDialog :: bool
  l_rtpPort :: int
  l_remoteRTP :: "(string \<times> int) option"
  l_dtmfPT :: nat
  l_audioPT :: nat
  l_silenceFrame :: "byte list option"
  l_mediaEncoding :: string
  l_mediaSampleRate :: int
  l_packetQueue :: "outbound_frame chan option"
  l_rtpInboundQueue :: "byte list chan option"
  l_lastDtmfTS :: "32 word"
  l_byeOnce :: bool
  l_outboundQueue :: "outbound_frame chan option"
  l_isOutbound :: bool
  l_contactIP :: string
  l_hasSession :: bool

record terminal_state =
  t_endTime :: int
  t_termReason :: string

record status_callback_config =
  scb_URL :: string
  scb_Method :: string
  scb_Events :: "string set"
  scb_Trusted :: bool

datatype ws_frame = WsConnected | WsStart | WsStop | WsMedia "byte list" "32 word" | WsDtmf string "32 word" | WsMark string "32 word"

datatype session_effect =
    SendWS ws_frame
  | CloseWS
  | SendBye nat
  | EnqueueCallback string callback_event
  | DrainCallbacks string

record call_session =
  s_callID :: string
  s_callSid :: string
  s_accountSid :: string
  s_from :: string
  s_to :: string
  s_startTime :: int
  s_terminal :: "terminal_state option"
  s_statusCallback :: "status_callback_config option"
  s_seqCounter :: "64 word"
  s_answeredAt :: "int option"
  s_sipFinalCode :: int
  s_everEmitted :: bool
  s_hasStatusWC :: bool
  s_state :: call_state
  s_legs :: "leg option list"
  s_dtmfQueue :: "string chan"
  s_markEchoQueue :: "string chan"
  s_clearSignal :: bool
  s_running :: bool
  s_cancelled :: bool
  s_wsCancelled :: bool
  s_hasWsConn :: bool
  s_streamClosed :: bool
  s_stopReason :: string
  s_closeStreamOnce :: bool
  s_terminateOnce :: bool
  s_log :: "session_effect list"

definition packetQueueSize :: nat where "packetQueueSize = 500"
definition rtpInboundQueueSize :: nat where "rtpInboundQueueSize = 50"

definition session_do :: "session_effect \<Rightarrow> call_session \<Rightarrow> call_session" where
  "session_do e s = s\<lparr> s_log := s_log s @ [e] \<rparr>"

definition state_cas :: "call_state \<Rightarrow> call_state \<Rightarrow> call_session \<Rightarrow> call_session" where
  "state_cas old new s = (if s_state s = old then s\<lparr> s_state := new \<rparr> else s)"

section \<open>Legs\<close>

definition primary :: "call_session \<Rightarrow> leg option" where
  "primary s = (if length (s_legs s) = 0 then None else s_legs s ! 0)"

definition CalleeLeg :: "call_session \<Rightarrow> leg option" where
  "CalleeLeg s = (if length (s_legs s) \<le> 1 then None else s_legs s ! 1)"

definition peerLeg :: "call_session \<Rightarrow> nat \<Rightarrow> leg option" where
  "peerLeg s idx =
    (if idx = 0 then (if length (s_legs s) > 1 then s_legs s ! 1 else None)
     else if idx = 1 then (if length (s_legs s) > 0 then s_legs s ! 0 else None)
     else None)"

definition SetLeg :: "int \<Rightarrow> leg option \<Rightarrow> call_session \<Rightarrow> call_session" where
  "SetLeg idx lg s =
    (if idx < 0 \<or> idx > 100 then s
     else
       let i = nat idx;
           grown = (if i \<ge> length (s_legs s) then s_legs s @ replicate (i + 1 - length (s_legs s)) None else s_legs s);
           lg' = map_option (\<lambda>l. l\<lparr> l_hasSession := True \<rparr>) lg
       in s\<lparr> s_legs := grown[i := lg'] \<rparr>)"

definition pcmuSilenceFrame :: "byte list" where
  "pcmuSilenceFrame = replicate 160 0xFF"

definition NewCalleeLeg :: "int \<Rightarrow> string \<Rightarrow> leg" where
  "NewCalleeLeg rtpPort contactIP =
    \<lparr> l_hasDialog = False, l_rtpPort = rtpPort, l_remoteRTP = None, l_dtmfPT = 0, l_audioPT = 0,
      l_silenceFrame = None, l_mediaEncoding = '''', l_mediaSampleRate = 0, l_packetQueue = None,
      l_rtpInboundQueue = None, l_lastDtmfTS = 0, l_byeOnce = False,
      l_outboundQueue = Some (chan_make packetQueueSize), l_isOutbound = True, l_contactIP = contactIP,
      l_hasSession = False \<rparr>"

definition update_leg :: "nat \<Rightarrow> (leg \<Rightarrow> leg) \<Rightarrow> call_session \<Rightarrow> call_session" where
  "update_leg i f s = (if i < length (s_legs s) then s\<lparr> s_legs := (s_legs s)[i := map_option f (s_legs s ! i)] \<rparr> else s)"

text \<open>One BYE per leg through \<^verbatim>\<open>leg.bye\<close>: \<open>bye_err\<close> is what the SIP stack returns
  for the leg.\<close>

definition leg_bye :: "(nat \<Rightarrow> string option) \<Rightarrow> nat \<Rightarrow> call_session \<Rightarrow> string option \<times> call_session" where
  "leg_bye bye_err i s =
    (if i < length (s_legs s) then
       (case s_legs s ! i of
          None \<Rightarrow> (None, s)
        | Some l \<Rightarrow>
           (if l_byeOnce l then (None, s)
            else
              let s1 = update_leg i (\<lambda>l. l\<lparr> l_byeOnce := True \<rparr>) s
              in if l_hasDialog l then (bye_err i, session_do (SendBye i) s1) else (None, s1)))
     else (None, s))"

section \<open>Status of the call\<close>

definition SetStatusCallback :: "status_callback_config option \<Rightarrow> call_session \<Rightarrow> call_session" where
  "SetStatusCallback cfg s = s\<lparr> s_statusCallback := cfg \<rparr>"

definition NextSequenceNumber :: "call_session \<Rightarrow> 64 word \<times> call_session" where
  "NextSequenceNumber s = (s_seqCounter s, s\<lparr> s_seqCounter := s_seqCounter s + 1 \<rparr>)"

definition SetAnsweredAt :: "int \<Rightarrow> call_session \<Rightarrow> call_session" where
  "SetAnsweredAt t s = (case s_answeredAt s of None \<Rightarrow> s\<lparr> s_answeredAt := Some t \<rparr> | Some _ \<Rightarrow> s)"

definition SetSIPFinalCode :: "int \<Rightarrow> call_session \<Rightarrow> call_session" where
  "SetSIPFinalCode code s =
    (if code = 0 then s else if s_sipFinalCode s = 0 then s\<lparr> s_sipFinalCode := i32 code \<rparr> else s)"

definition MarkEmitted :: "call_session \<Rightarrow> bool \<times> call_session" where
  "MarkEmitted s = (\<not> s_everEmitted s, s\<lparr> s_everEmitted := True \<rparr>)"

definition EndTime :: "call_session \<Rightarrow> int option" where
  "EndTime s = map_option t_endTime (s_terminal s)"

definition go_seconds :: "int \<Rightarrow> int" where
  "go_seconds d = (if d \<ge> 0 then d div 1000000000 else - ((- d) div 1000000000))"

definition Duration :: "call_session \<Rightarrow> int" where
  "Duration s = (case s_terminal s of None \<Rightarrow> 0 | Some t \<Rightarrow> go_seconds (t_endTime t - s_startTime s))"

definition twilioStatusFromTermReason :: "string \<Rightarrow> string" where
  "twilioStatusFromTermReason reason =
    (if reason = ''busy'' then ''busy''
     else if reason = ''no-answer'' then ''no-answer''
     else if reason = ''canceled'' then ''canceled''
     else if reason = ''failed'' then ''failed''
     else ''completed'')"

definition Status :: "call_session \<Rightarrow> string" where
  "Status s =
    (case s_terminal s of
       Some t \<Rightarrow> twilioStatusFromTermReason (t_termReason t)
     | None \<Rightarrow>
        (case s_state s of
           StateDispatching \<Rightarrow> ''queued''
         | StateHungUp \<Rightarrow> ''completed''
         | StateTerminated \<Rightarrow> ''completed''
         | _ \<Rightarrow> ''in-progress''))"

definition defaultSIPCodeForReason :: "string \<Rightarrow> int" where
  "defaultSIPCodeForReason reason =
    (if reason = ''canceled'' then 487
     else if reason = ''busy'' then 486
     else if reason = ''no-answer'' then 408
     else if reason = ''failed'' then 500
     else 200)"

definition IsActive :: "call_session \<Rightarrow> bool" where
  "IsActive s \<longleftrightarrow> s_state s \<noteq> StateTerminated \<and> s_state s \<noteq> StateHungUp"

section \<open>Termination\<close>

text \<open>The form of the terminal callback.\<close>

definition ceil_minutes :: "int \<Rightarrow> int" where
  "ceil_minutes d = (d + 59999999999) div 60000000000"

definition terminal_form :: "(int \<Rightarrow> string) \<Rightarrow> call_session \<Rightarrow> string \<Rightarrow> int \<Rightarrow> 64 word \<Rightarrow> url_values" where
  "terminal_form rfc1123z s callStatus endTime seq =
    [(''CallSid'', [s_callSid s]), (''AccountSid'', [s_accountSid s]), (''From'', [s_from s]), (''To'', [s_to s]),
     (''Caller'', [s_from s]), (''Called'', [s_to s]), (''Direction'', [''inbound'']),
     (''ApiVersion'', [''2010-04-01'']), (''CallStatus'', [callStatus]), (''Timestamp'', [rfc1123z endTime]),
     (''SequenceNumber'', [nat_digits (unat seq)]), (''CallbackSource'', [''call-progress-events''])] @
    (case s_answeredAt s of
       None \<Rightarrow> []
     | Some at \<Rightarrow>
        (let dur = (if endTime - at < 0 then 0 else endTime - at)
         in [(''CallDuration'', [itoa (go_seconds dur)]), (''Duration'', [itoa (ceil_minutes dur)])])) @
    (if s_sipFinalCode s > 0 then [(''SipResponseCode'', [itoa (s_sipFinalCode s)])] else [])"

definition emitTerminalStatusCallback :: "(int \<Rightarrow> string) \<Rightarrow> string \<Rightarrow> int \<Rightarrow> call_session \<Rightarrow> call_session" where
  "emitTerminalStatusCallback rfc1123z reason endTime s =
    (if \<not> s_hasStatusWC s then s
     else case s_statusCallback s of
       None \<Rightarrow> s
     | Some cfg \<Rightarrow>
        (let callStatus = twilioStatusFromTermReason reason;
             (eventName, ok) = ResolveEventName (scb_Events cfg) callStatus
         in if \<not> ok then s
            else
              let (seq, s1) = NextSequenceNumber s;
                  evt = \<lparr> cb_url = scb_URL cfg,
                          cb_method = (if scb_Method cfg = '''' then ''POST'' else scb_Method cfg),
                          cb_form = terminal_form rfc1123z s callStatus endTime seq,
                          cb_event = eventName, cb_trusted = scb_Trusted cfg \<rparr>;
                  (_, s2) = MarkEmitted s1
              in session_do (EnqueueCallback (s_callSid s) evt) s2))"

definition markTerminated :: "(int \<Rightarrow> string) \<Rightarrow> int \<Rightarrow> string \<Rightarrow> call_session \<Rightarrow> call_session" where
  "markTerminated rfc1123z now reason s =
    (if s_terminateOnce s then s
     else
       let s1 = s\<lparr> s_terminateOnce := True, s_terminal := Some \<lparr> t_endTime = now, t_termReason = reason \<rparr> \<rparr>;
           s2 = (if s_sipFinalCode s1 = 0 then s1\<lparr> s_sipFinalCode := defaultSIPCodeForReason reason \<rparr> else s1);
           s3 = emitTerminalStatusCallback rfc1123z reason now s2
       in if s_hasStatusWC s3 then session_do (DrainCallbacks (s_callSid s3)) s3 else s3)"

fun bye_all :: "(nat \<Rightarrow> string option) \<Rightarrow> nat list \<Rightarrow> call_session \<Rightarrow> string option \<times> call_session" where
  "bye_all bye_err [] s = (None, s)"
| "bye_all bye_err (i # is) s =
    (let (e, s1) = leg_bye bye_err i s; (e', s2) = bye_all bye_err is s1
     in (if e = None then e' else e, s2))"

text \<open>The contexts of a session exist once \<^verbatim>\<open>run\<close> has made them (\<open>s_running\<close>): a
  cancellation before that is skipped, and a cancelled session context cancels
  the context of the WebSocket goroutines derived from it.\<close>

definition cancel_ctx :: "call_session \<Rightarrow> call_session" where
  "cancel_ctx s = (if s_running s then s\<lparr> s_cancelled := True, s_wsCancelled := True \<rparr> else s)"

definition Terminate :: "(int \<Rightarrow> string) \<Rightarrow> (nat \<Rightarrow> string option) \<Rightarrow> int \<Rightarrow> string \<Rightarrow> call_session \<Rightarrow>
    string option \<times> call_session" where
  "Terminate rfc1123z bye_err now reason s =
    (let s1 = markTerminated rfc1123z now reason s;
         s2 = state_cas StateForwarding StateTerminated
                (state_cas StateDialingOut StateTerminated (state_cas StateStreaming StateTerminated s1));
         s3 = cancel_ctx s2
     in bye_all bye_err [0..<length (s_legs s3)] s3)"

section \<open>The privacy gate and the relay\<close>

text \<open>By the time \<^verbatim>\<open>CloseStream\<close> writes the stop frame both WebSocket goroutines
  have returned; the body runs once.\<close>

definition CloseStream :: "string \<Rightarrow> call_session \<Rightarrow> call_session" where
  "CloseStream reason s =
    (if s_closeStreamOnce s then s
     else
       let s1 = s\<lparr> s_closeStreamOnce := True, s_stopReason := reason, s_streamClosed := True \<rparr>;
           s2 = state_cas StateStreaming StateDialingOut s1;
           s3 = (if s_running s2 then s2\<lparr> s_wsCancelled := True \<rparr> else s2)
       in if s_hasWsConn s3 then session_do CloseWS (session_do (SendWS WsStop) s3) else s3)"

datatype answered_error = NoSessionBackref | RtpPortNotSet | RemoteRTPNotSet | ListenUDPFailed

text \<open>\<^verbatim>\<open>OnAnswered\<close> of the callee leg, \<open>legs[1]\<close>; \<open>listen_ok\<close> says whether the UDP
  socket could be opened.\<close>

definition OnAnswered :: "bool \<Rightarrow> call_session \<Rightarrow> answered_error option \<times> call_session" where
  "OnAnswered listen_ok s =
    (case CalleeLeg s of
       None \<Rightarrow> (Some NoSessionBackref, s)
     | Some l \<Rightarrow>
        (if \<not> l_hasSession l then (Some NoSessionBackref, s)
         else if l_rtpPort l \<le> 0 then (Some RtpPortNotSet, s)
         else if l_remoteRTP l = None then (Some RemoteRTPNotSet, s)
         else if \<not> listen_ok then (Some ListenUDPFailed, s)
         else (None, state_cas StateDialingOut StateForwarding s)))"

section \<open>Runs of a session\<close>

text \<open>The control operations of a session in any order, as the SIP handlers, the
  REST API, the forwarder and the media goroutines call them.  \<open>OpStart\<close> is
  the store of \<^verbatim>\<open>StateStreaming\<close> by \<^verbatim>\<open>StartSession\<close>.\<close>

datatype session_op =
    OpStart
  | OpSetStatusCallback "status_callback_config option"
  | OpNextSeq
  | OpSetAnsweredAt int
  | OpSetSIPFinalCode int
  | OpMarkEmitted
  | OpMarkTerminated int string
  | OpTerminate int string
  | OpCloseStream string
  | OpOnAnswered bool
  | OpSetLeg int "leg option"
  | OpLegBye nat

record session_env =
  se_rfc1123z :: "int \<Rightarrow> string"
  se_bye_err :: "nat \<Rightarrow> string option"

fun session_exec :: "session_env \<Rightarrow> session_op \<Rightarrow> call_session \<Rightarrow> call_session" where
  "session_exec env OpStart s = s\<lparr> s_state := StateStreaming \<rparr>"
| "session_exec env (OpSetStatusCallback cfg) s = SetStatusCallback cfg s"
| "session_exec env OpNextSeq s = snd (NextSequenceNumber s)"
| "session_exec env (OpSetAnsweredAt t) s = SetAnsweredAt t s"
| "session_exec env (OpSetSIPFinalCode c) s = SetSIPFinalCode c s"
| "session_exec env OpMarkEmitted s = snd (MarkEmitted s)"
| "session_exec env (OpMarkTerminated now r) s = markTerminated (se_rfc1123z env) now r s"
| "session_exec env (OpTerminate now r) s = snd (Terminate (se_rfc1123z env) (se_bye_err env) now r s)"
| "session_exec env (OpCloseStream r) s = CloseStream r s"
| "session_exec env (OpOnAnswered ok) s = snd (OnAnswered ok s)"
| "session_exec env (OpSetLeg i l) s = SetLeg i l s"
| "session_exec env (OpLegBye i) s = snd (leg_bye (se_bye_err env) i s)"

definition session_run :: "session_env \<Rightarrow> session_op list \<Rightarrow> call_session \<Rightarrow> call_session" where
  "session_run env ops s = fold (session_exec env) ops s"

fun first_term :: "session_op list \<Rightarrow> (int \<times> string) option" where
  "first_term [] = None"
| "first_term (op # ops) =
    (case op of OpMarkTerminated t r \<Rightarrow> Some (t, r) | OpTerminate t r \<Rightarrow> Some (t, r) | _ \<Rightarrow> first_term ops)"

fun is_callback :: "session_effect \<Rightarrow> bool" where
  "is_callback (EnqueueCallback c e) = True"
| "is_callback (DrainCallbacks c) = True"
| "is_callback _ = False"

fun is_ws :: "session_effect \<Rightarrow> bool" where
  "is_ws (SendWS f) = True"
| "is_ws CloseWS = True"
| "is_ws _ = False"

definition callback_log :: "call_session \<Rightarrow> session_effect list" where
  "callback_log s = filter is_callback (s_log s)"

definition ws_log :: "call_session \<Rightarrow> session_effect list" where
  "ws_log s = filter is_ws (s_log s)"

definition byes :: "nat \<Rightarrow> call_session \<Rightarrow> nat" where
  "byes i s = length (filter (\<lambda>e. e = SendBye i) (s_log s))"

definition new_session :: "string \<Rightarrow> string \<Rightarrow> string \<Rightarrow> string \<Rightarrow> string \<Rightarrow> int \<Rightarrow> bool \<Rightarrow> leg \<Rightarrow> call_session" where
  "new_session callID callSid accountSid from to startTime hasWC lg =
    \<lparr> s_callID = callID, s_callSid = callSid, s_accountSid = accountSid, s_from = from, s_to = to,
      s_startTime = startTime, s_terminal = None, s_statusCallback = None, s_seqCounter = 0,
      s_answeredAt = None, s_sipFinalCode = 0, s_everEmitted = False, s_hasStatusWC = hasWC,
      s_state = StateDispatching, s_legs = [Some (lg\<lparr> l_byeOnce := False \<rparr>)],
      s_dtmfQueue = chan_make 10, s_markEchoQueue = chan_make 10, s_clearSignal = False, s_running = True, s_cancelled = False,
      s_wsCancelled = False, s_hasWsConn = True, s_streamClosed = False, s_stopReason = '''',
      s_closeStreamOnce = False, s_terminateOnce = False, s_log = [] \<rparr>"

lemma session_do_simps [simp]:
  "s_log (session_do e s) = s_log s @ [e]" "s_terminal (session_do e s) = s_terminal s"
  "s_terminateOnce (session_do e s) = s_terminateOnce s" "s_hasStatusWC (session_do e s) = s_hasStatusWC s"
  "s_callSid (session_do e s) = s_callSid s" "s_state (session_do e s) = s_state s"
  "s_legs (session_do e s) = s_legs s" "s_streamClosed (session_do e s) = s_streamClosed s"
  "s_closeStreamOnce (session_do e s) = s_closeStreamOnce s" "s_wsCancelled (session_do e s) = s_wsCancelled s"
  "s_cancelled (session_do e s) = s_cancelled s" "s_statusCallback (session_do e s) = s_statusCallback s"
  "s_running (session_do e s) = s_running s" "s_hasWsConn (session_do e s) = s_hasWsConn s" "s_seqCounter (session_do e s) = s_seqCounter s"
  by (simp_all add: session_do_def)

lemma state_cas_frame [simp]:
  "s_log (state_cas x y s) = s_log s" "s_legs (state_cas x y s) = s_legs s" "s_terminal (state_cas x y s) = s_terminal s"
  "s_terminateOnce (state_cas x y s) = s_terminateOnce s" "s_hasStatusWC (state_cas x y s) = s_hasStatusWC s"
  "s_closeStreamOnce (state_cas x y s) = s_closeStreamOnce s" "s_hasWsConn (state_cas x y s) = s_hasWsConn s"
  "s_streamClosed (state_cas x y s) = s_streamClosed s" "s_wsCancelled (state_cas x y s) = s_wsCancelled s"
  "s_cancelled (state_cas x y s) = s_cancelled s" "s_callSid (state_cas x y s) = s_callSid s"
  "s_running (state_cas x y s) = s_running s"
  "s_dtmfQueue (state_cas x y s) = s_dtmfQueue s" "s_markEchoQueue (state_cas x y s) = s_markEchoQueue s"
  by (simp_all add: state_cas_def)

text \<open>Which parts of a session the termination leaves alone.\<close>

lemma emitTerminal_frame [simp]:
  "s_terminal (emitTerminalStatusCallback f r t s) = s_terminal s"
  "s_terminateOnce (emitTerminalStatusCallback f r t s) = s_terminateOnce s"
  "s_hasStatusWC (emitTerminalStatusCallback f r t s) = s_hasStatusWC s"
  "s_callSid (emitTerminalStatusCallback f r t s) = s_callSid s"
  "s_state (emitTerminalStatusCallback f r t s) = s_state s"
  "s_legs (emitTerminalStatusCallback f r t s) = s_legs s"
  "s_closeStreamOnce (emitTerminalStatusCallback f r t s) = s_closeStreamOnce s"
  "s_hasWsConn (emitTerminalStatusCallback f r t s) = s_hasWsConn s"
  "s_streamClosed (emitTerminalStatusCallback f r t s) = s_streamClosed s"
  "s_wsCancelled (emitTerminalStatusCallback f r t s) = s_wsCancelled s"
  "s_running (emitTerminalStatusCallback f r t s) = s_running s"
  by (simp_all add: emitTerminalStatusCallback_def NextSequenceNumber_def MarkEmitted_def Let_def
      split: option.split prod.split)

lemma emitTerminal_log:
  "\<exists>es. s_log (emitTerminalStatusCallback f r t s) = s_log s @ es \<and> length es \<le> 1 \<and>
     (\<forall>e \<in> set es. \<exists>evt. e = EnqueueCallback (s_callSid s) evt)"
  by (auto simp: emitTerminalStatusCallback_def NextSequenceNumber_def MarkEmitted_def Let_def
      split: option.split prod.split)

lemma markTerminated_frame [simp]:
  "s_hasStatusWC (markTerminated f t r s) = s_hasStatusWC s"
  "s_callSid (markTerminated f t r s) = s_callSid s"
  "s_state (markTerminated f t r s) = s_state s"
  "s_legs (markTerminated f t r s) = s_legs s"
  "s_closeStreamOnce (markTerminated f t r s) = s_closeStreamOnce s"
  "s_hasWsConn (markTerminated f t r s) = s_hasWsConn s"
  "s_streamClosed (markTerminated f t r s) = s_streamClosed s"
  "s_wsCancelled (markTerminated f t r s) = s_wsCancelled s" "s_running (markTerminated f t r s) = s_running s"
  "s_terminateOnce (markTerminated f t r s)"
  by (simp_all add: markTerminated_def Let_def)

lemma markTerminated_terminal:
  "s_terminal (markTerminated f t r s) =
    (if s_terminateOnce s then s_terminal s else Some \<lparr> t_endTime = t, t_termReason = r \<rparr>)"
  by (simp add: markTerminated_def Let_def)

lemma markTerminated_log:
  "\<exists>es. s_log (markTerminated f t r s) = s_log s @ es \<and> (s_terminateOnce s \<longrightarrow> es = []) \<and>
     (es = [] \<or> (\<exists>d. es = [DrainCallbacks d] \<and> s_hasStatusWC s) \<or>
      (\<exists>c evt d. es = [EnqueueCallback c evt, DrainCallbacks d] \<and> s_hasStatusWC s)) \<and>
     (es = [] \<longrightarrow> s_terminateOnce s \<or> \<not> s_hasStatusWC s)"
proof (cases "s_terminateOnce s")
  case False
  let ?s1 = "s\<lparr> s_terminateOnce := True, s_terminal := Some \<lparr> t_endTime = t, t_termReason = r \<rparr> \<rparr>"
  let ?s2 = "if s_sipFinalCode ?s1 = 0 then ?s1\<lparr> s_sipFinalCode := defaultSIPCodeForReason r \<rparr> else ?s1"
  obtain es where es: "s_log (emitTerminalStatusCallback f r t ?s2) = s_log ?s2 @ es" "length es \<le> 1"
    "\<forall>e \<in> set es. \<exists>evt. e = EnqueueCallback (s_callSid ?s2) evt"
    using emitTerminal_log[of f r t ?s2] by blast
  have wc: "\<not> s_hasStatusWC s \<Longrightarrow> emitTerminalStatusCallback f r t ?s2 = ?s2"
    by (simp add: emitTerminalStatusCallback_def)
  have len: "es = [] \<or> (\<exists>e. es = [e])" using es(2) by (cases es) auto
  show ?thesis
    using False es len wc by (cases "s_hasStatusWC s") (auto simp: markTerminated_def Let_def)
qed (simp add: markTerminated_def)

lemma cancel_ctx_frame [simp]:
  "s_log (cancel_ctx s) = s_log s" "s_legs (cancel_ctx s) = s_legs s" "s_terminal (cancel_ctx s) = s_terminal s"
  "s_terminateOnce (cancel_ctx s) = s_terminateOnce s" "s_hasStatusWC (cancel_ctx s) = s_hasStatusWC s"
  "s_closeStreamOnce (cancel_ctx s) = s_closeStreamOnce s" "s_hasWsConn (cancel_ctx s) = s_hasWsConn s"
  "s_streamClosed (cancel_ctx s) = s_streamClosed s" "s_running (cancel_ctx s) = s_running s"
  "s_wsCancelled s \<Longrightarrow> s_wsCancelled (cancel_ctx s)" "s_cancelled (cancel_ctx s) \<longleftrightarrow> s_running s \<or> s_cancelled s"
  by (simp_all add: cancel_ctx_def)

lemma leg_bye_frame [simp]:
  "s_terminal (snd (leg_bye b i s)) = s_terminal s" "s_terminateOnce (snd (leg_bye b i s)) = s_terminateOnce s"
  "s_hasStatusWC (snd (leg_bye b i s)) = s_hasStatusWC s" "s_state (snd (leg_bye b i s)) = s_state s"
  "length (s_legs (snd (leg_bye b i s))) = length (s_legs s)"
  "s_closeStreamOnce (snd (leg_bye b i s)) = s_closeStreamOnce s"
  "s_hasWsConn (snd (leg_bye b i s)) = s_hasWsConn s" "s_running (snd (leg_bye b i s)) = s_running s"
  by (auto simp: leg_bye_def update_leg_def Let_def split: option.split)

lemma leg_bye_log: "\<exists>es. s_log (snd (leg_bye b i s)) = s_log s @ es \<and> (\<forall>e \<in> set es. e = SendBye i)"
  by (auto simp: leg_bye_def update_leg_def Let_def split: option.split)

lemma bye_all_frame [simp]:
  "s_terminal (snd (bye_all b is s)) = s_terminal s \<and> s_terminateOnce (snd (bye_all b is s)) = s_terminateOnce s \<and>
   s_hasStatusWC (snd (bye_all b is s)) = s_hasStatusWC s \<and> s_state (snd (bye_all b is s)) = s_state s \<and>
   length (s_legs (snd (bye_all b is s))) = length (s_legs s) \<and>
   s_closeStreamOnce (snd (bye_all b is s)) = s_closeStreamOnce s \<and> s_hasWsConn (snd (bye_all b is s)) = s_hasWsConn s \<and>
   s_running (snd (bye_all b is s)) = s_running s"
proof (induction "is" arbitrary: s)
  case (Cons i "is")
  obtain e s1 where l: "leg_bye b i s = (e, s1)" by fastforce
  obtain e' s2 where r: "bye_all b is s1 = (e', s2)" by fastforce
  show ?case
    using Cons[of s1] leg_bye_frame[of b i s] l r by simp
qed simp

lemma bye_all_log:
  "\<exists>es. s_log (snd (bye_all b is s)) = s_log s @ es \<and> (\<forall>e \<in> set es. \<exists>i. e = SendBye i)"
proof (induction "is" arbitrary: s)
  case (Cons i "is")
  obtain e s1 where l: "leg_bye b i s = (e, s1)" by fastforce
  obtain e' s2 where r: "bye_all b is s1 = (e', s2)" by fastforce
  obtain es where "s_log s2 = s_log s1 @ es" "\<forall>e \<in> set es. \<exists>i. e = SendBye i"
    using Cons[of s1] r by auto
  moreover obtain es' where "s_log s1 = s_log s @ es'" "\<forall>e \<in> set es'. e = SendBye i"
    using leg_bye_log[of b i s] l by auto
  ultimately show ?case using l r by (intro exI[of _ "es' @ es"]) auto
qed simp

definition terminal_callbacks :: "bool \<Rightarrow> session_effect list \<Rightarrow> bool" where
  "terminal_callbacks hasWC es \<longleftrightarrow>
    (if hasWC then (\<exists>d. es = [DrainCallbacks d]) \<or> (\<exists>c evt d. es = [EnqueueCallback c evt, DrainCallbacks d])
     else es = [])"

definition term_inv :: "call_session \<Rightarrow> bool" where
  "term_inv s \<longleftrightarrow> (s_terminateOnce s \<longleftrightarrow> s_terminal s \<noteq> None) \<and>
     (if s_terminateOnce s then terminal_callbacks (s_hasStatusWC s) (callback_log s) else callback_log s = [])"

lemma Terminate_frame:
  "s_terminal (snd (Terminate f b t r s)) = s_terminal (markTerminated f t r s)"
  "s_terminateOnce (snd (Terminate f b t r s))"
  "s_hasStatusWC (snd (Terminate f b t r s)) = s_hasStatusWC s"
  "callback_log (snd (Terminate f b t r s)) = callback_log (markTerminated f t r s)"
  "ws_log (snd (Terminate f b t r s)) = ws_log (markTerminated f t r s)"
  "s_closeStreamOnce (snd (Terminate f b t r s)) = s_closeStreamOnce s"
  "s_hasWsConn (snd (Terminate f b t r s)) = s_hasWsConn s"
  "s_running (snd (Terminate f b t r s)) = s_running s"
proof -
  let ?s1 = "markTerminated f t r s"
  let ?s3 = "cancel_ctx (state_cas StateForwarding StateTerminated (state_cas StateDialingOut StateTerminated
      (state_cas StateStreaming StateTerminated ?s1)))"
  have T: "Terminate f b t r s = bye_all b [0..<length (s_legs ?s3)] ?s3"
    by (simp add: Terminate_def Let_def)
  obtain es where es: "s_log (snd (Terminate f b t r s)) = s_log ?s3 @ es" "\<forall>e \<in> set es. \<exists>i. e = SendBye i"
    unfolding T using bye_all_log by blast
  have none: "filter is_callback es = []" "filter is_ws es = []"
    using es(2) by (auto simp: filter_empty_conv)
  show "s_terminal (snd (Terminate f b t r s)) = s_terminal ?s1" "s_terminateOnce (snd (Terminate f b t r s))"
    "s_hasStatusWC (snd (Terminate f b t r s)) = s_hasStatusWC s"
    "s_closeStreamOnce (snd (Terminate f b t r s)) = s_closeStreamOnce s"
    "s_hasWsConn (snd (Terminate f b t r s)) = s_hasWsConn s"
    "s_running (snd (Terminate f b t r s)) = s_running s"
    unfolding T by simp_all
  show "callback_log (snd (Terminate f b t r s)) = callback_log ?s1" "ws_log (snd (Terminate f b t r s)) = ws_log ?s1"
    by (simp_all add: callback_log_def ws_log_def es(1) none)
qed

lemma markTerminated_inv: "term_inv s \<Longrightarrow> term_inv (markTerminated f t r s)"
proof -
  assume inv: "term_inv s"
  obtain es where es: "s_log (markTerminated f t r s) = s_log s @ es" "s_terminateOnce s \<longrightarrow> es = []"
    "es = [] \<or> (\<exists>d. es = [DrainCallbacks d] \<and> s_hasStatusWC s) \<or>
      (\<exists>c evt d. es = [EnqueueCallback c evt, DrainCallbacks d] \<and> s_hasStatusWC s)"
    "es = [] \<longrightarrow> s_terminateOnce s \<or> \<not> s_hasStatusWC s"
    using markTerminated_log[of f t r s] by blast
  show ?thesis
    using inv es by (auto simp: term_inv_def callback_log_def terminal_callbacks_def markTerminated_terminal)
qed

lemma other_ops_term_frame:
  assumes "\<forall>t r. op \<noteq> OpMarkTerminated t r" "\<forall>t r. op \<noteq> OpTerminate t r"
  shows "s_terminal (session_exec env op s) = s_terminal s \<and>
    s_terminateOnce (session_exec env op s) = s_terminateOnce s \<and>
    s_hasStatusWC (session_exec env op s) = s_hasStatusWC s \<and>
    callback_log (session_exec env op s) = callback_log s"
proof (cases op)
  case (OpLegBye i)
  obtain es where "s_log (snd (leg_bye (se_bye_err env) i s)) = s_log s @ es" "\<forall>e \<in> set es. e = SendBye i"
    using leg_bye_log by blast
  then have "callback_log (snd (leg_bye (se_bye_err env) i s)) = callback_log s"
    by (auto simp: callback_log_def filter_empty_conv)
  then show ?thesis using OpLegBye by simp
next
  case (OpCloseStream r)
  then show ?thesis
    by (simp add: CloseStream_def Let_def state_cas_def callback_log_def)
next
  case (OpOnAnswered ok)
  then show ?thesis
    by (simp add: OnAnswered_def state_cas_def callback_log_def split: option.split)
qed (use assms in \<open>simp_all add: SetStatusCallback_def NextSequenceNumber_def SetAnsweredAt_def SetSIPFinalCode_def
      MarkEmitted_def SetLeg_def callback_log_def Let_def split: option.split\<close>)

lemma session_exec_term:
  assumes "term_inv s"
  shows "term_inv (session_exec env op s) \<and>
    s_hasStatusWC (session_exec env op s) = s_hasStatusWC s \<and>
    s_terminal (session_exec env op s) =
      (case s_terminal s of Some x \<Rightarrow> Some x
       | None \<Rightarrow> map_option (\<lambda>(t, r). \<lparr> t_endTime = t, t_termReason = r \<rparr>) (first_term [op]))"
proof (cases "\<exists>t r. op = OpMarkTerminated t r \<or> op = OpTerminate t r")
  case True
  then obtain t r where op: "op = OpMarkTerminated t r \<or> op = OpTerminate t r" by blast
  let ?m = "markTerminated (se_rfc1123z env) t r s"
  have m: "term_inv ?m" by (rule markTerminated_inv[OF assms])
  have tm: "s_terminal ?m = (case s_terminal s of Some x \<Rightarrow> Some x | None \<Rightarrow> Some \<lparr> t_endTime = t, t_termReason = r \<rparr>)"
    using assms by (auto simp: markTerminated_terminal term_inv_def split: option.split)
  have "term_inv (snd (Terminate (se_rfc1123z env) (se_bye_err env) t r s))"
    using m by (simp add: term_inv_def Terminate_frame)
  then show ?thesis
    using op m tm by (auto simp: Terminate_frame split: option.split)
next
  case False
  then have "first_term [op] = None" by (cases op) auto
  then show ?thesis
    using other_ops_term_frame[of op env s] False assms by (simp add: term_inv_def split: option.split)
qed

lemma first_term_Cons: "first_term (op # ops) = (case first_term [op] of Some x \<Rightarrow> Some x | None \<Rightarrow> first_term ops)"
  by (cases op) simp_all

lemma session_run_term:
  assumes "term_inv s"
  shows "term_inv (session_run env ops s) \<and> s_hasStatusWC (session_run env ops s) = s_hasStatusWC s \<and>
    s_terminal (session_run env ops s) =
      (case s_terminal s of Some x \<Rightarrow> Some x
       | None \<Rightarrow> map_option (\<lambda>(t, r). \<lparr> t_endTime = t, t_termReason = r \<rparr>) (first_term ops))"
  using assms
proof (induction ops arbitrary: s)
  case Nil
  then show ?case by (simp add: session_run_def split: option.split)
next
  case (Cons op ops)
  let ?s = "session_exec env op s"
  have run: "session_run env (op # ops) s = session_run env ops ?s" by (simp add: session_run_def)
  note step = session_exec_term[OF Cons.prems, of env op]
  show ?case
    unfolding run first_term_Cons[of op ops] using Cons.IH[of ?s] step by (auto split: option.splits)
qed

lemma term_inv_new: "term_inv (new_session a b c d e f g h)"
  by (simp add: term_inv_def new_session_def callback_log_def)


definition demo_leg :: leg where
  "demo_leg = (NewCalleeLeg 10000 ''10.0.0.1'')\<lparr> l_hasDialog := True, l_isOutbound := False,
     l_packetQueue := Some (chan_make packetQueueSize), l_rtpInboundQueue := Some (chan_make rtpInboundQueueSize) \<rparr>"

definition demo_senv :: session_env where
  "demo_senv = \<lparr> se_rfc1123z = (\<lambda>t. ''Mon''), se_bye_err = (\<lambda>i. None) \<rparr>"


section \<open>One BYE per leg\<close>

definition leg_info :: "nat \<Rightarrow> call_session \<Rightarrow> (bool \<times> bool) option" where
  "leg_info i s =
    (if i < length (s_legs s) then map_option (\<lambda>l. (l_hasDialog l, l_byeOnce l)) (s_legs s ! i) else None)"

definition bye_inv :: "nat \<Rightarrow> bool \<Rightarrow> call_session \<Rightarrow> bool" where
  "bye_inv i d s \<longleftrightarrow>
    leg_info i s = Some (d, False) \<and> byes i s = 0 \<or> leg_info i s = Some (d, True) \<and> byes i s = (if d then 1 else 0)"

lemma bye_inv_index: "bye_inv i d s \<Longrightarrow> i < length (s_legs s)"
  by (auto simp: bye_inv_def leg_info_def split: if_splits)

lemma leg_info_leg_bye:
  "leg_info i (snd (leg_bye b j s)) =
    (if i = j then map_option (\<lambda>(d, once). (d, True)) (leg_info i s) else leg_info i s)"
  by (auto simp: leg_info_def leg_bye_def update_leg_def Let_def split: option.split)

lemma byes_leg_bye:
  "byes i (snd (leg_bye b j s)) = byes i s + (if i = j \<and> leg_info i s = Some (True, False) then 1 else 0)"
  by (auto simp: leg_info_def leg_bye_def update_leg_def Let_def byes_def split: option.split)

lemma leg_bye_inv: "bye_inv i d s \<Longrightarrow> bye_inv i d (snd (leg_bye b j s))"
  by (auto simp: bye_inv_def leg_info_leg_bye byes_leg_bye)

lemma bye_all_inv:
  "bye_inv i d s \<Longrightarrow> bye_inv i d (snd (bye_all b is s)) \<and>
    (i \<in> set is \<or> leg_info i s = Some (d, True) \<longrightarrow> leg_info i (snd (bye_all b is s)) = Some (d, True))"
proof (induction "is" arbitrary: s)
  case (Cons j "is")
  obtain e s1 where l: "leg_bye b j s = (e, s1)" by fastforce
  obtain e' s2 where r: "bye_all b is s1 = (e', s2)" by fastforce
  have "bye_inv i d s1" using leg_bye_inv[OF Cons.prems, of b j] l by simp
  moreover have "i = j \<or> leg_info i s = Some (d, True) \<Longrightarrow> leg_info i s1 = Some (d, True)"
    using leg_info_leg_bye[of i b j s] Cons.prems l by (auto simp: bye_inv_def split: if_splits)
  ultimately show ?case using Cons.IH[of s1] l r by auto
qed simp

lemma bye_inv_cong:
  assumes "s_legs s' = s_legs s" "s_log s' = s_log s @ es" "\<forall>e \<in> set es. e \<noteq> SendBye i" "bye_inv i d s"
  shows "bye_inv i d s'"
proof -
  have "filter (\<lambda>e. e = SendBye i) es = []" using assms(3) by (simp add: filter_empty_conv)
  then have "byes i s' = byes i s" using assms(2) by (simp add: byes_def)
  moreover have "leg_info i s' = leg_info i s" using assms(1) by (simp add: leg_info_def)
  ultimately show ?thesis using assms(4) by (simp add: bye_inv_def)
qed

lemma markTerminated_bye_inv: "bye_inv i d s \<Longrightarrow> bye_inv i d (markTerminated f t r s)"
proof -
  assume inv: "bye_inv i d s"
  obtain es where es: "s_log (markTerminated f t r s) = s_log s @ es"
    "es = [] \<or> (\<exists>d. es = [DrainCallbacks d]) \<or> (\<exists>c evt d. es = [EnqueueCallback c evt, DrainCallbacks d])"
    using markTerminated_log[of f t r s] by blast
  from es(2) have "\<forall>e \<in> set es. e \<noteq> SendBye i" by (elim disjE exE) simp_all
  from bye_inv_cong[OF markTerminated_frame(4) es(1) this inv] show ?thesis .
qed

lemma Terminate_bye_inv:
  assumes "bye_inv i d s"
  shows "bye_inv i d (snd (Terminate f b t r s)) \<and> leg_info i (snd (Terminate f b t r s)) = Some (d, True)"
proof -
  let ?m = "markTerminated f t r s"
  define s3 where "s3 = cancel_ctx (state_cas StateForwarding StateTerminated (state_cas StateDialingOut StateTerminated
      (state_cas StateStreaming StateTerminated ?m)))"
  have "s_legs s3 = s_legs ?m" "s_log s3 = s_log ?m @ []" by (simp_all add: s3_def)
  then have inv: "bye_inv i d s3"
    using bye_inv_cong[of s3 ?m "[]"] markTerminated_bye_inv[OF assms] by simp
  then have i: "i \<in> set [0..<length (s_legs s3)]" using bye_inv_index by simp
  have T: "Terminate f b t r s = bye_all b [0..<length (s_legs s3)] s3"
    by (simp add: Terminate_def Let_def s3_def)
  show ?thesis
    unfolding T using bye_all_inv[OF inv] i by blast
qed

lemma SetLeg_bye_inv: "bye_inv i d s \<Longrightarrow> j \<noteq> int i \<Longrightarrow> bye_inv i d (SetLeg j l s)"
proof -
  assume a: "bye_inv i d s" "j \<noteq> int i"
  then have "i < length (s_legs s)" by (auto simp: bye_inv_def leg_info_def split: if_splits)
  then have "leg_info i (SetLeg j l s) = leg_info i s"
    using a(2) by (auto simp: leg_info_def SetLeg_def Let_def nth_append nth_list_update)
  moreover have "byes i (SetLeg j l s) = byes i s" by (simp add: byes_def SetLeg_def Let_def)
  ultimately show ?thesis using a by (simp add: bye_inv_def)
qed

lemma session_exec_bye_inv:
  assumes "bye_inv i d s" "\<forall>l. op \<noteq> OpSetLeg (int i) l"
  shows "bye_inv i d (session_exec env op s)"
proof (cases op)
  case (OpMarkTerminated t r)
  then show ?thesis using markTerminated_bye_inv[OF assms(1)] by simp
next
  case (OpTerminate t r)
  then show ?thesis using Terminate_bye_inv[OF assms(1)] by simp
next
  case (OpLegBye j)
  then show ?thesis using leg_bye_inv[OF assms(1)] by simp
next
  case (OpSetLeg j l)
  then show ?thesis using SetLeg_bye_inv[OF assms(1), of j l] assms(2) by auto
next
  case (OpCloseStream r)
  have "s_legs (CloseStream r s) = s_legs s"
    "\<exists>es. s_log (CloseStream r s) = s_log s @ es \<and> (\<forall>e \<in> set es. e \<noteq> SendBye i)"
    by (auto simp: CloseStream_def Let_def state_cas_def)
  then show ?thesis using OpCloseStream bye_inv_cong[OF _ _ _ assms(1)] by auto
next
  case (OpOnAnswered ok)
  have "s_legs (snd (OnAnswered ok s)) = s_legs s" "s_log (snd (OnAnswered ok s)) = s_log s @ []"
    by (auto simp: OnAnswered_def state_cas_def split: option.split)
  then show ?thesis using OpOnAnswered bye_inv_cong[OF _ _ _ assms(1)] by simp
next
  case (OpSetAnsweredAt t)
  then show ?thesis
    using bye_inv_cong[OF _ _ _ assms(1), of "session_exec env op s" "[]"]
    by (cases "s_answeredAt s") (simp_all add: SetAnsweredAt_def)
qed (use bye_inv_cong[OF _ _ _ assms(1), of "session_exec env op s" "[]"] in \<open>simp_all add: SetStatusCallback_def
      NextSequenceNumber_def SetSIPFinalCode_def MarkEmitted_def\<close>)

lemma session_run_bye_inv:
  "bye_inv i d s \<Longrightarrow> (\<forall>l. OpSetLeg (int i) l \<notin> set ops) \<Longrightarrow> bye_inv i d (session_run env ops s)"
  unfolding session_run_def
proof (induction ops arbitrary: s)
  case (Cons op ops)
  then have "bye_inv i d (session_exec env op s)" by (intro session_exec_bye_inv) auto
  with Cons show ?case by simp
qed simp



section \<open>The terminal callback\<close>

lemma terminal_form_keys: "distinct (map fst (terminal_form f s st t seq))"
  by (cases "s_answeredAt s") (simp_all add: terminal_form_def Let_def)

lemma terminal_form_get:
  "form_get (terminal_form f s st t seq) ''CallStatus'' = st"
  "form_get (terminal_form f s st t seq) ''SequenceNumber'' = nat_digits (unat seq)"
  by (simp_all add: terminal_form_def form_get_def)

lemma emitTerminal_emits:
  assumes "s_hasStatusWC s" "s_statusCallback s = Some cfg"
    and "SubscriptionMatches (scb_Events cfg) (twilioStatusFromTermReason reason)"
  shows "\<exists>evt. s_log (emitTerminalStatusCallback f reason now s) = s_log s @ [EnqueueCallback (s_callSid s) evt] \<and>
    cb_url evt = scb_URL cfg \<and> cb_trusted evt = scb_Trusted cfg \<and>
    IsTerminalEvent (cb_event evt) \<and> (scb_Events cfg \<noteq> {} \<longrightarrow> cb_event evt \<in> scb_Events cfg) \<and>
    cb_form evt = terminal_form f s (twilioStatusFromTermReason reason) now (s_seqCounter s)"
proof -
  let ?st = "twilioStatusFromTermReason reason"
  have "IsTerminalEvent ?st"
    by (simp add: twilioStatusFromTermReason_def IsTerminalEvent_def terminalEvents_def)
  moreover obtain ev where ev: "ResolveEventName (scb_Events cfg) ?st = (ev, True)"
    using sub.resolve_iff[of "scb_Events cfg" ?st] assms(3) by (metis prod.collapse)
  ultimately have "IsTerminalEvent ev" "scb_Events cfg \<noteq> {} \<longrightarrow> ev \<in> scb_Events cfg"
    using sub.label_class[OF assms(3)] sub.label_subscribed[OF assms(3)] by simp_all
  then show ?thesis
    using assms(1,2) ev
    by (simp add: emitTerminalStatusCallback_def Let_def NextSequenceNumber_def MarkEmitted_def session_do_def)
qed

lemma markTerminated_emits:
  assumes "\<not> s_terminateOnce s" "s_hasStatusWC s" "s_statusCallback s = Some cfg"
    and "SubscriptionMatches (scb_Events cfg) (twilioStatusFromTermReason reason)"
  shows "\<exists>evt. s_log (markTerminated f now reason s) = s_log s @ [EnqueueCallback (s_callSid s) evt, DrainCallbacks (s_callSid s)] \<and>
    cb_url evt = scb_URL cfg \<and> cb_trusted evt = scb_Trusted cfg \<and>
    IsTerminalEvent (cb_event evt) \<and> (scb_Events cfg \<noteq> {} \<longrightarrow> cb_event evt \<in> scb_Events cfg) \<and>
    form_get (cb_form evt) ''CallStatus'' = twilioStatusFromTermReason reason \<and>
    form_get (cb_form evt) ''SequenceNumber'' = nat_digits (unat (s_seqCounter s)) \<and>
    distinct (map fst (cb_form evt))"
proof -
  define s2 where "s2 = (let s1 = s\<lparr> s_terminateOnce := True, s_terminal := Some \<lparr> t_endTime = now, t_termReason = reason \<rparr> \<rparr>
     in if s_sipFinalCode s1 = 0 then s1\<lparr> s_sipFinalCode := defaultSIPCodeForReason reason \<rparr> else s1)"
  have s2: "s_hasStatusWC s2" "s_statusCallback s2 = Some cfg" "s_log s2 = s_log s" "s_callSid s2 = s_callSid s"
    "s_seqCounter s2 = s_seqCounter s"
    using assms(2,3) by (simp_all add: s2_def Let_def)
  have mt: "markTerminated f now reason s = session_do (DrainCallbacks (s_callSid s)) (emitTerminalStatusCallback f reason now s2)"
    using assms(1) s2(1,4) by (simp add: markTerminated_def Let_def s2_def)
  show ?thesis
    using emitTerminal_emits[OF s2(1,2) assms(4), of f now] s2
    unfolding mt by (auto simp: terminal_form_keys terminal_form_get)
qed

end
