(* ===== verification/Media.thy ===== *)
theory Media
  imports Call_Session
begin

text \<open>
  The media goroutines of a session, \<^verbatim>\<open>bridge/session.go\<close> and \<^verbatim>\<open>bridge/ws.go\<close>: the RTP
  reader with its DTMF detection, the WebSocket pacer and reader, the RTP pacer
  with its 16- and 32-bit counters, and the relay to and from the callee.  Each
  loop body is one function of the session; \<open>media_step\<close> interleaves them with
  the operations of the theory \<open>Call_Session\<close>, with the failure and the
  reconnection of the WebSocket.  Decryption, RTP framing, JSON parsing and the
  sockets are inputs of the steps: a packet that cannot be decoded is \<^const>\<open>None\<close>.
\<close>

section \<open>RTP reader\<close>

record rtp_packet =
  rp_payloadType :: nat
  rp_seq :: "16 word"
  rp_timestamp :: "32 word"
  rp_payload :: "byte list"

definition try_push :: "'a chan \<Rightarrow> 'a \<Rightarrow> 'a chan" where
  "try_push ch x = (case chan_send ch x of Some ch' \<Rightarrow> ch' | None \<Rightarrow> ch)"

definition dtmfEventToDigit :: "string list" where
  "dtmfEventToDigit = [''0'', ''1'', ''2'', ''3'', ''4'', ''5'', ''6'', ''7'', ''8'', ''9'', ''*'', ''#'', ''A'', ''B'', ''C'', ''D'']"

definition parseTelephoneEvent :: "byte list \<Rightarrow> (string \<times> bool) option" where
  "parseTelephoneEvent payload =
    (if length payload < 4 then None
     else if unat (payload ! 0) > 15 then None
     else Some (dtmfEventToDigit ! unat (payload ! 0), payload ! 1 AND 0x80 \<noteq> 0))"

definition dtmf_packet :: "rtp_packet \<Rightarrow> leg \<Rightarrow> call_session \<Rightarrow> call_session" where
  "dtmf_packet pkt l s =
    (case parseTelephoneEvent (rp_payload pkt) of
       None \<Rightarrow> s
     | Some (digit, isEnd) \<Rightarrow>
        (if \<not> isEnd then s
         else if rp_timestamp pkt = l_lastDtmfTS l then s
         else
           let s1 = update_leg 0 (\<lambda>l. l\<lparr> l_lastDtmfTS := rp_timestamp pkt \<rparr>) s
           in s1\<lparr> s_dtmfQueue := try_push (s_dtmfQueue s1) digit \<rparr>))"

definition audio_frame :: "byte list \<Rightarrow> outbound_frame" where
  "audio_frame p = \<lparr> f_audio = Some p, f_mark = '''' \<rparr>"

definition rtpReader_packet :: "rtp_packet option \<Rightarrow> call_session \<Rightarrow> call_session" where
  "rtpReader_packet raw s =
    (case raw of
       None \<Rightarrow> s
     | Some pkt \<Rightarrow>
        (case primary s of
           None \<Rightarrow> s
         | Some l \<Rightarrow>
            (if rp_payloadType pkt = l_dtmfPT l then dtmf_packet pkt l s
             else if rp_payloadType pkt \<noteq> l_audioPT l then s
             else if s_state s = StateForwarding then
               (case peerLeg s 0 of
                  Some p \<Rightarrow> (case l_outboundQueue p of
                    Some q \<Rightarrow> update_leg 1 (\<lambda>l. l\<lparr> l_outboundQueue := Some (try_push q (audio_frame (rp_payload pkt))) \<rparr>) s
                  | None \<Rightarrow> s)
                | None \<Rightarrow> s)
             else if s_state s = StateDialingOut then s
             else case l_rtpInboundQueue l of
               Some q \<Rightarrow> update_leg 0 (\<lambda>l. l\<lparr> l_rtpInboundQueue := Some (try_push q (rp_payload pkt)) \<rparr>) s
             | None \<Rightarrow> s)))"

section \<open>WebSocket pacer\<close>

text \<open>One iteration of the pacer: a digit, a mark echo, or a tick with the next
  inbound payload.  The sequence number is a 32-bit counter; the frame is logged
  when the write succeeds, and a failed write ends the goroutine.\<close>

datatype pacer_event = PaceDtmf | PaceMark | PaceTick

definition ws_write :: "bool \<Rightarrow> ws_frame \<Rightarrow> 32 word \<Rightarrow> call_session \<Rightarrow> bool \<times> 32 word \<times> call_session" where
  "ws_write ok f seqNo s = (if ok then (True, seqNo + 1, session_do (SendWS f) s) else (False, seqNo, s))"

definition wsPacer_iter :: "pacer_event \<Rightarrow> bool \<Rightarrow> 32 word \<Rightarrow> call_session \<Rightarrow> bool \<times> 32 word \<times> call_session" where
  "wsPacer_iter ev write_ok seqNo s =
    (case ev of
       PaceDtmf \<Rightarrow>
         (case chan_recv (s_dtmfQueue s) of
            None \<Rightarrow> (True, seqNo, s)
          | Some (d, q) \<Rightarrow> ws_write write_ok (WsDtmf d seqNo) seqNo (s\<lparr> s_dtmfQueue := q \<rparr>))
     | PaceMark \<Rightarrow>
         (case chan_recv (s_markEchoQueue s) of
            None \<Rightarrow> (True, seqNo, s)
          | Some (m, q) \<Rightarrow> ws_write write_ok (WsMark m seqNo) seqNo (s\<lparr> s_markEchoQueue := q \<rparr>))
     | PaceTick \<Rightarrow>
         (case primary s of
            None \<Rightarrow> (True, seqNo, s)
          | Some l \<Rightarrow>
             (case l_rtpInboundQueue l of
                None \<Rightarrow> (True, seqNo, s)
              | Some q \<Rightarrow>
                 (case chan_recv q of
                    None \<Rightarrow> (True, seqNo, s)
                  | Some (p, q') \<Rightarrow>
                      ws_write write_ok (WsMedia p seqNo) seqNo
                        (update_leg 0 (\<lambda>l. l\<lparr> l_rtpInboundQueue := Some q' \<rparr>) s)))))"

section \<open>WebSocket reader\<close>

text \<open>The JSON values the reader distinguishes.  Decoding into a Go struct takes
  the last field whose name agrees up to case, leaves an absent or null field at
  its zero value and fails on a value of another type.\<close>

datatype json = JStr string | JNull | JObj "(string \<times> json) list" | JOther

definition json_field :: "string \<Rightarrow> (string \<times> json) list \<Rightarrow> json option" where
  "json_field k fs = map_of (map (\<lambda>(a, b). (to_lower a, b)) (rev fs)) (to_lower k)"

definition decode_string :: "json option \<Rightarrow> string option" where
  "decode_string j = (case j of None \<Rightarrow> Some '''' | Some JNull \<Rightarrow> Some '''' | Some (JStr x) \<Rightarrow> Some x | _ \<Rightarrow> None)"

definition decode_in_struct :: "string \<Rightarrow> json option \<Rightarrow> string option" where
  "decode_in_struct k j =
    (case j of
       None \<Rightarrow> Some ''''
     | Some JNull \<Rightarrow> Some ''''
     | Some (JObj fs) \<Rightarrow> decode_string (json_field k fs)
     | _ \<Rightarrow> None)"

text \<open>The mark branch decodes the value of \<^verbatim>\<open>mark\<close> into a struct that again has a
  field \<^verbatim>\<open>mark\<close> with a field \<^verbatim>\<open>name\<close>.\<close>

definition decode_mark :: "json option \<Rightarrow> string option" where
  "decode_mark j =
    (case j of
       None \<Rightarrow> Some ''''
     | Some JNull \<Rightarrow> Some ''''
     | Some (JObj fs) \<Rightarrow> decode_in_struct ''name'' (json_field ''mark'' fs)
     | _ \<Rightarrow> None)"

definition envelope_get :: "(string \<times> json) list \<Rightarrow> string \<Rightarrow> json option" where
  "envelope_get env k = map_of (rev env) k"

definition event_type :: "(string \<times> json) list \<Rightarrow> string" where
  "event_type env = (case envelope_get env ''event'' of Some (JStr e) \<Rightarrow> e | _ \<Rightarrow> '''')"

definition rtpFrameSize :: nat where "rtpFrameSize = 160"

function rtp_frames :: "byte list \<Rightarrow> byte list list" where
  "rtp_frames p =
    (if length p > 0 then
       let chunk = (if length p > rtpFrameSize then take rtpFrameSize p else p)
       in chunk # rtp_frames (drop (length chunk) p)
     else [])"
  by pat_completeness auto
termination
  by (relation "measure length") (auto simp: rtpFrameSize_def)

declare rtp_frames.simps [simp del]

definition with_packetQueue :: "(outbound_frame chan \<Rightarrow> outbound_frame chan) \<Rightarrow> call_session \<Rightarrow> call_session" where
  "with_packetQueue f s =
    update_leg 0 (\<lambda>l. l\<lparr> l_packetQueue := map_option f (l_packetQueue l) \<rparr>) s"

definition packetQueue_empty :: "call_session \<Rightarrow> bool" where
  "packetQueue_empty s =
    (case primary s of
       Some l \<Rightarrow> (case l_packetQueue l of Some q \<Rightarrow> chan_buf q = [] | None \<Rightarrow> True)
     | None \<Rightarrow> True)"

text \<open>One text message; the Boolean says whether the reader goes on.  A message
  that is not an object is \<^const>\<open>None\<close>.  The \<^verbatim>\<open>stop\<close> event sends the BYE on the
  dialog itself, not through \<^verbatim>\<open>leg.bye\<close>.\<close>

definition wsToRTP_message :: "(string \<times> json) list option \<Rightarrow> call_session \<Rightarrow> bool \<times> call_session" where
  "wsToRTP_message msg s =
    (case msg of
       None \<Rightarrow> (True, s)
     | Some env \<Rightarrow>
        (let ev = event_type env in
         if ev = ''media'' then
           (case decode_in_struct ''payload'' (envelope_get env ''media'') of
              None \<Rightarrow> (True, s)
            | Some payload \<Rightarrow>
               (case b64_decode payload of
                  None \<Rightarrow> (True, s)
                | Some pcmu \<Rightarrow>
                    (True, with_packetQueue (\<lambda>q. foldl try_push q (map audio_frame (rtp_frames pcmu))) s)))
         else if ev = ''mark'' then
           (case decode_mark (envelope_get env ''mark'') of
              None \<Rightarrow> (True, s)
            | Some markName \<Rightarrow>
                (if packetQueue_empty s
                 then (True, s\<lparr> s_markEchoQueue := try_push (s_markEchoQueue s) markName \<rparr>)
                 else (True, with_packetQueue (\<lambda>q. try_push q \<lparr> f_audio = None, f_mark = markName \<rparr>) s)))
         else if ev = ''clear'' then (True, s\<lparr> s_clearSignal := True \<rparr>)
         else if ev = ''stop'' then
           (False, (session_do (SendBye 0) s)\<lparr> s_cancelled := True, s_wsCancelled := True \<rparr>)
         else (True, s)))"

section \<open>RTP pacer\<close>

record pacer_state =
  p_seqNo :: "16 word"
  p_timestamp :: "32 word"
  p_sent :: "rtp_packet list"

definition pacer_advance :: "pacer_state \<Rightarrow> pacer_state" where
  "pacer_advance p = p\<lparr> p_seqNo := p_seqNo p + 1, p_timestamp := p_timestamp p + 160 \<rparr>"

definition pacer_packet :: "nat \<Rightarrow> pacer_state \<Rightarrow> byte list \<Rightarrow> rtp_packet" where
  "pacer_packet pt p chunk =
    \<lparr> rp_payloadType = pt, rp_seq = p_seqNo p, rp_timestamp = p_timestamp p, rp_payload = chunk \<rparr>"

definition echo_marks :: "outbound_frame list \<Rightarrow> string chan \<Rightarrow> string chan" where
  "echo_marks fs q = foldl try_push q (filter (\<lambda>m. m \<noteq> '''') (map f_mark fs))"

text \<open>The drain on a clear signal empties the queue and echoes the marks in it.\<close>

definition drain_on_clear :: "outbound_frame chan \<Rightarrow> call_session \<Rightarrow> outbound_frame chan \<times> call_session" where
  "drain_on_clear q s =
    (if s_clearSignal s then
       (q\<lparr> chan_buf := [] \<rparr>,
        s\<lparr> s_clearSignal := False, s_markEchoQueue := echo_marks (chan_buf q) (s_markEchoQueue s) \<rparr>)
     else (q, s))"

datatype send_result = SendOk | MarshalErr | EncryptErr | WriteErr

definition rtpPacer_tick :: "send_result \<Rightarrow> pacer_state \<Rightarrow> call_session \<Rightarrow> pacer_state \<times> call_session" where
  "rtpPacer_tick res p s =
    (case primary s of
       None \<Rightarrow> (p, s)
     | Some l \<Rightarrow>
        (case l_packetQueue l of
           None \<Rightarrow> (p, s)
         | Some q0 \<Rightarrow>
            (let (q1, s1) = drain_on_clear q0 s;
                 (frame, q2) = (case chan_recv q1 of Some (f, q) \<Rightarrow> (f, q) | None \<Rightarrow> (\<lparr> f_audio = None, f_mark = '''' \<rparr>, q1));
                 s2 = update_leg 0 (\<lambda>l. l\<lparr> l_packetQueue := Some q2 \<rparr>) s1
             in if f_mark frame \<noteq> '''' then
                  (pacer_advance p, s2\<lparr> s_markEchoQueue := try_push (s_markEchoQueue s2) (f_mark frame) \<rparr>)
                else
                  let chunk = (case f_audio frame of Some a \<Rightarrow> a | None \<Rightarrow> (case l_silenceFrame l of Some a \<Rightarrow> a | None \<Rightarrow> []));
                      pkt = pacer_packet (l_audioPT l) p chunk
                  in case res of
                       MarshalErr \<Rightarrow> (p, s2)
                     | EncryptErr \<Rightarrow> (pacer_advance p, s2)
                     | WriteErr \<Rightarrow> (p, s2\<lparr> s_cancelled := True, s_wsCancelled := True \<rparr>)
                     | SendOk \<Rightarrow> (pacer_advance (p\<lparr> p_sent := p_sent p @ [pkt] \<rparr>), s2))))"

section \<open>Relay with the callee\<close>

definition calleeRtpReader_packet :: "rtp_packet option \<Rightarrow> call_session \<Rightarrow> call_session" where
  "calleeRtpReader_packet raw s =
    (case raw of
       None \<Rightarrow> s
     | Some pkt \<Rightarrow>
        (case CalleeLeg s of
           None \<Rightarrow> s
         | Some l \<Rightarrow>
            (if rp_payloadType pkt \<noteq> l_audioPT l then s
             else with_packetQueue (\<lambda>q. try_push q (audio_frame (rp_payload pkt))) s)))"

definition calleeRtpPacer_tick :: "send_result \<Rightarrow> pacer_state \<Rightarrow> call_session \<Rightarrow> bool \<times> pacer_state \<times> call_session" where
  "calleeRtpPacer_tick res p s =
    (case CalleeLeg s of
       None \<Rightarrow> (True, p, s)
     | Some l \<Rightarrow>
        (case l_outboundQueue l of
           None \<Rightarrow> (True, p, s)
         | Some q0 \<Rightarrow>
            (let (frame, q1) = (case chan_recv q0 of Some (f, q) \<Rightarrow> (f, q) | None \<Rightarrow> (\<lparr> f_audio = None, f_mark = '''' \<rparr>, q0));
                 silence = (case l_silenceFrame l of Some a \<Rightarrow> a | None \<Rightarrow> if l_audioPT l = 0 then pcmuSilenceFrame else []);
                 chunk = (case f_audio frame of Some a \<Rightarrow> a | None \<Rightarrow> silence);
                 s1 = update_leg 1 (\<lambda>l. l\<lparr> l_outboundQueue := Some q1 \<rparr>) s;
                 pkt = pacer_packet (l_audioPT l) p chunk
             in if l_remoteRTP l = None \<or> res = MarshalErr then (True, pacer_advance p, s1)
                else if res = WriteErr then (False, p, s1)
                else (True, pacer_advance (p\<lparr> p_sent := p_sent p @ [pkt] \<rparr>), s1))))"

section \<open>Chunking\<close>

lemma rtp_frames_Nil [simp]: "rtp_frames [] = []"
  by (simp add: rtp_frames.simps)

lemma rtp_frames_step: "p \<noteq> [] \<Longrightarrow> rtp_frames p = take 160 p # rtp_frames (drop 160 p)"
  by (subst rtp_frames.simps) (simp add: Let_def rtpFrameSize_def)

lemma rtp_frames_concat: "concat (rtp_frames p) = p"
proof (induction p rule: length_induct)
  case (1 p)
  show ?case
  proof (cases "p = []")
    case False
    then have "concat (rtp_frames (drop 160 p)) = drop 160 p" using 1 by simp
    then show ?thesis using False by (simp add: rtp_frames_step[OF False])
  qed simp
qed

lemma rtp_frames_size: "\<forall>c \<in> set (rtp_frames p). 0 < length c \<and> length c \<le> 160"
proof (induction p rule: length_induct)
  case (1 p)
  show ?case
  proof (cases "p = []")
    case False
    then have "length (drop 160 p) < length p" by simp
    with 1 have "\<forall>c \<in> set (rtp_frames (drop 160 p)). 0 < length c \<and> length c \<le> 160" by blast
    then show ?thesis using False by (simp add: rtp_frames_step[OF False])
  qed simp
qed

lemma try_push_cap [simp]: "chan_cap (try_push q x) = chan_cap q"
  by (auto simp: try_push_def chan_send_def)

lemma try_push_room: "length (chan_buf q) < chan_cap q \<Longrightarrow> chan_buf (try_push q x) = chan_buf q @ [x]"
  by (simp add: try_push_def chan_send_def)

lemma try_push_bounded: "length (chan_buf q) \<le> chan_cap q \<Longrightarrow> length (chan_buf (try_push q x)) \<le> chan_cap q"
  by (auto simp: try_push_def chan_send_def)

lemma try_push_all_room:
  "length (chan_buf q) + length xs \<le> chan_cap q \<Longrightarrow> chan_buf (foldl try_push q xs) = chan_buf q @ xs"
  by (induction xs arbitrary: q) (simp_all add: try_push_room)

lemma try_push_all_bounded:
  "length (chan_buf q) \<le> chan_cap q \<Longrightarrow>
    chan_cap (foldl try_push q xs) = chan_cap q \<and> length (chan_buf (foldl try_push q xs)) \<le> chan_cap q"
proof (induction xs arbitrary: q)
  case (Cons x xs)
  then show ?case using Cons.IH[of "try_push q x"] try_push_bounded[of q x] by simp
qed simp

lemma primary_update_leg: "primary s = Some l \<Longrightarrow> primary (update_leg 0 f s) = Some (f l)"
  by (auto simp: primary_def update_leg_def split: if_splits)


definition demo_session :: call_session where
  "demo_session = new_session ''id'' ''CA1'' ''AC1'' ''a'' ''b'' 0 True demo_leg"

lemma demo_primary: "primary demo_session = Some demo_leg"
  by (simp add: demo_session_def new_session_def primary_def demo_leg_def NewCalleeLeg_def)


section \<open>Marks\<close>

text \<open>A mark frame in the documented shape loses its name: the value of \<^verbatim>\<open>mark\<close>
  is an object with the name, but the reader looks for a second \<^verbatim>\<open>mark\<close> inside
  it, so the name it works with is empty.  With an empty queue the bot gets an
  echo with an empty name; behind queued audio the sentinel has no name and is
  played as silence, without any echo.\<close>

theorem mark_name_lost:
  assumes "event_type env = ''mark''" "envelope_get env ''mark'' = Some (JObj fs)"
    and "json_field ''mark'' fs = None"
  shows "wsToRTP_message (Some env) s =
    (True, if packetQueue_empty s then s\<lparr> s_markEchoQueue := try_push (s_markEchoQueue s) '''' \<rparr>
           else with_packetQueue (\<lambda>q. try_push q \<lparr> f_audio = None, f_mark = '''' \<rparr>) s)"
  using assms by (simp add: wsToRTP_message_def decode_mark_def decode_in_struct_def Let_def)

theorem mark_name_lost_witness:
  "chan_buf (s_markEchoQueue (snd (wsToRTP_message (Some [(''event'', JStr ''mark''), (''mark'', JObj [(''name'', JStr ''m1'')])])
     demo_session))) = ['''']"
proof -
  let ?env = "[(''event'', JStr ''mark''), (''mark'', JObj [(''name'', JStr ''m1'')])]"
  have "packetQueue_empty demo_session"
    using demo_primary by (simp add: packetQueue_empty_def demo_leg_def)
  moreover have "json_field ''mark'' [(''name'', JStr ''m1'')] = None"
    by (simp add: json_field_def to_lower_def lower_char_def)
  ultimately show ?thesis
    using mark_name_lost[of ?env "[(''name'', JStr ''m1'')]" demo_session]
    by (simp add: event_type_def envelope_get_def demo_session_def new_session_def try_push_def chan_send_def)
qed

section \<open>Counters of the RTP pacer\<close>

text \<open>The packet of tick number \<open>k\<close> carries \<open>k\<close> modulo \<open>2 ^ 16\<close> and \<open>160 * k\<close>
  modulo \<open>2 ^ 32\<close>.\<close>

definition stamped :: "nat \<Rightarrow> rtp_packet \<Rightarrow> bool" where
  "stamped k pkt \<longleftrightarrow> rp_seq pkt = of_nat k \<and> rp_timestamp pkt = of_nat (160 * k)"

definition pacer_inv :: "pacer_state \<Rightarrow> nat list \<Rightarrow> nat \<Rightarrow> bool" where
  "pacer_inv p ks n \<longleftrightarrow> p_seqNo p = of_nat n \<and> p_timestamp p = of_nat (160 * n) \<and>
     list_all2 stamped ks (p_sent p) \<and> sorted_wrt (<) ks \<and> (\<forall>k \<in> set ks. k < n)"

lemma pacer_advance_inv: "pacer_inv p ks n \<Longrightarrow> pacer_inv (pacer_advance p) ks (Suc n)"
  by (auto simp: pacer_inv_def pacer_advance_def algebra_simps)

lemma pacer_send_inv:
  assumes "pacer_inv p ks n"
  shows "pacer_inv (pacer_advance (p\<lparr> p_sent := p_sent p @ [pacer_packet pt p c] \<rparr>)) (ks @ [n]) (Suc n)"
  using assms
  by (auto simp: pacer_inv_def pacer_advance_def pacer_packet_def stamped_def list_all2_appendI sorted_wrt_append
      algebra_simps)

lemma rtpPacer_tick_inv:
  assumes "pacer_inv p ks n" "rtpPacer_tick res p s = (p', s')"
  shows "\<exists>ks' n'. pacer_inv p' ks' n'"
proof -
  consider "p' = p" | "p' = pacer_advance p"
    | pt c where "p' = pacer_advance (p\<lparr> p_sent := p_sent p @ [pacer_packet pt p c] \<rparr>)"
    using assms(2)
    by (auto simp: rtpPacer_tick_def Let_def split: option.splits prod.splits if_splits send_result.splits)
  then show ?thesis
    by cases (use assms(1) pacer_advance_inv pacer_send_inv in blast)+
qed

lemma calleeRtpPacer_tick_inv:
  assumes "pacer_inv p ks n" "calleeRtpPacer_tick res p s = (go, p', s')"
  shows "\<exists>ks' n'. pacer_inv p' ks' n'"
proof -
  consider "p' = p" | "p' = pacer_advance p"
    | pt c where "p' = pacer_advance (p\<lparr> p_sent := p_sent p @ [pacer_packet pt p c] \<rparr>)"
    using assms(2)
    by (auto simp: calleeRtpPacer_tick_def Let_def split: option.splits prod.splits if_splits)
  then show ?thesis
    by cases (use assms(1) pacer_advance_inv pacer_send_inv in blast)+
qed

section \<open>All goroutines of a session\<close>

text \<open>The WebSocket side is up, down (both goroutines have returned and the
  session is reconnecting), gone (parked after the privacy gate), or
  \<^verbatim>\<open>run\<close> has returned.\<close>

datatype ws_phase = WsUp | WsDown | WsGone | RunReturned

record media_state =
  ms_session :: call_session
  ms_phase :: ws_phase
  ms_wsSeq :: "32 word"
  ms_pacer :: pacer_state
  ms_cpacer :: pacer_state
  ms_callee :: bool

definition new_pacer :: pacer_state where
  "new_pacer = \<lparr> p_seqNo = 0, p_timestamp = 0, p_sent = [] \<rparr>"

definition media_init :: "call_session \<Rightarrow> media_state" where
  "media_init s = \<lparr> ms_session = s, ms_phase = (if s_streamClosed s then WsGone else WsUp), ms_wsSeq = 2, ms_pacer = new_pacer, ms_cpacer = new_pacer, ms_callee = False \<rparr>"

text \<open>The handshake on a connection writes the connected and the start frame.\<close>

definition handshake :: "call_session \<Rightarrow> call_session" where
  "handshake s = session_do (SendWS WsStart) (session_do (SendWS WsConnected) s)"

text \<open>\<^verbatim>\<open>run\<close> up to its loop.  The arguments say whether the dialog was already over,
  the UDP socket could be opened, the SRTP contexts could be created, and the
  two frames of the handshake could be written; the result says whether the
  loop is entered.  Each early return leaves the context cancelled (the deferred
  \<^verbatim>\<open>cancel\<close>) except the first, which precedes it.\<close>

definition run_start :: "bool \<Rightarrow> bool \<Rightarrow> bool \<Rightarrow> bool \<Rightarrow> bool \<Rightarrow> call_session \<Rightarrow> bool \<times> call_session" where
  "run_start ctx_done listen_ok srtp_ok connected_ok start_ok s =
    (if ctx_done then (False, session_do CloseWS s)
     else
       let s0 = s\<lparr> s_running := True, s_cancelled := False, s_wsCancelled := False \<rparr>;
           abort = (\<lambda>s. (False, (session_do (SendBye 0) (session_do CloseWS s))\<lparr> s_cancelled := True, s_wsCancelled := True \<rparr>))
       in if \<not> listen_ok \<or> \<not> srtp_ok then abort s0
          else
            let s1 = s0\<lparr> s_dtmfQueue := chan_make 10, s_markEchoQueue := chan_make 10, s_clearSignal := False \<rparr>
            in if \<not> connected_ok then abort s1
               else if \<not> start_ok then abort (session_do (SendWS WsConnected) s1)
               else (True, (handshake s1)\<lparr> s_hasWsConn := \<not> s_streamClosed s1 \<rparr>))"

text \<open>The end of \<^verbatim>\<open>run\<close> when the session's context is done: the stop frame and the
  close of the connection, unless \<^verbatim>\<open>CloseStream\<close> has done both.\<close>

definition run_end :: "session_env \<Rightarrow> int \<Rightarrow> call_session \<Rightarrow> call_session" where
  "run_end env now s =
    markTerminated (se_rfc1123z env) now ''completed''
      (if s_streamClosed s then s else session_do CloseWS (session_do (SendWS WsStop) s))"

inductive media_step :: "session_env \<Rightarrow> media_state \<Rightarrow> media_state \<Rightarrow> bool" for env where
  rtp_reader: "\<not> s_cancelled (ms_session m) \<Longrightarrow>
    media_step env m (m\<lparr> ms_session := rtpReader_packet raw (ms_session m) \<rparr>)"
| ws_pacer: "ms_phase m = WsUp \<Longrightarrow> \<not> s_wsCancelled (ms_session m) \<Longrightarrow>
    wsPacer_iter ev ok (ms_wsSeq m) (ms_session m) = (True, n, s') \<Longrightarrow>
    media_step env m (m\<lparr> ms_session := s', ms_wsSeq := n \<rparr>)"
| ws_pacer_fails: "ms_phase m = WsUp \<Longrightarrow> \<not> s_wsCancelled (ms_session m) \<Longrightarrow>
    wsPacer_iter ev ok (ms_wsSeq m) (ms_session m) = (False, n, s') \<Longrightarrow>
    media_step env m (m\<lparr> ms_session := s', ms_phase := (if s_streamClosed s' then WsGone else WsDown) \<rparr>)"
| ws_message: "ms_phase m = WsUp \<Longrightarrow> \<not> s_wsCancelled (ms_session m) \<Longrightarrow>
    wsToRTP_message msg (ms_session m) = (go, s') \<Longrightarrow>
    media_step env m (m\<lparr> ms_session := s' \<rparr>)"
| ws_read_error: "ms_phase m = WsUp \<Longrightarrow> \<not> s_wsCancelled (ms_session m) \<Longrightarrow>
    media_step env m (m\<lparr> ms_phase := (if s_streamClosed (ms_session m) then WsGone else WsDown) \<rparr>)"
| reconnected: "ms_phase m = WsDown \<Longrightarrow> \<not> s_cancelled (ms_session m) \<Longrightarrow>
    media_step env m (m\<lparr> ms_session := handshake (ms_session m), ms_wsSeq := 2,
      ms_phase := (if s_streamClosed (ms_session m) then WsGone else WsUp) \<rparr>)"
| handshake_fails: "ms_phase m = WsDown \<Longrightarrow> \<not> s_cancelled (ms_session m) \<Longrightarrow>
    media_step env m (m\<lparr> ms_session := session_do CloseWS
      (if connected_ok then session_do (SendWS WsConnected) (ms_session m) else ms_session m) \<rparr>)"
| reconnect_exhausted: "ms_phase m = WsDown \<Longrightarrow>
    media_step env m (m\<lparr> ms_session := (session_do (SendBye 0) (ms_session m))\<lparr> s_cancelled := True, s_wsCancelled := True \<rparr>,
      ms_phase := RunReturned \<rparr>)"
| rtp_pacer: "\<not> s_cancelled (ms_session m) \<Longrightarrow> rtpPacer_tick res (ms_pacer m) (ms_session m) = (p', s') \<Longrightarrow>
    media_step env m (m\<lparr> ms_session := s', ms_pacer := p' \<rparr>)"
| callee_reader: "ms_callee m \<Longrightarrow> \<not> s_cancelled (ms_session m) \<Longrightarrow>
    media_step env m (m\<lparr> ms_session := calleeRtpReader_packet raw (ms_session m) \<rparr>)"
| callee_pacer: "ms_callee m \<Longrightarrow> \<not> s_cancelled (ms_session m) \<Longrightarrow>
    calleeRtpPacer_tick res (ms_cpacer m) (ms_session m) = (go, p', s') \<Longrightarrow>
    media_step env m (m\<lparr> ms_session := s', ms_cpacer := p', ms_callee := go \<rparr>)"
| answered: "OnAnswered ok (ms_session m) = (None, s') \<Longrightarrow>
    media_step env m (m\<lparr> ms_session := s', ms_callee := True, ms_cpacer := new_pacer \<rparr>)"
| close_stream: "media_step env m (m\<lparr> ms_session := CloseStream reason (ms_session m),
      ms_phase := (if ms_phase m = WsUp then WsGone else ms_phase m) \<rparr>)"
| control: "op \<noteq> OpStart \<Longrightarrow> (\<forall>r. op \<noteq> OpCloseStream r) \<Longrightarrow> (\<forall>ok. op \<noteq> OpOnAnswered ok) \<Longrightarrow>
    media_step env m (m\<lparr> ms_session := session_exec env op (ms_session m) \<rparr>)"
| run_ends: "s_cancelled (ms_session m) \<Longrightarrow> ms_phase m = WsUp \<or> (ms_phase m = WsGone \<and> s_streamClosed (ms_session m)) \<Longrightarrow>
    media_step env m (m\<lparr> ms_session := run_end env now (ms_session m), ms_phase := RunReturned \<rparr>)"

inductive_cases media_stepE: "media_step env m m'"

fun is_media_frame :: "session_effect \<Rightarrow> bool" where
  "is_media_frame (SendWS (WsMedia p n)) = True"
| "is_media_frame (SendWS (WsDtmf d n)) = True"
| "is_media_frame (SendWS (WsMark x n)) = True"
| "is_media_frame _ = False"

definition media_frames :: "call_session \<Rightarrow> session_effect list" where
  "media_frames s = filter is_media_frame (s_log s)"

text \<open>What a step may do to the gate: it is never opened again, and once it is
  closed no media, digit or mark frame is written.\<close>

definition gate_closed :: "call_session \<Rightarrow> bool" where
  "gate_closed s \<longleftrightarrow> s_running s \<and> s_closeStreamOnce s \<and> s_streamClosed s \<and> s_wsCancelled s"

lemma update_leg_frame [simp]:
  "s_log (update_leg i f s) = s_log s" "s_closeStreamOnce (update_leg i f s) = s_closeStreamOnce s"
  "s_streamClosed (update_leg i f s) = s_streamClosed s" "s_wsCancelled (update_leg i f s) = s_wsCancelled s"
  "s_cancelled (update_leg i f s) = s_cancelled s" "s_running (update_leg i f s) = s_running s" "s_state (update_leg i f s) = s_state s"
  "s_dtmfQueue (update_leg i f s) = s_dtmfQueue s" "s_markEchoQueue (update_leg i f s) = s_markEchoQueue s"
  "s_clearSignal (update_leg i f s) = s_clearSignal s"
  by (simp_all add: update_leg_def)

lemma rtpReader_frame [simp]:
  "s_log (rtpReader_packet raw s) = s_log s"
  "gate_closed (rtpReader_packet raw s) = gate_closed s"
  by (auto simp: rtpReader_packet_def dtmf_packet_def Let_def gate_closed_def split: option.split prod.split)

lemma calleeReader_frame [simp]:
  "s_log (calleeRtpReader_packet raw s) = s_log s"
  "gate_closed (calleeRtpReader_packet raw s) = gate_closed s"
  by (auto simp: calleeRtpReader_packet_def with_packetQueue_def gate_closed_def split: option.split)

lemma drain_frame [simp]:
  "s_log (snd (drain_on_clear q s)) = s_log s" "s_closeStreamOnce (snd (drain_on_clear q s)) = s_closeStreamOnce s"
  "s_streamClosed (snd (drain_on_clear q s)) = s_streamClosed s" "s_wsCancelled (snd (drain_on_clear q s)) = s_wsCancelled s"
  "s_running (snd (drain_on_clear q s)) = s_running s"
  by (simp_all add: drain_on_clear_def)

lemma rtpPacer_frame:
  "s_log (snd (rtpPacer_tick res p s)) = s_log s"
  "s_closeStreamOnce (snd (rtpPacer_tick res p s)) = s_closeStreamOnce s"
  "s_running (snd (rtpPacer_tick res p s)) = s_running s"
  "gate_closed s \<Longrightarrow> gate_closed (snd (rtpPacer_tick res p s))"
  by (simp_all add: rtpPacer_tick_def Let_def split_beta gate_closed_def split: option.split send_result.split)

lemma pacer_frame:
  assumes "rtpPacer_tick res p s = (p', s')"
  shows "s_log s' = s_log s" "s_closeStreamOnce s' = s_closeStreamOnce s" "s_running s' = s_running s"
    "gate_closed s \<Longrightarrow> gate_closed s'"
  using rtpPacer_frame[where res = res and p = p and s = s] assms by simp_all

lemma calleePacer_frame:
  assumes "calleeRtpPacer_tick res p s = (go, p', s')"
  shows "s_log s' = s_log s" "gate_closed s' = gate_closed s"
  using assms
  by (auto simp: calleeRtpPacer_tick_def gate_closed_def Let_def split: option.splits prod.splits if_splits)

lemma emitTerminal_media [simp]: "media_frames (emitTerminalStatusCallback f r t s) = media_frames s"
proof -
  obtain es where "s_log (emitTerminalStatusCallback f r t s) = s_log s @ es"
    "\<forall>e \<in> set es. \<exists>evt. e = EnqueueCallback (s_callSid s) evt"
    using emitTerminal_log[of f r t s] by blast
  then show ?thesis by (auto simp: media_frames_def filter_empty_conv)
qed

lemma session_do_gate [simp]: "gate_closed (session_do e s) = gate_closed s"
  by (simp add: gate_closed_def)

lemma markTerminated_gate [simp]:
  "media_frames (markTerminated f t r s) = media_frames s" "gate_closed (markTerminated f t r s) = gate_closed s"
proof -
  obtain es where es: "s_log (markTerminated f t r s) = s_log s @ es"
    "es = [] \<or> (\<exists>d. es = [DrainCallbacks d]) \<or> (\<exists>c evt d. es = [EnqueueCallback c evt, DrainCallbacks d])"
    using markTerminated_log[of f t r s] by blast
  from es(2) have "filter is_media_frame es = []" by (elim disjE exE) simp_all
  then show "media_frames (markTerminated f t r s) = media_frames s" using es(1) by (simp add: media_frames_def)
  show "gate_closed (markTerminated f t r s) = gate_closed s" by (simp add: gate_closed_def)
qed

lemma leg_bye_gate:
  "media_frames (snd (leg_bye b i s)) = media_frames s" "gate_closed (snd (leg_bye b i s)) = gate_closed s"
  by (auto simp: leg_bye_def Let_def media_frames_def gate_closed_def split: option.split)

lemma bye_all_gate:
  "media_frames (snd (bye_all b is s)) = media_frames s \<and> gate_closed (snd (bye_all b is s)) = gate_closed s"
proof (induction "is" arbitrary: s)
  case (Cons i "is")
  obtain e s1 where l: "leg_bye b i s = (e, s1)" by fastforce
  obtain e' s2 where r: "bye_all b is s1 = (e', s2)" by fastforce
  show ?case using Cons[of s1] leg_bye_gate[of b i s] l r by simp
qed simp

lemma Terminate_gate:
  "media_frames (snd (Terminate f b t r s)) = media_frames s" "gate_closed s \<Longrightarrow> gate_closed (snd (Terminate f b t r s))"
proof -
  define s3 where "s3 = cancel_ctx (state_cas StateForwarding StateTerminated (state_cas StateDialingOut StateTerminated
      (state_cas StateStreaming StateTerminated (markTerminated f t r s))))"
  have T: "Terminate f b t r s = bye_all b [0..<length (s_legs s3)] s3"
    by (simp add: Terminate_def Let_def s3_def)
  have "media_frames s3 = media_frames s"
    using markTerminated_gate(1)[of f t r s] by (simp add: s3_def media_frames_def)
  then show "media_frames (snd (Terminate f b t r s)) = media_frames s"
    unfolding T using bye_all_gate by simp
  have "gate_closed s \<Longrightarrow> gate_closed s3"
    by (simp add: s3_def gate_closed_def)
  then show "gate_closed s \<Longrightarrow> gate_closed (snd (Terminate f b t r s))"
    unfolding T using bye_all_gate by simp
qed

lemma CloseStream_gate:
  "media_frames (CloseStream r s) = media_frames s" "gate_closed s \<Longrightarrow> CloseStream r s = s"
  "s_running s \<Longrightarrow> \<not> s_closeStreamOnce s \<Longrightarrow> gate_closed (CloseStream r s)"
  "s_running (CloseStream r s) = s_running s"
  by (simp_all add: CloseStream_def Let_def media_frames_def gate_closed_def)

lemma control_gate:
  assumes "\<forall>r. op \<noteq> OpCloseStream r" "\<forall>ok. op \<noteq> OpOnAnswered ok"
  shows "media_frames (session_exec env op s) = media_frames s \<and> (gate_closed s \<longrightarrow> gate_closed (session_exec env op s))"
proof (cases op)
  case (OpSetAnsweredAt t)
  then show ?thesis by (cases "s_answeredAt s") (simp_all add: SetAnsweredAt_def media_frames_def gate_closed_def)
next
  case (OpMarkTerminated t r)
  then show ?thesis by simp
next
  case (OpTerminate t r)
  then show ?thesis by (simp add: Terminate_gate)
next
  case (OpLegBye i)
  then show ?thesis by (simp add: leg_bye_gate)
qed (use assms in \<open>simp_all add: SetStatusCallback_def NextSequenceNumber_def
      SetSIPFinalCode_def MarkEmitted_def SetLeg_def Let_def media_frames_def gate_closed_def\<close>)

lemma OnAnswered_gate:
  "media_frames (snd (OnAnswered ok s)) = media_frames s" "gate_closed (snd (OnAnswered ok s)) = gate_closed s"
  "s_closeStreamOnce (snd (OnAnswered ok s)) = s_closeStreamOnce s" "s_running (snd (OnAnswered ok s)) = s_running s"
  by (simp_all add: OnAnswered_def media_frames_def gate_closed_def split: option.split)

lemma handshake_gate: "media_frames (handshake s) = media_frames s" "gate_closed (handshake s) = gate_closed s"
  by (simp_all add: handshake_def media_frames_def)

lemma run_end_gate:
  "media_frames (run_end env now s) = media_frames s" "gate_closed (run_end env now s) = gate_closed s"
  "s_closeStreamOnce (run_end env now s) = s_closeStreamOnce s" "s_running (run_end env now s) = s_running s"
  by (simp_all add: run_end_def) (simp_all add: media_frames_def)

lemma media_step_gate:
  assumes "media_step env m m'" "gate_closed (ms_session m)"
  shows "gate_closed (ms_session m') \<and> media_frames (ms_session m') = media_frames (ms_session m)"
  using assms(1)
proof (cases rule: media_step.cases)
  case (rtp_reader raw)
  then show ?thesis using assms(2) by (simp add: media_frames_def)
next
  case reconnected
  then show ?thesis using assms(2) by (simp add: handshake_gate)
next
  case (handshake_fails connected_ok)
  then show ?thesis using assms(2) by (simp add: media_frames_def gate_closed_def)
next
  case reconnect_exhausted
  then show ?thesis using assms(2) by (simp add: media_frames_def gate_closed_def)
next
  case (rtp_pacer res p' s')
  then show ?thesis using assms(2) pacer_frame[OF rtp_pacer(3)] by (simp add: media_frames_def)
next
  case (callee_reader raw)
  then show ?thesis using assms(2) by (simp add: media_frames_def)
next
  case (callee_pacer res go p' s')
  then show ?thesis using assms(2) calleePacer_frame[OF callee_pacer(4)] by (simp add: media_frames_def)
next
  case (answered ok s')
  then show ?thesis using assms(2) OnAnswered_gate[of ok "ms_session m"] by simp
next
  case (close_stream reason)
  then show ?thesis using assms(2) CloseStream_gate(2)[of "ms_session m" reason] by simp
next
  case (control op)
  then show ?thesis using assms(2) control_gate[of op env "ms_session m"] by simp
next
  case (run_ends now)
  then show ?thesis using assms(2) by (simp add: run_end_gate)
qed (use assms(2) in \<open>auto simp: gate_closed_def\<close>)

lemma wsPacer_frame: "wsPacer_iter ev ok n s = (go, n', s') \<Longrightarrow> s_closeStreamOnce s' = s_closeStreamOnce s \<and> s_running s' = s_running s"
  by (auto simp: wsPacer_iter_def ws_write_def split: pacer_event.splits option.splits if_splits)

lemma wsToRTP_frame: "wsToRTP_message msg s = (go, s') \<Longrightarrow> s_closeStreamOnce s' = s_closeStreamOnce s \<and> s_running s' = s_running s"
  by (auto simp: wsToRTP_message_def Let_def with_packetQueue_def split: option.splits if_splits)

lemma reader_frame: "s_closeStreamOnce (rtpReader_packet raw s) = s_closeStreamOnce s"
  "s_closeStreamOnce (calleeRtpReader_packet raw s) = s_closeStreamOnce s"
  "s_running (rtpReader_packet raw s) = s_running s" "s_running (calleeRtpReader_packet raw s) = s_running s"
  by (simp_all add: rtpReader_packet_def dtmf_packet_def calleeRtpReader_packet_def with_packetQueue_def Let_def
      split: option.split prod.split)

lemma calleePacer_frame':
  assumes "calleeRtpPacer_tick res p s = (go, p', s')"
  shows "s_closeStreamOnce s' = s_closeStreamOnce s" "s_running s' = s_running s"
  using assms
  by (auto simp: calleeRtpPacer_tick_def Let_def split: option.splits prod.splits if_splits)

lemma control_once:
  assumes "\<forall>r. op \<noteq> OpCloseStream r" "\<forall>ok. op \<noteq> OpOnAnswered ok"
  shows "s_closeStreamOnce (session_exec env op s) = s_closeStreamOnce s \<and> s_running (session_exec env op s) = s_running s"
proof (cases op)
  case (OpSetAnsweredAt t)
  then show ?thesis by (cases "s_answeredAt s") (simp_all add: SetAnsweredAt_def)
qed (use assms in \<open>simp_all add: Terminate_frame SetStatusCallback_def NextSequenceNumber_def
      SetSIPFinalCode_def MarkEmitted_def SetLeg_def Let_def\<close>)

definition gate_inv :: "media_state \<Rightarrow> bool" where
  "gate_inv m \<longleftrightarrow> s_running (ms_session m) \<and> (s_closeStreamOnce (ms_session m) \<longrightarrow> gate_closed (ms_session m))"

lemma media_step_gate_inv:
  assumes "media_step env m m'" "gate_inv m"
  shows "gate_inv m'"
proof (cases "gate_closed (ms_session m)")
  case True
  then show ?thesis using media_step_gate[OF assms(1)] by (auto simp: gate_inv_def gate_closed_def)
next
  case False
  then have no: "s_running (ms_session m)" "\<not> s_closeStreamOnce (ms_session m)" using assms(2) by (auto simp: gate_inv_def)
  from assms(1) show ?thesis
  proof (cases rule: media_step.cases)
    case (close_stream reason)
    then show ?thesis using CloseStream_gate(3)[OF no] CloseStream_gate(4)[of reason "ms_session m"] no by (simp add: gate_inv_def)
  next
    case (answered ok s')
    then show ?thesis using OnAnswered_gate(3,4)[of ok "ms_session m"] no by (simp add: gate_inv_def)
  next
    case (ws_pacer ev ok n s')
    then show ?thesis using wsPacer_frame[OF ws_pacer(4)] no by (simp add: gate_inv_def)
  next
    case (ws_pacer_fails ev ok n s')
    then show ?thesis using wsPacer_frame[OF ws_pacer_fails(4)] no by (simp add: gate_inv_def)
  next
    case (ws_message msg go s')
    then show ?thesis using wsToRTP_frame[OF ws_message(4)] no by (simp add: gate_inv_def)
  next
    case (rtp_pacer res p' s')
    then show ?thesis using pacer_frame[OF rtp_pacer(3)] no by (simp add: gate_inv_def)
  next
    case (callee_pacer res go p' s')
    then show ?thesis using calleePacer_frame'[OF callee_pacer(4)] no by (simp add: gate_inv_def)
  next
    case (control op)
    then show ?thesis using control_once[of op env "ms_session m"] no by (simp add: gate_inv_def)
  qed (use no in \<open>simp_all add: gate_inv_def reader_frame handshake_def run_end_gate\<close>)
qed

lemma media_reach_gate_inv: "(media_step env)\<^sup>*\<^sup>* m m' \<Longrightarrow> gate_inv m \<Longrightarrow> gate_inv m'"
  by (induction rule: rtranclp_induct) (auto intro: media_step_gate_inv)

lemma media_reach_gate:
  "(media_step env)\<^sup>*\<^sup>* m m' \<Longrightarrow> gate_closed (ms_session m) \<Longrightarrow>
    gate_closed (ms_session m') \<and> media_frames (ms_session m') = media_frames (ms_session m)"
  by (induction rule: rtranclp_induct) (auto dest: media_step_gate)



text \<open>The gate closes the stream for media, not the connection for good: a
  reconnection that was under way opens a new one, writes the start frame after
  the stop, and leaves it open.\<close>

lemma handshake_after_gate:
  "ms_phase m = WsDown \<Longrightarrow> \<not> s_cancelled (ms_session m) \<Longrightarrow> s_streamClosed (ms_session m) \<Longrightarrow>
    \<exists>m'. media_step env m m' \<and> ms_phase m' = WsGone \<and>
      s_log (ms_session m') = s_log (ms_session m) @ [SendWS WsConnected, SendWS WsStart]"
  using media_step.reconnected[of m env] by (auto simp: handshake_def)

text \<open>Nor does it hold back the handshake of a session that starts after it: the bot
  is told of the call although its stream has been closed.\<close>

lemma start_frames_after_gate:
  assumes "\<not> s_running s" "\<not> s_closeStreamOnce s" "\<not> s_hasWsConn s"
  shows "s_log (snd (run_start False True True True True (CloseStream reason s))) = s_log s @ [SendWS WsConnected, SendWS WsStart] \<and>
    s_streamClosed (snd (run_start False True True True True (CloseStream reason s)))"
  using assms by (simp add: run_start_def CloseStream_def handshake_def Let_def)

section \<open>RTP towards the caller and the callee\<close>

definition pacers_ok :: "media_state \<Rightarrow> bool" where
  "pacers_ok m \<longleftrightarrow> (\<exists>ks n. pacer_inv (ms_pacer m) ks n) \<and> (\<exists>ks n. pacer_inv (ms_cpacer m) ks n)"

lemma new_pacer_inv: "pacer_inv new_pacer [] 0"
  by (simp add: pacer_inv_def new_pacer_def)

lemma media_step_pacers: "media_step env m m' \<Longrightarrow> pacers_ok m \<Longrightarrow> pacers_ok m'"
proof (induction rule: media_step.induct)
  case (rtp_pacer m res p' s')
  then show ?case unfolding pacers_ok_def using rtpPacer_tick_inv by fastforce
next
  case (callee_pacer m res go p' s')
  then show ?case unfolding pacers_ok_def using calleeRtpPacer_tick_inv by fastforce
next
  case (answered ok m s')
  then show ?case unfolding pacers_ok_def using new_pacer_inv by fastforce
qed (auto simp: pacers_ok_def)



text \<open>A retransmitted end-of-event packet yields its digit once.\<close>

lemma dtmf_packet_idem:
  assumes "primary s = Some l" "rp_payloadType pkt = l_dtmfPT l"
  shows "rtpReader_packet (Some pkt) (rtpReader_packet (Some pkt) s) = rtpReader_packet (Some pkt) s"
proof (cases "parseTelephoneEvent (rp_payload pkt)")
  case None
  then show ?thesis using assms by (simp add: rtpReader_packet_def dtmf_packet_def)
next
  case (Some de)
  obtain d e where de: "de = (d, e)" by (cases de)
  show ?thesis
  proof (cases "e \<and> rp_timestamp pkt \<noteq> l_lastDtmfTS l")
    case True
    let ?s = "rtpReader_packet (Some pkt) s"
    have "s_legs ?s = s_legs (update_leg 0 (\<lambda>l. l\<lparr> l_lastDtmfTS := rp_timestamp pkt \<rparr>) s)"
      using assms Some de True by (simp add: rtpReader_packet_def dtmf_packet_def Let_def)
    then have "primary ?s = Some (l\<lparr> l_lastDtmfTS := rp_timestamp pkt \<rparr>)"
      using primary_update_leg[OF assms(1), of "\<lambda>l. l\<lparr> l_lastDtmfTS := rp_timestamp pkt \<rparr>"] by (simp add: primary_def split: if_splits)
    then show ?thesis
      using assms(2) Some de True by (simp add: rtpReader_packet_def[of "Some pkt" ?s] dtmf_packet_def)
  next
    case False
    then show ?thesis using assms Some de by (auto simp: rtpReader_packet_def dtmf_packet_def)
  qed
qed

section \<open>Reconnecting\<close>

text \<open>\<^verbatim>\<open>reconnect\<close>: wait for the backoff, dial, double the backoff up to four
  seconds, within a budget that starts when the function is called.  Times are
  in milliseconds; \<open>dial n\<close> is how long attempt \<open>n\<close> takes and whether it
  connects, capped by its own time-out of five seconds and by the budget.  The
  budget is 30 seconds, or less when the session's context ends first.  The
  result is the attempt that connected, the attempts dialled and the time
  taken.\<close>

definition maxBackoff :: nat where "maxBackoff = 4000"
definition reconnectBudget :: nat where "reconnectBudget = 30000"

function reconnect_loop :: "(nat \<Rightarrow> nat \<times> bool) \<Rightarrow> nat \<Rightarrow> nat \<Rightarrow> nat \<Rightarrow> nat \<Rightarrow> nat option \<times> nat list \<times> nat" where
  "reconnect_loop dial budget attempt backoff now =
    (if backoff = 0 \<or> budget \<le> now + backoff then (None, [], max now budget)
     else
       let t0 = now + backoff;
           (d, ok) = dial attempt;
           limit = min 5000 (budget - t0);
           connected = ok \<and> d \<le> limit;
           t1 = t0 + min d limit
       in if connected then (Some attempt, [backoff], t1)
          else
            let (res, waits, t) = reconnect_loop dial budget (attempt + 1) (min (2 * backoff) maxBackoff) t1
            in (res, backoff # waits, t))"
  by pat_completeness auto

termination
  by (relation "measure (\<lambda>(dial, budget, attempt, backoff, now). budget - now)") auto

declare reconnect_loop.simps [simp del]

definition reconnect :: "(nat \<Rightarrow> nat \<times> bool) \<Rightarrow> nat \<Rightarrow> nat option \<times> nat list \<times> nat" where
  "reconnect dial ctx_deadline = reconnect_loop dial (min reconnectBudget ctx_deadline) 1 1000 0"

text \<open>The waits the loop can make from a backoff \<open>b\<close> within a budget.\<close>

lemma reconnect_loop_time:
  "reconnect_loop dial budget a b now = (res, waits, t) \<Longrightarrow> now \<le> budget \<Longrightarrow> t \<le> budget"
proof (induction dial budget a b now arbitrary: res waits t rule: reconnect_loop.induct)
  case (1 dial budget a b now)
  show ?case
    using "1.prems" "1.IH"[OF _ refl surjective_pairing[symmetric] refl refl refl]
    by (subst (asm) reconnect_loop.simps)
      (auto simp: Let_def split: if_splits prod.splits)
qed

lemma reconnect_loop_retry:
  assumes "\<not> (b = 0 \<or> budget \<le> now + b)" "dial a = (d, ok)"
    "\<not> (ok \<and> d \<le> min 5000 (budget - (now + b)))"
    "reconnect_loop dial budget (a + 1) (min (2 * b) maxBackoff) (now + b + min d (min 5000 (budget - (now + b)))) = (res, waits, t)"
  shows "reconnect_loop dial budget a b now = (res, b # waits, t)"
  by (subst reconnect_loop.simps) (use assms in \<open>auto simp: Let_def\<close>)

lemma min_double: "min (min (2 * b) m * 2 ^ k) m = min (b * 2 ^ Suc k) (m :: nat)"
proof (cases "2 * b \<le> m")
  case False
  then have "m \<le> m * 2 ^ k" "m \<le> b * 2 ^ Suc k"
    using mult_le_mono[of m "2 * b" 1 "2 ^ k"] by (simp_all add: ac_simps)
  with False show ?thesis by simp
qed (simp add: ac_simps)

lemma reconnect_loop_waits:
  "reconnect_loop dial budget a b now = (res, waits, t) \<Longrightarrow> b \<le> maxBackoff \<Longrightarrow>
    now + sum_list waits \<le> max now budget \<and>
    (\<forall>k < length waits. waits ! k = min (b * 2 ^ k) maxBackoff) \<and>
    (\<forall>n. res = Some n \<longrightarrow> n + 1 = a + length waits \<and> snd (dial n))"
proof (induction dial budget a b now arbitrary: res waits t rule: reconnect_loop.induct)
  case (1 dial budget a b now)
  show ?case
  proof (cases "b = 0 \<or> budget \<le> now + b")
    case True
    then show ?thesis using "1.prems" by (subst (asm) reconnect_loop.simps) auto
  next
    case False
    obtain d ok where d: "dial a = (d, ok)" by fastforce
    define limit where "limit = min 5000 (budget - (now + b))"
    show ?thesis
    proof (cases "ok \<and> d \<le> limit")
      case True
      then show ?thesis using "1.prems" False d
        by (subst (asm) reconnect_loop.simps) (auto simp: Let_def limit_def)
    next
      case ko: False
      define t1 where "t1 = now + b + min d limit"
      define b' where "b' = min (2 * b) maxBackoff"
      obtain res' waits' t' where r: "reconnect_loop dial budget (a + 1) b' t1 = (res', waits', t')"
        by (metis prod_cases3)
      have "reconnect_loop dial budget a b now = (res', b # waits', t')"
        by (rule reconnect_loop_retry[of b budget now dial a d ok, OF False d]) (use ko r in \<open>simp_all add: limit_def t1_def b'_def\<close>)
      then have eq: "res = res'" "waits = b # waits'" using "1.prems"(1) by simp_all
      have IH: "t1 + sum_list waits' \<le> max t1 budget \<and>
          (\<forall>k < length waits'. waits' ! k = min (b' * 2 ^ k) maxBackoff) \<and>
          (\<forall>n. res' = Some n \<longrightarrow> n + 1 = a + 1 + length waits' \<and> snd (dial n))"
        using "1.IH"[OF False refl d[symmetric] refl refl refl] ko r
        unfolding limit_def t1_def b'_def by simp
      have "min (b' * 2 ^ k) maxBackoff = min (b * 2 ^ Suc k) maxBackoff" for k
        unfolding b'_def by (rule min_double)
      then have "waits ! k = min (b * 2 ^ k) maxBackoff" if "k < length waits" for k
        using that IH eq(2) "1.prems"(2) by (cases k) auto
      moreover have "now + sum_list waits \<le> max now budget"
        using IH False eq(2) unfolding t1_def limit_def by auto
      ultimately show ?thesis using IH eq by auto
    qed
  qed
qed

text \<open>C34. Reconnecting ends within its budget: at most eight dials, preceded by
  waits of 1, 2, 4, 4, ... seconds, no later than 30 seconds after the failure
  and no later than the end of the session; when it succeeds it is the last
  dial made that connected.\<close>

theorem reconnect_bounded:
  assumes "reconnect dial deadline = (res, waits, t)"
  shows "t \<le> reconnectBudget \<and> t \<le> deadline \<and> length waits \<le> 8 \<and>
    (\<forall>k < length waits. waits ! k = min (1000 * 2 ^ k) maxBackoff) \<and>
    (\<forall>n. res = Some n \<longrightarrow> n = length waits \<and> snd (dial n))"
proof -
  let ?B = "min reconnectBudget deadline"
  have r: "reconnect_loop dial ?B 1 1000 0 = (res, waits, t)" using assms by (simp add: reconnect_def)
  note w = reconnect_loop_waits[OF r] and t = reconnect_loop_time[OF r]
  have "sum_list waits \<le> 30000" using w by (simp add: reconnectBudget_def maxBackoff_def)
  moreover have "sum_list waits = (\<Sum>k < length waits. min (1000 * 2 ^ k) 4000)"
    using w by (simp add: sum_list_sum_nth atLeast0LessThan maxBackoff_def)
  moreover have "(\<Sum>k < 9. min (1000 * 2 ^ k) (4000::nat)) \<le> (\<Sum>k < length waits. min (1000 * 2 ^ k) 4000)"
    if "9 \<le> length waits"
    using that by (intro sum_mono2) auto
  moreover have "(\<Sum>k < 9. min (1000 * 2 ^ k) (4000::nat)) = 31000"
    by (simp add: lessThan_nat_numeral lessThan_Suc)
  ultimately have "length waits \<le> 8" by linarith
  then show ?thesis using w t by (auto simp: maxBackoff_def)
qed

theorem reconnect_bounded_witness:
  "reconnect (\<lambda>n. (100, n = 3)) 60000 = (Some 3, [1000, 2000, 4000], 7300) \<and> (7300 :: nat) \<le> reconnectBudget"
proof -
  have "reconnect (\<lambda>n. (100, n = 3)) 60000 = (Some 3, [1000, 2000, 4000], 7300)"
    by (simp add: reconnect_def reconnectBudget_def maxBackoff_def reconnect_loop.simps)
  with reconnect_bounded[OF this] show ?thesis by blast
qed

end
