(* ===== verification/Webhook_Client.thy ===== *)
theory Webhook_Client
  imports Signer Ssrf
begin

text \<open>
  The outgoing fetches that return TwiML: \<^verbatim>\<open>webhook/client.go\<close> (a primary URL with an
  optional fallback, HTTPS only) and \<^verbatim>\<open>webhook/voice.go\<close> (the voice webhook of an
  incoming call, signed, with a bypass for local development).  The HTTP
  transport is an argument; every request handed to it is kept in a list, so
  that the theorems can speak of what leaves the process.
\<close>

section \<open>Requests and replies\<close>

type_synonym new_request = "string \<Rightarrow> string \<Rightarrow> string + string"

text \<open>A reply has a status and a body; \<open>rep_broken\<close> is the error with which the
  connection breaks after the bytes of the body, if it does.\<close>

record http_reply =
  rep_status :: int
  rep_body :: "byte list"
  rep_broken :: "string option"

datatype fetch_error =
    FetchEmptyURL
  | FetchNonHTTPS
  | FetchBuild string
  | FetchRequest string
  | FetchTimeout string
  | FetchReadBody string
  | FetchNon2xx int
  | FetchAllAttemptsFailed fetch_error fetch_error

definition maxResponseBytes :: nat where "maxResponseBytes = 1048576"

text \<open>\<^verbatim>\<open>io.ReadAll(io.LimitReader(body, maxResponseBytes))\<close>: the error of a broken
  connection is met only when fewer bytes than the limit precede it.\<close>

definition limit_read :: "http_reply \<Rightarrow> string + byte list" where
  "limit_read r =
    (case rep_broken r of
       Some e \<Rightarrow> if length (rep_body r) < maxResponseBytes then Inl e else Inr (take maxResponseBytes (rep_body r))
     | None \<Rightarrow> Inr (take maxResponseBytes (rep_body r)))"

definition read_reply :: "http_reply \<Rightarrow> fetch_error + byte list" where
  "read_reply r =
    (case limit_read r of
       Inl e \<Rightarrow> Inl (FetchReadBody e)
     | Inr b \<Rightarrow> if rep_status r < 200 \<or> rep_status r \<ge> 300 then Inl (FetchNon2xx (rep_status r)) else Inr b)"

section \<open>The client for Url=\<close>

record fetch_target =
  ft_URL :: string
  ft_Method :: string
  ft_Body :: string

record fetch_result =
  fr_Body :: "byte list"
  fr_StatusCode :: int
  fr_URLUsed :: string
  fr_Attempts :: nat

text \<open>\<open>newreq\<close> is \<^verbatim>\<open>http.NewRequest\<close>, which refuses a malformed method or URL and
  otherwise gives the parsed URL; \<open>send\<close> is the client's \<^verbatim>\<open>Do\<close>.\<close>

definition fetch_request :: "new_request \<Rightarrow> fetch_target \<Rightarrow> string + http_request" where
  "fetch_request newreq t =
    (let meth = (if ft_Method t = '''' then ''POST'' else ft_Method t);
         withBody = (meth = ''POST'' \<and> ft_Body t \<noteq> '''')
     in map_sum id (\<lambda>u. \<lparr> req_method = meth, req_url = u,
            req_body = (if withBody then Body (ft_Body t) else NoBody), req_raw_url = None,
            req_headers = (if withBody then [''Content-Type'' \<mapsto> ''application/x-www-form-urlencoded''] else Map.empty)
              (''Accept'' \<mapsto> ''application/xml, text/xml, */*'') \<rparr>)
          (newreq meth (ft_URL t)))"

definition Fetch :: "new_request \<Rightarrow> (http_request \<Rightarrow> string + http_reply) \<Rightarrow>
    fetch_target \<Rightarrow> (fetch_error + fetch_result) \<times> http_request list" where
  "Fetch newreq send t =
    (if ft_URL t = '''' then (Inl FetchEmptyURL, [])
     else if \<not> has_prefix (ft_URL t) ''https://'' then (Inl FetchNonHTTPS, [])
     else case fetch_request newreq t of
       Inl e \<Rightarrow> (Inl (FetchBuild e), [])
     | Inr req \<Rightarrow>
        ((case send req of
            Inl e \<Rightarrow> Inl (FetchRequest e)
          | Inr rep \<Rightarrow> map_sum id (\<lambda>b. \<lparr> fr_Body = b, fr_StatusCode = rep_status rep, fr_URLUsed = ft_URL t,
                                        fr_Attempts = 1 \<rparr>) (read_reply rep)), [req]))"

definition FetchWithFallback :: "new_request \<Rightarrow> (http_request \<Rightarrow> string + http_reply) \<Rightarrow>
    (http_request \<Rightarrow> string + http_reply) \<Rightarrow> fetch_target \<Rightarrow> fetch_target \<Rightarrow>
    (fetch_error + fetch_result) \<times> http_request list" where
  "FetchWithFallback newreq send1 send2 prim fallback =
    (case Fetch newreq send1 prim of
       (Inr r, reqs) \<Rightarrow> (Inr r, reqs)
     | (Inl e, reqs) \<Rightarrow>
        (if e = FetchEmptyURL \<or> e = FetchNonHTTPS then (Inl e, reqs)
         else if ft_URL fallback = '''' then (Inl e, reqs)
         else case Fetch newreq send2 fallback of
           (Inr r, reqs') \<Rightarrow> (Inr (r\<lparr> fr_Attempts := 2 \<rparr>), reqs @ reqs')
         | (Inl e', reqs') \<Rightarrow> (Inl (FetchAllAttemptsFailed e e'), reqs @ reqs')))"

section \<open>The voice client\<close>

record voice_params =
  vp_CallSid :: string
  vp_AccountSid :: string
  vp_From :: string
  vp_To :: string

record voice_client =
  vc_primaryURL :: string
  vc_primaryMethod :: string
  vc_fallbackURL :: string
  vc_fallbackMethod :: string
  vc_authToken :: string

definition upper_char :: "char \<Rightarrow> char" where
  "upper_char c = (let n = of_char c :: nat in if 97 \<le> n \<and> n \<le> 122 then char_of (n - 32) else c)"

definition to_upper :: "string \<Rightarrow> string" where
  "to_upper s = map upper_char s"

definition isLocalhostHTTP :: "string \<Rightarrow> bool" where
  "isLocalhostHTTP u =
    (has_prefix u ''http://'' \<and>
     (let rest = trim_prefix u ''http://'' in has_prefix rest ''localhost'' \<or> has_prefix rest ''127.0.0.1''))"

definition isAllowedVoiceURL :: "string \<Rightarrow> bool" where
  "isAllowedVoiceURL u = (has_prefix u ''https://'' \<or> isLocalhostHTTP u)"

definition buildForm :: "voice_params \<Rightarrow> url_values" where
  "buildForm p =
    [(''CallSid'', [vp_CallSid p]), (''AccountSid'', [vp_AccountSid p]), (''From'', [vp_From p]), (''To'', [vp_To p]),
     (''CallStatus'', [''ringing'']), (''Direction'', [''inbound'']), (''ApiVersion'', [''2010-04-01'']),
     (''ForwardedFrom'', [''''])]"

definition voice_request :: "new_request \<Rightarrow> string \<Rightarrow> string \<Rightarrow> string \<Rightarrow> url_values \<Rightarrow>
    string + http_request" where
  "voice_request newreq authToken targetURL meth form =
    (let post = (to_upper meth = ''POST'');
         h0 = (if post then [''Content-Type'' \<mapsto> ''application/x-www-form-urlencoded''] else Map.empty);
         h1 = h0(''Accept'' \<mapsto> ''application/xml, text/xml, */*'');
         h2 = (if authToken \<noteq> '''' then h1(''X-Twilio-Signature'' \<mapsto> Sign authToken targetURL (if post then form else [])) else h1)
     in map_sum id (\<lambda>u. \<lparr> req_method = to_upper meth, req_url = u,
            req_body = (if post then Body (form_encode form) else NoBody), req_raw_url = None, req_headers = h2 \<rparr>)
          (newreq (to_upper meth) targetURL))"

text \<open>The client is chosen by the URL: \<open>send True\<close> is the plain dialer, \<open>send False\<close>
  the one behind the SSRF guard.  \<open>ctx\<close> is the error of the context, if it is
  over.\<close>

type_synonym voice_send = "bool \<Rightarrow> http_request \<Rightarrow> string + http_reply"

definition fetchOne :: "new_request \<Rightarrow> voice_send \<Rightarrow> string option \<Rightarrow> string \<Rightarrow> string \<Rightarrow> string \<Rightarrow>
    url_values \<Rightarrow> (fetch_error + byte list) \<times> (string \<times> bool \<times> http_request) list" where
  "fetchOne newreq send ctx authToken targetURL meth form =
    (if targetURL = '''' then (Inl FetchEmptyURL, [])
     else if \<not> isAllowedVoiceURL targetURL then (Inl FetchNonHTTPS, [])
     else case voice_request newreq authToken targetURL meth form of
       Inl e \<Rightarrow> (Inl (FetchBuild e), [])
     | Inr req \<Rightarrow>
        (let dev = isLocalhostHTTP targetURL in
         ((case send dev req of
             Inl e \<Rightarrow> Inl (case ctx of Some c \<Rightarrow> FetchTimeout c | None \<Rightarrow> FetchRequest e)
           | Inr rep \<Rightarrow> read_reply rep), [(targetURL, dev, req)])))"

fun fetch_msg :: "fetch_error \<Rightarrow> string" where
  "fetch_msg FetchEmptyURL = ''webhook: empty URL''"
| "fetch_msg FetchNonHTTPS = ''webhook: non-https URL not permitted''"
| "fetch_msg (FetchBuild e) = ''voice: build request: '' @ e"
| "fetch_msg (FetchRequest e) = ''voice: request: '' @ e"
| "fetch_msg (FetchTimeout c) = ''voice: timeout: '' @ c"
| "fetch_msg (FetchReadBody e) = ''voice: read body: '' @ e"
| "fetch_msg (FetchNon2xx n) = ''voice: non-2xx status '' @ itoa n"
| "fetch_msg (FetchAllAttemptsFailed a b) =
    ''webhook: all attempts failed: primary='' @ fetch_msg a @ '' fallback='' @ fetch_msg b"

definition httpErrOutcome :: "fetch_error option \<Rightarrow> string" where
  "httpErrOutcome err =
    (case err of
       None \<Rightarrow> ''ok''
     | Some e \<Rightarrow>
        (let msg = fetch_msg e in
         if contains_str msg ''timeout'' \<or> contains_str msg ''context deadline'' \<or> contains_str msg ''context canceled''
         then ''timeout'' else ''http_error''))"

text \<open>The result, the label counted in \<^verbatim>\<open>VoiceFetchTotal\<close>, and the requests made.\<close>

definition VoiceFetch :: "new_request \<Rightarrow> voice_send \<Rightarrow> voice_send \<Rightarrow> string option \<Rightarrow> string option \<Rightarrow>
    voice_client \<Rightarrow> voice_params \<Rightarrow>
    (fetch_error + byte list \<times> string) \<times> string \<times> (string \<times> bool \<times> http_request) list" where
  "VoiceFetch newreq send1 send2 ctx1 ctx2 c p =
    (let form = buildForm p in
     case fetchOne newreq send1 ctx1 (vc_authToken c) (vc_primaryURL c) (vc_primaryMethod c) form of
       (Inr body, reqs) \<Rightarrow> (Inr (body, ''primary''), ''ok'', reqs)
     | (Inl e, reqs) \<Rightarrow>
        (if vc_fallbackURL c = '''' then (Inl e, httpErrOutcome (Some e), reqs)
         else case fetchOne newreq send2 ctx2 (vc_authToken c) (vc_fallbackURL c) (vc_fallbackMethod c) form of
           (Inr body, reqs') \<Rightarrow> (Inr (body, ''fallback''), ''fallback_ok'', reqs @ reqs')
         | (Inl e', reqs') \<Rightarrow> (Inl (FetchAllAttemptsFailed e e'), ''http_error'', reqs @ reqs')))"

section \<open>The fallback\<close>

lemma limit_read_bound: "limit_read r = Inr b \<Longrightarrow> length b \<le> maxResponseBytes"
  by (auto simp: limit_read_def split: if_splits option.splits)

lemma read_reply_bound: "read_reply r = Inr b \<Longrightarrow> length b \<le> maxResponseBytes \<and> 200 \<le> rep_status r \<and> rep_status r < 300"
  by (auto simp: read_reply_def dest: limit_read_bound split: sum.splits if_splits)

lemma Fetch_requests:
  "length (snd (Fetch newreq send t)) \<le> 1"
  "\<not> has_prefix (ft_URL t) ''https://'' \<Longrightarrow> snd (Fetch newreq send t) = []"
  by (auto simp: Fetch_def split: sum.splits)

lemma Fetch_result:
  assumes "Fetch newreq send t = (Inr r, reqs)"
  shows "fr_URLUsed r = ft_URL t \<and> fr_Attempts r = 1 \<and> length (fr_Body r) \<le> maxResponseBytes \<and>
    200 \<le> fr_StatusCode r \<and> fr_StatusCode r < 300 \<and> has_prefix (ft_URL t) ''https://'' \<and> length reqs = 1"
  using assms read_reply_bound by (auto simp: Fetch_def map_sum_def split: if_splits sum.splits)

lemma Fetch_caller_error:
  "Fetch newreq send t = (Inl e, reqs) \<Longrightarrow> (e = FetchEmptyURL \<or> e = FetchNonHTTPS) = (\<not> has_prefix (ft_URL t) ''https://'')"
  by (auto simp: Fetch_def read_reply_def has_prefix_def split: if_splits sum.splits)


definition demo_send :: "http_request \<Rightarrow> string + http_reply" where
  "demo_send req =
    (if req_url req = ''https://b/'' then Inr \<lparr> rep_status = 200, rep_body = [60], rep_broken = None \<rparr>
     else Inl ''dial tcp: connection refused'')"


section \<open>The voice webhook\<close>

lemma has_prefix_trim: "has_prefix u a \<and> has_prefix (trim_prefix u a) b \<longleftrightarrow> has_prefix u (a @ b)"
  by (fastforce simp: has_prefix_iff)

lemma fetchOne_requests:
  "(u, dev, req) \<in> set (snd (fetchOne newreq send ctx tok target meth form)) \<Longrightarrow>
    u = target \<and> dev = isLocalhostHTTP target \<and> isAllowedVoiceURL target \<and> voice_request newreq tok target meth form = Inr req"
  by (auto simp: fetchOne_def Let_def split: if_splits sum.splits)

lemma buildForm_distinct: "distinct (map fst (buildForm p))"
  by (simp add: buildForm_def)

text \<open>Signing by hand, as the voice client does, agrees with the signing transport
  of the status callbacks on the same request.\<close>

lemma voice_request_signature:
  assumes "voice_request newreq tok target meth form = Inr req" "distinct (map fst form)" "tok \<noteq> []" "target \<noteq> []"
  shows "map_sum id (\<lambda>r. req_headers r ''X-Twilio-Signature'') (RoundTrip tok (req\<lparr> req_raw_url := Some target \<rparr>)) =
      Inr (req_headers req ''X-Twilio-Signature'')"
proof -
  obtain u where u: "newreq (to_upper meth) target = Inr u" "req_method req = to_upper meth" "req_url req = u"
    "req_body req = (if to_upper meth = ''POST'' then Body (form_encode form) else NoBody)"
    "req_headers req ''X-Twilio-Signature'' = Some (Sign tok target (if to_upper meth = ''POST'' then form else []))"
    using assms(1,3) by (cases "newreq (to_upper meth) target") (auto simp: voice_request_def Let_def)
  show ?thesis
  proof (cases "to_upper meth = ''POST''")
    case True
    then have "req\<lparr> req_raw_url := Some target \<rparr> = \<lparr> req_method = ''POST'', req_url = u, req_body = Body (form_encode form),
        req_raw_url = Some target, req_headers = req_headers req \<rparr>"
      using u by simp
    then show ?thesis
      using RoundTrip_signs_form[OF assms(2), of tok u target "req_headers req"] u(5) True assms(4) by simp
  next
    case False
    then show ?thesis using u assms(4) by (simp add: RoundTrip_def)
  qed
qed

lemma VoiceFetch_parts:
  assumes "(u, dev, req) \<in> set (snd (snd (VoiceFetch newreq s1 s2 c1 c2 c p)))"
  shows "\<exists>target meth. (target, meth) \<in> {(vc_primaryURL c, vc_primaryMethod c), (vc_fallbackURL c, vc_fallbackMethod c)} \<and>
    u = target \<and> dev = isLocalhostHTTP target \<and> isAllowedVoiceURL target \<and>
    voice_request newreq (vc_authToken c) target meth (buildForm p) = Inr req"
proof -
  obtain r1 q1 where 1: "fetchOne newreq s1 c1 (vc_authToken c) (vc_primaryURL c) (vc_primaryMethod c) (buildForm p) = (r1, q1)"
    by fastforce
  obtain r2 q2 where 2: "fetchOne newreq s2 c2 (vc_authToken c) (vc_fallbackURL c) (vc_fallbackMethod c) (buildForm p) = (r2, q2)"
    by fastforce
  have "(u, dev, req) \<in> set q1 \<or> (u, dev, req) \<in> set q2"
    using assms 1 2 by (auto simp: VoiceFetch_def Let_def split: sum.splits if_splits)
  then show ?thesis
  proof
    assume "(u, dev, req) \<in> set q1"
    then show ?thesis using fetchOne_requests[of u dev req] 1 by (metis insertI1 snd_conv)
  next
    assume "(u, dev, req) \<in> set q2"
    then show ?thesis using fetchOne_requests[of u dev req] 2 by (metis insertI1 insertI2 snd_conv)
  qed
qed


definition demo_voice :: voice_client where
  "demo_voice = \<lparr> vc_primaryURL = ''https://a/'', vc_primaryMethod = ''post'', vc_fallbackURL = ''http://localhost:1/'',
     vc_fallbackMethod = ''GET'', vc_authToken = ''tok'' \<rparr>"

definition demo_params :: voice_params where
  "demo_params = \<lparr> vp_CallSid = ''CA1'', vp_AccountSid = ''AC1'', vp_From = ''+491'', vp_To = ''+492'' \<rparr>"


text \<open>The prefix test is wider than the hosts its comment names.\<close>

lemma isLocalhostHTTP_not_a_host_test:
  "isLocalhostHTTP ''http://localhost.example.org/'' \<and> isLocalhostHTTP ''http://127.0.0.1.example.org/''"
  by (simp add: isLocalhostHTTP_def has_prefix_def trim_prefix_def Let_def)

end
