(* ===== verification/Call_Manager.thy ===== *)
theory Call_Manager
  imports Port_Pool Media "HOL-Library.Multiset"
begin

text \<open>
  The registry of calls of \<^verbatim>\<open>bridge/manager.go\<close>: the two indices of live sessions,
  the five-minute cache of ended calls, pre-registration at INVITE time and its
  cleanup, the lifecycle of \<^verbatim>\<open>StartSessionWithPreRegistered\<close>, the shutdown drain,
  and the lookups of the REST API.  Sessions are shared objects: the indices
  hold references into a heap of sessions.  The last section splits the
  teardown into its atomic map operations and interleaves it with lookups.
\<close>

section \<open>Data\<close>

text \<open>A \<^verbatim>\<open>sync.Map\<close> is an association list without repeated keys; the order in which
  \<^verbatim>\<open>Range\<close> visits it is the order of the list and carries no meaning.\<close>

definition sm_load :: "('k \<times> 'v) list \<Rightarrow> 'k \<Rightarrow> 'v option" where
  "sm_load m k = map_of m k"

definition sm_delete :: "'k \<Rightarrow> ('k \<times> 'v) list \<Rightarrow> ('k \<times> 'v) list" where
  "sm_delete k m = filter (\<lambda>kv. fst kv \<noteq> k) m"

definition sm_store :: "'k \<Rightarrow> 'v \<Rightarrow> ('k \<times> 'v) list \<Rightarrow> ('k \<times> 'v) list" where
  "sm_store k v m = (k, v) # sm_delete k m"

lemma sm_load_delete [simp]: "sm_load (sm_delete k m) k' = (if k' = k then None else sm_load m k')"
  by (induction m) (auto simp: sm_load_def sm_delete_def)

lemma sm_load_store [simp]: "sm_load (sm_store k v m) k' = (if k' = k then Some v else sm_load m k')"
  using sm_load_delete[of k m k'] by (simp add: sm_store_def sm_load_def)

lemma sm_load_Nil [simp]: "sm_load [] k = None"
  by (simp add: sm_load_def)

record terminated_call =
  tc_callSid :: string
  tc_accountSid :: string
  tc_from :: string
  tc_to :: string
  tc_direction :: string
  tc_status :: string
  tc_startTime :: int
  tc_endTime :: "int option"
  tc_duration :: int

type_synonym session_ref = nat

record call_manager =
  cm_heap :: "call_session list"
  cm_sessions :: "(string \<times> session_ref) list"
  cm_callSidIdx :: "(string \<times> session_ref) list"
  cm_recentlyTerminated :: "(string \<times> terminated_call) list"
  cm_portPool :: port_pool
  cm_accountSid :: string
  cm_hasStatusWC :: bool
  cm_defaultURL :: string
  cm_defaultMethod :: string
  cm_defaultEvents :: string
  cm_activeCalls :: int
  cm_cleaned :: "session_ref list"

text \<open>What the REST API reads of a call, live or ended.\<close>

datatype bridge_call = LiveCall call_session | EndedCall terminated_call

fun bc_startTime :: "bridge_call \<Rightarrow> int" where
  "bc_startTime (LiveCall s) = s_startTime s"
| "bc_startTime (EndedCall t) = tc_startTime t"

fun bc_callSid :: "bridge_call \<Rightarrow> string" where
  "bc_callSid (LiveCall s) = s_callSid s"
| "bc_callSid (EndedCall t) = tc_callSid t"

text \<open>Times are in nanoseconds.\<close>

definition recentlyTerminatedTTL :: int where "recentlyTerminatedTTL = 300000000000"

definition snapshot :: "call_session \<Rightarrow> terminated_call" where
  "snapshot s = \<lparr> tc_callSid = s_callSid s, tc_accountSid = s_accountSid s, tc_from = s_from s, tc_to = s_to s,
     tc_direction = ''inbound'', tc_status = Status s, tc_startTime = s_startTime s, tc_endTime = EndTime s,
     tc_duration = Duration s \<rparr>"

definition NewCallManager :: "port_pool \<Rightarrow> string \<Rightarrow> bool \<Rightarrow> string \<Rightarrow> string \<Rightarrow> string \<Rightarrow> call_manager" where
  "NewCallManager pool acc hasWC url meth events =
    \<lparr> cm_heap = [], cm_sessions = [], cm_callSidIdx = [], cm_recentlyTerminated = [], cm_portPool = pool,
      cm_accountSid = acc, cm_hasStatusWC = hasWC, cm_defaultURL = url, cm_defaultMethod = meth,
      cm_defaultEvents = events, cm_activeCalls = 0, cm_cleaned = [] \<rparr>"

section \<open>Lookups\<close>

definition expired :: "int \<Rightarrow> terminated_call \<Rightarrow> bool" where
  "expired now t = (case tc_endTime t of None \<Rightarrow> True | Some e \<Rightarrow> now - e > recentlyTerminatedTTL)"

definition sweepRecentlyTerminatedOnce :: "int \<Rightarrow> call_manager \<Rightarrow> call_manager" where
  "sweepRecentlyTerminatedOnce now m =
    m\<lparr> cm_recentlyTerminated := filter (\<lambda>kv. \<not> expired now (snd kv)) (cm_recentlyTerminated m) \<rparr>"

definition GetByCallSid :: "call_manager \<Rightarrow> string \<Rightarrow> bridge_call option" where
  "GetByCallSid m callSid =
    (case sm_load (cm_callSidIdx m) callSid of
       Some r \<Rightarrow> Some (LiveCall (cm_heap m ! r))
     | None \<Rightarrow> map_option EndedCall (sm_load (cm_recentlyTerminated m) callSid))"

text \<open>\<^verbatim>\<open>sort.Slice\<close> promises an order by start time, latest first, and nothing about
  ties; the model keeps ties in the order of the maps.\<close>

definition CallList :: "call_manager \<Rightarrow> bridge_call list" where
  "CallList m =
    sort_key (\<lambda>c. - bc_startTime c)
      (map (\<lambda>kr. LiveCall (cm_heap m ! snd kr)) (cm_callSidIdx m) @ map (EndedCall \<circ> snd) (cm_recentlyTerminated m))"

definition ActiveCount :: "call_manager \<Rightarrow> nat" where
  "ActiveCount m = length (cm_sessions m)"

definition is_forwarding :: "call_state \<Rightarrow> bool" where
  "is_forwarding st = (st = StateForwardingSetup \<or> st = StateDialingOut \<or> st = StateForwarding)"

definition ActiveForwardCount :: "call_manager \<Rightarrow> nat" where
  "ActiveForwardCount m = length (filter (\<lambda>kr. is_forwarding (s_state (cm_heap m ! snd kr))) (cm_sessions m))"

definition AcquirePort :: "call_manager \<Rightarrow> (pool_error + int) \<times> call_manager" where
  "AcquirePort m = (let (r, p) = Acquire (cm_portPool m) in (r, m\<lparr> cm_portPool := p \<rparr>))"

definition ReleasePort :: "int \<Rightarrow> call_manager \<Rightarrow> call_manager" where
  "ReleasePort port m = m\<lparr> cm_portPool := Release (cm_portPool m) port \<rparr>"

definition upd_session :: "session_ref \<Rightarrow> (call_session \<Rightarrow> call_session) \<Rightarrow> call_manager \<Rightarrow> call_manager" where
  "upd_session r f m = m\<lparr> cm_heap := (cm_heap m)[r := f (cm_heap m ! r)] \<rparr>"

section \<open>Pre-registration\<close>

definition default_events :: "string \<Rightarrow> string set" where
  "default_events cfg = set (filter (\<lambda>e. e \<noteq> []) (map (\<lambda>e. trim_space (to_lower e)) (split_on (CHR '','') cfg)))"

text \<open>The shell of a session: no legs yet, state Streaming, and the operator's
  default subscription when one is configured.\<close>

definition session_shell :: "call_manager \<Rightarrow> string \<Rightarrow> string \<Rightarrow> string \<Rightarrow> string \<Rightarrow> string \<Rightarrow> int \<Rightarrow> call_session" where
  "session_shell m callSid callID acc from to startTime =
    \<lparr> s_callID = callID, s_callSid = callSid, s_accountSid = acc, s_from = from, s_to = to,
      s_startTime = startTime, s_terminal = None,
      s_statusCallback = (if cm_defaultURL m \<noteq> '''' then
         Some \<lparr> scb_URL = cm_defaultURL m, scb_Method = cm_defaultMethod m,
                scb_Events = default_events (cm_defaultEvents m), scb_Trusted = True \<rparr> else None),
      s_seqCounter = 0, s_answeredAt = None, s_sipFinalCode = 0, s_everEmitted = False,
      s_hasStatusWC = cm_hasStatusWC m, s_state = StateStreaming, s_legs = [],
      s_dtmfQueue = chan_make 0, s_markEchoQueue = chan_make 0, s_clearSignal = False, s_running = False, s_cancelled = False,
      s_wsCancelled = False, s_hasWsConn = False, s_streamClosed = False, s_stopReason = '''',
      s_closeStreamOnce = False, s_terminateOnce = False, s_log = [] \<rparr>"

definition PreRegisterSession :: "string \<Rightarrow> string \<Rightarrow> string \<Rightarrow> string \<Rightarrow> string \<Rightarrow> int \<Rightarrow> call_manager \<Rightarrow>
    session_ref \<times> call_manager" where
  "PreRegisterSession callSid callID acc from to startTime m =
    (let r = length (cm_heap m);
         s = session_shell m callSid callID acc from to startTime
     in (r, m\<lparr> cm_heap := cm_heap m @ [s],
               cm_sessions := sm_store callID r (cm_sessions m),
               cm_callSidIdx := sm_store callSid r (cm_callSidIdx m),
               cm_activeCalls := cm_activeCalls m + 1 \<rparr>))"

text \<open>The atomic parts of both teardown paths: stamp an end that is missing, store
  the snapshot, remove the session from the indices.\<close>

definition td_stamp :: "session_env \<Rightarrow> int \<Rightarrow> session_ref \<Rightarrow> call_manager \<Rightarrow> call_manager" where
  "td_stamp env now r m =
    (if EndTime (cm_heap m ! r) = None then upd_session r (markTerminated (se_rfc1123z env) now ''failed'') m else m)"

definition td_snapshot :: "session_ref \<Rightarrow> call_manager \<Rightarrow> call_manager" where
  "td_snapshot r m =
    m\<lparr> cm_recentlyTerminated := sm_store (s_callSid (cm_heap m ! r)) (snapshot (cm_heap m ! r)) (cm_recentlyTerminated m) \<rparr>"

definition td_unlist :: "session_ref \<Rightarrow> call_manager \<Rightarrow> call_manager" where
  "td_unlist r m = m\<lparr> cm_sessions := sm_delete (s_callID (cm_heap m ! r)) (cm_sessions m) \<rparr>"

definition td_unindex :: "session_ref \<Rightarrow> call_manager \<Rightarrow> call_manager" where
  "td_unindex r m =
    m\<lparr> cm_callSidIdx := sm_delete (s_callSid (cm_heap m ! r)) (cm_callSidIdx m), cm_activeCalls := cm_activeCalls m - 1 \<rparr>"

definition cleanup :: "session_env \<Rightarrow> int \<Rightarrow> session_ref \<Rightarrow> call_manager \<Rightarrow> call_manager" where
  "cleanup env now r m =
    (if r \<in> set (cm_cleaned m) then m
     else
       let m1 = m\<lparr> cm_cleaned := r # cm_cleaned m \<rparr>;
           m2 = (if s_everEmitted (cm_heap m1 ! r) then td_snapshot r (td_stamp env now r m1) else m1)
       in td_unindex r (td_unlist r m2))"

definition teardown :: "session_env \<Rightarrow> int \<Rightarrow> session_ref \<Rightarrow> call_manager \<Rightarrow> call_manager" where
  "teardown env now r m = td_unindex r (td_unlist r (td_snapshot r (td_stamp env now r m)))"

section \<open>Running a session\<close>

text \<open>\<^verbatim>\<open>session.run\<close> from the session it is given to the one it leaves, through any
  interleaving of the goroutines.\<close>

inductive run_result :: "session_env \<Rightarrow> call_session \<Rightarrow> call_session \<Rightarrow> bool" for env where
  early: "run_start a b c d e s = (False, s') \<Longrightarrow> run_result env s s'"
| loop: "run_start a b c d e s = (True, s1) \<Longrightarrow> (media_step env)\<^sup>*\<^sup>* (media_init s1) m \<Longrightarrow>
    ms_phase m = RunReturned \<Longrightarrow> run_result env s (ms_session m)"

text \<open>The leg built for the caller.  The silence frame and the media format come
  from the negotiated payload type; \<open>sdp\<close> holds the caller's address, port and
  DTMF payload type.\<close>

definition inbound_leg :: "int \<Rightarrow> string \<times> int \<Rightarrow> nat \<Rightarrow> nat \<Rightarrow> byte list \<Rightarrow> string \<times> int \<Rightarrow> leg" where
  "inbound_leg rtpPort remote dtmfPT audioPT silence fmt =
    \<lparr> l_hasDialog = True, l_rtpPort = rtpPort, l_remoteRTP = Some remote, l_dtmfPT = dtmfPT, l_audioPT = audioPT,
      l_silenceFrame = Some silence, l_mediaEncoding = fst fmt, l_mediaSampleRate = snd fmt,
      l_packetQueue = Some (chan_make packetQueueSize), l_rtpInboundQueue = Some (chan_make rtpInboundQueueSize),
      l_lastDtmfTS = 0, l_byeOnce = False, l_outboundQueue = None, l_isOutbound = False, l_contactIP = '''',
      l_hasSession = False \<rparr>"

text \<open>The whole function: attach the caller's leg, dial the WebSocket (a failure
  sends a BYE), run the session, then the deferred teardown and the release of
  the port.  \<open>run\<close> is what the run makes of the session, a value that
  \<^const>\<open>run_result\<close> allows.\<close>

definition StartSessionWithPreRegistered ::
    "session_env \<Rightarrow> int \<Rightarrow> session_ref \<Rightarrow> leg \<Rightarrow> bool \<Rightarrow> (call_session \<Rightarrow> call_session) \<Rightarrow> call_manager \<Rightarrow> call_manager" where
  "StartSessionWithPreRegistered env now r lg ws_ok run m =
    (let m1 = upd_session r (SetLeg 0 (Some lg)) m;
         m2 = upd_session r (if ws_ok then run else session_do (SendBye 0)) m1;
         m3 = teardown env now r m2
     in ReleasePort (l_rtpPort lg) m3)"

definition StartSession ::
    "session_env \<Rightarrow> int \<Rightarrow> int \<Rightarrow> string \<Rightarrow> string \<Rightarrow> string \<Rightarrow> string \<Rightarrow> leg \<Rightarrow> bool \<Rightarrow> (call_session \<Rightarrow> call_session) \<Rightarrow>
     call_manager \<Rightarrow> call_manager" where
  "StartSession env t0 now callSid callID from to lg ws_ok run m =
    (let (r, m1) = PreRegisterSession callSid callID (cm_accountSid m) from to t0 m
     in StartSessionWithPreRegistered env now r lg ws_ok run m1)"

text \<open>The first half of \<^verbatim>\<open>DrainAll\<close>: terminate every session the map holds; the second
  half only polls until the sessions have torn themselves down.\<close>

definition DrainAll :: "session_env \<Rightarrow> int \<Rightarrow> call_manager \<Rightarrow> call_manager" where
  "DrainAll env now m =
    fold (\<lambda>kr. upd_session (snd kr) (\<lambda>s. snd (Terminate (se_rfc1123z env) (se_bye_err env) now ''shutdown'' s)))
      (cm_sessions m) m"

section \<open>What a run leaves of a session\<close>

definition ident :: "call_session \<Rightarrow> string \<times> string \<times> int" where
  "ident s = (s_callSid s, s_callID s, s_startTime s)"

definition term_wf :: "call_session \<Rightarrow> bool" where
  "term_wf s \<longleftrightarrow> (s_terminateOnce s \<longleftrightarrow> s_terminal s \<noteq> None)"

text \<open>A step keeps the identity, keeps the end well formed, and never changes an
  end that has been stamped.\<close>

definition keeps :: "call_session \<Rightarrow> call_session \<Rightarrow> bool" where
  "keeps s s' \<longleftrightarrow> ident s' = ident s \<and> (term_wf s \<longrightarrow> term_wf s' \<and> (\<forall>x. s_terminal s = Some x \<longrightarrow> s_terminal s' = Some x))"

definition untouched :: "call_session \<Rightarrow> call_session \<Rightarrow> bool" where
  "untouched s s' \<longleftrightarrow> ident s' = ident s \<and> s_terminal s' = s_terminal s \<and> s_terminateOnce s' = s_terminateOnce s"

lemma keeps_refl [simp]: "keeps s s"
  by (simp add: keeps_def)

lemma keeps_trans: "keeps a b \<Longrightarrow> keeps b c \<Longrightarrow> keeps a c"
  by (auto simp: keeps_def)

lemma untouched_keeps: "untouched s s' \<Longrightarrow> keeps s s'"
  by (simp add: keeps_def untouched_def term_wf_def)

lemma untouched_refl [simp]: "untouched s s"
  by (simp add: untouched_def)

lemma untouched_trans: "untouched a b \<Longrightarrow> untouched b c \<Longrightarrow> untouched a c"
  by (simp add: untouched_def)

lemma untouched_do [simp]: "untouched s (session_do e s')= untouched s s'"
  by (simp add: untouched_def ident_def session_do_def)

lemma untouched_leg [simp]: "untouched s (update_leg i f s') = untouched s s'"
  by (simp add: untouched_def ident_def update_leg_def)

lemma untouched_queue [simp]: "untouched s (with_packetQueue f s') = untouched s s'"
  by (simp add: with_packetQueue_def)

lemma untouched_fields [simp]:
  "untouched s (s'\<lparr> s_running := b \<rparr>) = untouched s s'" "untouched s (cancel_ctx s') = untouched s s'"
  "untouched s (s'\<lparr> s_cancelled := b \<rparr>) = untouched s s'" "untouched s (s'\<lparr> s_wsCancelled := b \<rparr>) = untouched s s'"
  "untouched s (s'\<lparr> s_dtmfQueue := q \<rparr>) = untouched s s'" "untouched s (s'\<lparr> s_markEchoQueue := q \<rparr>) = untouched s s'"
  "untouched s (s'\<lparr> s_clearSignal := b \<rparr>) = untouched s s'" "untouched s (s'\<lparr> s_hasWsConn := b \<rparr>) = untouched s s'"
  "untouched s (s'\<lparr> s_closeStreamOnce := b \<rparr>) = untouched s s'" "untouched s (s'\<lparr> s_streamClosed := b \<rparr>) = untouched s s'"
  "untouched s (s'\<lparr> s_stopReason := r \<rparr>) = untouched s s'" "untouched s (s'\<lparr> s_state := st \<rparr>) = untouched s s'"
  "untouched s (s'\<lparr> s_legs := ls \<rparr>) = untouched s s'" "untouched s (s'\<lparr> s_statusCallback := cfg \<rparr>) = untouched s s'"
  "untouched s (s'\<lparr> s_seqCounter := n \<rparr>) = untouched s s'" "untouched s (s'\<lparr> s_answeredAt := at \<rparr>) = untouched s s'"
  "untouched s (s'\<lparr> s_sipFinalCode := c \<rparr>) = untouched s s'" "untouched s (s'\<lparr> s_everEmitted := b \<rparr>) = untouched s s'"
  by (simp_all add: untouched_def ident_def cancel_ctx_def)

lemma untouched_cas [simp]: "untouched s (state_cas a b s') = untouched s s'"
  by (simp add: state_cas_def)

lemma untouched_leg_bye [simp]: "untouched s (snd (leg_bye b i s')) = untouched s s'"
  by (simp add: leg_bye_def Let_def split: option.split)

lemma untouched_bye_all: "untouched s (snd (bye_all b is s))"
proof (induction "is" arbitrary: s)
  case (Cons i "is")
  then show ?case
    using untouched_trans[of s "snd (leg_bye b i s)"] by (simp add: split_beta Let_def)
qed simp

lemma markTerminated_keeps: "keeps s (markTerminated f t r s)"
proof -
  have "ident (emitTerminalStatusCallback f r t s') = ident s'" for s'
    by (simp add: ident_def emitTerminalStatusCallback_def NextSequenceNumber_def MarkEmitted_def session_do_def Let_def
        split: option.split prod.split)
  then have "ident (markTerminated f t r s) = ident s"
    by (simp add: markTerminated_def session_do_def ident_def Let_def)
  then show ?thesis by (auto simp: keeps_def term_wf_def markTerminated_terminal)
qed

lemma Terminate_keeps: "keeps s (snd (Terminate f b t r s))"
proof -
  let ?m = "markTerminated f t r s"
  let ?s3 = "cancel_ctx (state_cas StateForwarding StateTerminated (state_cas StateDialingOut StateTerminated
      (state_cas StateStreaming StateTerminated ?m)))"
  have "untouched ?m ?s3" by simp
  then have "untouched ?m (snd (Terminate f b t r s))"
    using untouched_trans[OF _ untouched_bye_all] by (simp add: Terminate_def Let_def)
  then show ?thesis using keeps_trans[OF markTerminated_keeps untouched_keeps] by blast
qed

lemma CloseStream_untouched: "untouched s (CloseStream r s)"
  by (simp add: CloseStream_def Let_def)

lemma OnAnswered_untouched: "untouched s (snd (OnAnswered ok s))"
  by (simp add: OnAnswered_def split: option.split)

lemma session_exec_keeps: "keeps s (session_exec env op s)"
proof (cases op)
  case (OpMarkTerminated t r)
  then show ?thesis by (simp add: markTerminated_keeps)
next
  case (OpTerminate t r)
  then show ?thesis by (simp add: Terminate_keeps)
next
  case (OpSetAnsweredAt t)
  then show ?thesis by (simp add: untouched_keeps SetAnsweredAt_def split: option.split)
qed (rule untouched_keeps; simp add: CloseStream_untouched OnAnswered_untouched SetStatusCallback_def
      NextSequenceNumber_def SetSIPFinalCode_def MarkEmitted_def SetLeg_def Let_def)+

lemma handshake_untouched: "untouched s (handshake s)"
  by (simp add: handshake_def)

lemma reader_untouched: "untouched s (rtpReader_packet raw s)" "untouched s (calleeRtpReader_packet raw s)"
  by (simp_all add: rtpReader_packet_def dtmf_packet_def calleeRtpReader_packet_def Let_def
      split: option.split prod.split)

lemma wsPacer_untouched: "wsPacer_iter ev ok n s = (go, n', s') \<Longrightarrow> untouched s s'"
  by (auto simp: wsPacer_iter_def ws_write_def split: pacer_event.splits option.splits if_splits)

lemma wsToRTP_untouched: "wsToRTP_message msg s = (go, s') \<Longrightarrow> untouched s s'"
  by (auto simp: wsToRTP_message_def Let_def split: option.splits if_splits)

lemma drain_untouched: "drain_on_clear q s = (q', s') \<Longrightarrow> untouched s s'"
  by (auto simp: drain_on_clear_def split: if_splits)

lemma pacer_untouched:
  "rtpPacer_tick res p s = (p', s') \<Longrightarrow> untouched s s'"
  "calleeRtpPacer_tick res p s = (go, p', s') \<Longrightarrow> untouched s s'"
  by (auto simp: rtpPacer_tick_def calleeRtpPacer_tick_def Let_def dest!: drain_untouched
      split: option.splits prod.splits if_splits send_result.splits)

lemma run_end_keeps: "keeps s (run_end env now s)"
proof -
  let ?s = "if s_streamClosed s then s else session_do CloseWS (session_do (SendWS WsStop) s)"
  have "untouched s ?s" by simp
  then show ?thesis
    unfolding run_end_def using keeps_trans[OF untouched_keeps markTerminated_keeps] by blast
qed

lemma media_step_keeps: "media_step env m m' \<Longrightarrow> keeps (ms_session m) (ms_session m')"
proof (induction rule: media_step.induct)
  case (answered ok m s')
  then show ?case using OnAnswered_untouched[of "ms_session m" ok] by (simp add: untouched_keeps)
qed (auto simp: reader_untouched handshake_untouched CloseStream_untouched session_exec_keeps run_end_keeps
      intro!: untouched_keeps dest: wsPacer_untouched wsToRTP_untouched pacer_untouched)

lemma run_result_keeps: "run_result env s s' \<Longrightarrow> keeps s s'"
proof (induction rule: run_result.induct)
  case (early a b c d e s s')
  then show ?case by (intro untouched_keeps) (auto simp: run_start_def Let_def handshake_def split: if_splits)
next
  case (loop a b c d e s s1 m)
  then have "untouched s s1" by (auto simp: run_start_def Let_def handshake_def split: if_splits)
  moreover have "keeps (ms_session (media_init s1)) (ms_session m)"
    using loop(2) by (induction rule: rtranclp_induct) (auto intro: keeps_trans media_step_keeps)
  ultimately show ?case using keeps_trans[OF untouched_keeps] by (simp add: media_init_def)
qed

section \<open>The REST view\<close>

lemma sorted_neg_key: "sorted (map (\<lambda>c. - f c) xs) \<longleftrightarrow> sorted_wrt (\<lambda>a b. (f b :: int) \<le> f a) xs"
  by (simp add: sorted_map)

text \<open>The list of calls holds every live call and every ended call of the
  grace window exactly as often as the two maps hold it, latest start first, and
  whatever a lookup by CallSid finds is in the list.\<close>

theorem CallList_complete_sorted:
  "mset (CallList m) = mset (map (\<lambda>kr. LiveCall (cm_heap m ! snd kr)) (cm_callSidIdx m)) +
      mset (map (EndedCall \<circ> snd) (cm_recentlyTerminated m)) \<and>
   sorted_wrt (\<lambda>a b. bc_startTime b \<le> bc_startTime a) (CallList m) \<and>
   (\<forall>sid c. GetByCallSid m sid = Some c \<longrightarrow> c \<in> set (CallList m))"
proof (intro conjI allI impI)
  show "mset (CallList m) = mset (map (\<lambda>kr. LiveCall (cm_heap m ! snd kr)) (cm_callSidIdx m)) +
      mset (map (EndedCall \<circ> snd) (cm_recentlyTerminated m))"
    by (simp add: CallList_def)
  show "sorted_wrt (\<lambda>a b. bc_startTime b \<le> bc_startTime a) (CallList m)"
    unfolding CallList_def sorted_neg_key[symmetric] by simp
  fix sid c assume "GetByCallSid m sid = Some c"
  then show "c \<in> set (CallList m)"
    by (force simp: GetByCallSid_def CallList_def sm_load_def image_iff dest!: map_of_SomeD split: option.splits)
qed

definition demo_manager :: call_manager where
  "demo_manager = NewCallManager \<lparr> pp_ports = \<lparr> chan_cap = 2, chan_buf = [10000, 10001] \<rparr> \<rparr> ''AC1'' True '''' '''' ''''"

definition demo_two :: call_manager where
  "demo_two = snd (PreRegisterSession ''CA2'' ''id2'' ''AC1'' ''a'' ''b'' 20
     (snd (PreRegisterSession ''CA1'' ''id1'' ''AC1'' ''a'' ''b'' 10 demo_manager)))"

theorem CallList_complete_sorted_witness:
  "map bc_callSid (CallList demo_two) = [''CA2'', ''CA1''] \<and>
   LiveCall (cm_heap demo_two ! 0) \<in> set (CallList demo_two)"
proof
  show "map bc_callSid (CallList demo_two) = [''CA2'', ''CA1'']"
    by (simp add: demo_two_def demo_manager_def NewCallManager_def PreRegisterSession_def session_shell_def CallList_def
        sm_store_def sm_delete_def Let_def)
  have "GetByCallSid demo_two ''CA1'' = Some (LiveCall (cm_heap demo_two ! 0))"
    by (simp add: demo_two_def demo_manager_def NewCallManager_def PreRegisterSession_def GetByCallSid_def Let_def)
  then show "LiveCall (cm_heap demo_two ! 0) \<in> set (CallList demo_two)"
    using CallList_complete_sorted[of demo_two] by blast
qed

section \<open>The lifecycle of a session\<close>

lemma td_simps [simp]:
  "cm_heap (td_snapshot r m) = cm_heap m" "cm_heap (td_unlist r m) = cm_heap m" "cm_heap (td_unindex r m) = cm_heap m"
  "cm_portPool (td_snapshot r m) = cm_portPool m" "cm_portPool (td_unlist r m) = cm_portPool m"
  "cm_portPool (td_unindex r m) = cm_portPool m" "cm_portPool (td_stamp env now r m) = cm_portPool m"
  "cm_callSidIdx (td_stamp env now r m) = cm_callSidIdx m" "cm_sessions (td_stamp env now r m) = cm_sessions m"
  "cm_activeCalls (td_stamp env now r m) = cm_activeCalls m"
  "cm_recentlyTerminated (td_stamp env now r m) = cm_recentlyTerminated m"
  "length (cm_heap (td_stamp env now r m)) = length (cm_heap m)"
  by (simp_all add: td_snapshot_def td_unlist_def td_unindex_def td_stamp_def upd_session_def)

lemma td_stamp_heap:
  assumes "r < length (cm_heap m)"
  shows "keeps (cm_heap m ! r') (cm_heap (td_stamp env now r m) ! r')"
    "term_wf (cm_heap m ! r) \<Longrightarrow> EndTime (cm_heap (td_stamp env now r m) ! r) \<noteq> None"
  using assms markTerminated_keeps
  by (auto simp: td_stamp_def upd_session_def nth_list_update EndTime_def term_wf_def markTerminated_terminal
      split: option.splits)

lemma ident_simps: "ident s' = ident s \<Longrightarrow> s_callSid s' = s_callSid s \<and> s_callID s' = s_callID s \<and> s_startTime s' = s_startTime s"
  by (simp add: ident_def)

lemma teardown_effect:
  assumes "r < length (cm_heap m)" "term_wf (cm_heap m ! r)"
  shows "sm_load (cm_callSidIdx (teardown env now r m)) k =
      (if k = s_callSid (cm_heap m ! r) then None else sm_load (cm_callSidIdx m) k)"
    "sm_load (cm_sessions (teardown env now r m)) k =
      (if k = s_callID (cm_heap m ! r) then None else sm_load (cm_sessions m) k)"
    "\<exists>t. sm_load (cm_recentlyTerminated (teardown env now r m)) (s_callSid (cm_heap m ! r)) = Some t \<and>
      tc_callSid t = s_callSid (cm_heap m ! r) \<and> tc_endTime t \<noteq> None \<and> tc_startTime t = s_startTime (cm_heap m ! r)"
    "cm_activeCalls (teardown env now r m) = cm_activeCalls m - 1"
    "cm_portPool (teardown env now r m) = cm_portPool m"
proof -
  let ?s = "cm_heap m ! r" and ?s' = "cm_heap (td_stamp env now r m) ! r"
  have id: "s_callSid ?s' = s_callSid ?s \<and> s_callID ?s' = s_callID ?s \<and> s_startTime ?s' = s_startTime ?s"
    using td_stamp_heap(1)[OF assms(1), of r env now] by (intro ident_simps) (simp add: keeps_def)
  show "sm_load (cm_callSidIdx (teardown env now r m)) k = (if k = s_callSid ?s then None else sm_load (cm_callSidIdx m) k)"
    "sm_load (cm_sessions (teardown env now r m)) k = (if k = s_callID ?s then None else sm_load (cm_sessions m) k)"
    "cm_activeCalls (teardown env now r m) = cm_activeCalls m - 1"
    "cm_portPool (teardown env now r m) = cm_portPool m"
    using id by (simp_all add: teardown_def td_unindex_def td_unlist_def td_snapshot_def)
  show "\<exists>t. sm_load (cm_recentlyTerminated (teardown env now r m)) (s_callSid ?s) = Some t \<and>
      tc_callSid t = s_callSid ?s \<and> tc_endTime t \<noteq> None \<and> tc_startTime t = s_startTime ?s"
    using id td_stamp_heap(2)[OF assms, of env now]
    by (simp add: teardown_def td_unindex_def td_unlist_def td_snapshot_def snapshot_def)
qed

text \<open>A session that is run and torn down: its identity leaves both indices, its snapshot
  stays, its port goes back.\<close>

lemma StartSessionWithPreRegistered_effect:
  assumes "r < length (cm_heap m)" "term_wf (cm_heap m ! r)" "ident (cm_heap m ! r) = (sid, cid, start)"
    and "\<And>s. run_result env s (run s)"
    and "m' = StartSessionWithPreRegistered env now r lg ws_ok run m"
  shows "sm_load (cm_callSidIdx m') k = (if k = sid then None else sm_load (cm_callSidIdx m) k)"
    "sm_load (cm_sessions m') k = (if k = cid then None else sm_load (cm_sessions m) k)"
    "cm_activeCalls m' = cm_activeCalls m - 1" "cm_portPool m' = Release (cm_portPool m) (l_rtpPort lg)"
    "\<exists>t. sm_load (cm_recentlyTerminated m') sid = Some t \<and> tc_endTime t \<noteq> None \<and> tc_startTime t = start"
    "cm_cleaned m' = cm_cleaned m" "length (cm_heap m') = length (cm_heap m)"
proof -
  define body where "body = (if ws_ok then run else session_do (SendBye 0))"
  define m2 where "m2 = upd_session r body (upd_session r (SetLeg 0 (Some lg)) m)"
  let ?s = "cm_heap m ! r"
  have m': "m' = ReleasePort (l_rtpPort lg) (teardown env now r m2)"
    by (simp add: assms(5) StartSessionWithPreRegistered_def m2_def body_def Let_def)
  have len: "r < length (cm_heap m2)" using assms(1) by (simp add: m2_def upd_session_def)
  have "keeps s (body s)" for s
    using run_result_keeps[OF assms(4)] by (simp add: body_def untouched_keeps)
  moreover have "keeps ?s (SetLeg 0 (Some lg) ?s)"
    by (rule untouched_keeps) (simp add: SetLeg_def Let_def)
  ultimately have "keeps ?s (body (SetLeg 0 (Some lg) ?s))" by (rule keeps_trans[rotated])
  moreover have "cm_heap m2 ! r = body (SetLeg 0 (Some lg) ?s)" using assms(1) by (simp add: m2_def upd_session_def)
  ultimately have wf: "term_wf (cm_heap m2 ! r)" and id: "s_callSid (cm_heap m2 ! r) = sid" "s_callID (cm_heap m2 ! r) = cid"
    "s_startTime (cm_heap m2 ! r) = start"
    using assms(2,3) by (simp_all add: keeps_def ident_def)
  have maps: "cm_callSidIdx m2 = cm_callSidIdx m" "cm_sessions m2 = cm_sessions m" "cm_activeCalls m2 = cm_activeCalls m"
    "cm_portPool m2 = cm_portPool m" "cm_cleaned m2 = cm_cleaned m" "length (cm_heap m2) = length (cm_heap m)"
    by (simp_all add: m2_def upd_session_def)
  note td = teardown_effect[OF len wf, of env now, unfolded id]
  show "sm_load (cm_callSidIdx m') k = (if k = sid then None else sm_load (cm_callSidIdx m) k)"
    "sm_load (cm_sessions m') k = (if k = cid then None else sm_load (cm_sessions m) k)"
    "cm_activeCalls m' = cm_activeCalls m - 1" "cm_portPool m' = Release (cm_portPool m) (l_rtpPort lg)"
    "\<exists>t. sm_load (cm_recentlyTerminated m') sid = Some t \<and> tc_endTime t \<noteq> None \<and> tc_startTime t = start"
    using td by (auto simp: m' ReleasePort_def maps)
  show "cm_cleaned m' = cm_cleaned m" "length (cm_heap m') = length (cm_heap m)"
    using maps by (simp_all add: m' ReleasePort_def teardown_def td_unindex_def td_unlist_def td_snapshot_def td_stamp_def upd_session_def)
qed

text \<open>A call leaves the registry as it found it: when \<^verbatim>\<open>StartSession\<close> returns, by
  whatever run of the session or after a failed WebSocket dial, the call is out
  of both indices, every other call is still found where it was, the gauge is
  back at its value, the port has been released once, and a lookup finds the
  ended call with its end time stamped.\<close>

theorem StartSession_lifecycle:
  assumes "sm_load (cm_callSidIdx m) callSid = None" "sm_load (cm_sessions m) callID = None"
    and "\<And>s. run_result env s (run s)"
    and "m' = StartSession env start now callSid callID caller called lg ws_ok run m"
  shows "(\<forall>k. sm_load (cm_callSidIdx m') k = sm_load (cm_callSidIdx m) k) \<and>
    (\<forall>k. sm_load (cm_sessions m') k = sm_load (cm_sessions m) k) \<and>
    cm_activeCalls m' = cm_activeCalls m \<and>
    cm_portPool m' = Release (cm_portPool m) (l_rtpPort lg) \<and>
    (\<exists>t. GetByCallSid m' callSid = Some (EndedCall t) \<and> tc_startTime t = start \<and> tc_endTime t \<noteq> None)"
proof -
  let ?r = "length (cm_heap m)"
  define m1 where "m1 = snd (PreRegisterSession callSid callID (cm_accountSid m) caller called start m)"
  have shell: "?r < length (cm_heap m1)" "term_wf (cm_heap m1 ! ?r)" "ident (cm_heap m1 ! ?r) = (callSid, callID, start)"
    by (simp_all add: m1_def PreRegisterSession_def Let_def term_wf_def ident_def session_shell_def)
  have maps: "cm_callSidIdx m1 = sm_store callSid ?r (cm_callSidIdx m)" "cm_sessions m1 = sm_store callID ?r (cm_sessions m)"
    "cm_activeCalls m1 = cm_activeCalls m + 1" "cm_portPool m1 = cm_portPool m"
    by (simp_all add: m1_def PreRegisterSession_def Let_def)
  have m': "m' = StartSessionWithPreRegistered env now ?r lg ws_ok run m1"
    by (simp add: assms(4) StartSession_def PreRegisterSession_def m1_def Let_def)
  note eff = StartSessionWithPreRegistered_effect[OF shell assms(3) m']
  show ?thesis using assms(1,2) eff(1-5) maps by (auto simp: GetByCallSid_def)
qed

theorem StartSession_lifecycle_witness:
  "\<exists>t. GetByCallSid (StartSession demo_senv 5 9 ''CA9'' ''id9'' ''a'' ''b'' demo_leg True
      (\<lambda>s. snd (run_start True True True True True s)) demo_manager) ''CA9'' = Some (EndedCall t) \<and>
      tc_startTime t = 5 \<and> tc_endTime t \<noteq> None"
proof -
  have free: "sm_load (cm_callSidIdx demo_manager) ''CA9'' = None" "sm_load (cm_sessions demo_manager) ''id9'' = None"
    by (simp_all add: demo_manager_def NewCallManager_def)
  have run: "run_result demo_senv s (snd (run_start True True True True True s))" for s
    by (rule run_result.early[of True True True True True]) (simp add: run_start_def)
  show ?thesis
    using StartSession_lifecycle[OF free run refl, where start = 5 and now = 9 and lg = demo_leg and ws_ok = True
        and caller = "''a''" and called = "''b''"] by blast
qed

section \<open>Lookups during a teardown\<close>

text \<open>The teardown of a session runs concurrently with other calls, with the
  sweeper and with lookups; its map operations are atomic.  A session is running,
  its end has been stamped, its snapshot stored, it has left \<^verbatim>\<open>sessions\<close>, and finally
  \<^verbatim>\<open>callSidIdx\<close>.  The flag of the last two phases says whether a snapshot was stored:
  the cleanup of a call that was never announced stores none.\<close>

datatype td_phase = Running | Stamped | Snapped | Unlisted bool | Gone bool

record registry =
  rg_m :: call_manager
  rg_phase :: "td_phase list"
  rg_now :: int

definition rg_init :: "call_manager \<Rightarrow> int \<Rightarrow> registry" where
  "rg_init m now = \<lparr> rg_m = m, rg_phase = [], rg_now = now \<rparr>"

inductive registry_step :: "session_env \<Rightarrow> registry \<Rightarrow> registry \<Rightarrow> bool" for env where
  register: "callSid \<notin> s_callSid ` set (cm_heap (rg_m g)) \<Longrightarrow>
    PreRegisterSession callSid callID acc caller called start (rg_m g) = (r, m') \<Longrightarrow>
    registry_step env g (g\<lparr> rg_m := m', rg_phase := rg_phase g @ [Running] \<rparr>)"
| act: "r < length (cm_heap (rg_m g)) \<Longrightarrow> media_step env ms ms' \<Longrightarrow> ms_session ms = cm_heap (rg_m g) ! r \<Longrightarrow>
    registry_step env g (g\<lparr> rg_m := upd_session r (\<lambda>_. ms_session ms') (rg_m g) \<rparr>)"
| stamp: "r < length (cm_heap (rg_m g)) \<Longrightarrow> rg_phase g ! r = Running \<Longrightarrow>
    registry_step env g (g\<lparr> rg_m := td_stamp env (rg_now g) r (rg_m g), rg_phase := (rg_phase g)[r := Stamped] \<rparr>)"
| snap: "r < length (cm_heap (rg_m g)) \<Longrightarrow> rg_phase g ! r = Stamped \<Longrightarrow>
    registry_step env g (g\<lparr> rg_m := td_snapshot r (rg_m g), rg_phase := (rg_phase g)[r := Snapped] \<rparr>)"
| unlist: "r < length (cm_heap (rg_m g)) \<Longrightarrow> rg_phase g ! r = Snapped \<Longrightarrow>
    registry_step env g (g\<lparr> rg_m := td_unlist r (rg_m g), rg_phase := (rg_phase g)[r := Unlisted True] \<rparr>)"
| unlist_silent: "r < length (cm_heap (rg_m g)) \<Longrightarrow> rg_phase g ! r = Running \<Longrightarrow> \<not> s_everEmitted (cm_heap (rg_m g) ! r) \<Longrightarrow>
    registry_step env g (g\<lparr> rg_m := td_unlist r (rg_m g), rg_phase := (rg_phase g)[r := Unlisted False] \<rparr>)"
| unindex: "r < length (cm_heap (rg_m g)) \<Longrightarrow> rg_phase g ! r = Unlisted b \<Longrightarrow>
    registry_step env g (g\<lparr> rg_m := td_unindex r (rg_m g), rg_phase := (rg_phase g)[r := Gone b] \<rparr>)"
| tick: "rg_now g \<le> now \<Longrightarrow> registry_step env g (g\<lparr> rg_now := now \<rparr>)"
| sweep: "registry_step env g (g\<lparr> rg_m := sweepRecentlyTerminatedOnce (rg_now g) (rg_m g) \<rparr>)"

fun is_gone :: "td_phase \<Rightarrow> bool" where
  "is_gone (Gone b) = True"
| "is_gone _ = False"

fun has_snapshot :: "td_phase \<Rightarrow> bool" where
  "has_snapshot Snapped = True"
| "has_snapshot (Unlisted b) = b"
| "has_snapshot (Gone b) = b"
| "has_snapshot _ = False"

abbreviation rg_session :: "registry \<Rightarrow> session_ref \<Rightarrow> call_session" where
  "rg_session g r \<equiv> cm_heap (rg_m g) ! r"

abbreviation rg_sid :: "registry \<Rightarrow> session_ref \<Rightarrow> string" where
  "rg_sid g r \<equiv> s_callSid (rg_session g r)"

definition retained :: "registry \<Rightarrow> session_ref \<Rightarrow> bool" where
  "retained g r \<longleftrightarrow> (\<exists>e. EndTime (rg_session g r) = Some e \<and>
     (rg_now g - e > recentlyTerminatedTTL \<or>
      (\<exists>t. sm_load (cm_recentlyTerminated (rg_m g)) (rg_sid g r) = Some t \<and> tc_endTime t = Some e)))"

definition ref_ok :: "registry \<Rightarrow> session_ref \<Rightarrow> bool" where
  "ref_ok g r \<longleftrightarrow>
     sm_load (cm_callSidIdx (rg_m g)) (rg_sid g r) = (if is_gone (rg_phase g ! r) then None else Some r) \<and>
     (rg_phase g ! r = Stamped \<longrightarrow> EndTime (rg_session g r) \<noteq> None) \<and>
     (has_snapshot (rg_phase g ! r) \<longrightarrow> retained g r) \<and> term_wf (rg_session g r)"

definition reg_inv :: "registry \<Rightarrow> bool" where
  "reg_inv g \<longleftrightarrow> length (rg_phase g) = length (cm_heap (rg_m g)) \<and>
     distinct (map s_callSid (cm_heap (rg_m g))) \<and> distinct (map fst (cm_recentlyTerminated (rg_m g))) \<and>
     (\<forall>r < length (cm_heap (rg_m g)). ref_ok g r) \<and>
     cm_activeCalls (rg_m g) = int (length (filter (\<lambda>p. \<not> is_gone p) (rg_phase g)))"

lemma reg_inv_init: "reg_inv (rg_init (NewCallManager p a w u h e) now)"
  by (simp add: reg_inv_def rg_init_def NewCallManager_def)

lemma EndTime_keeps: "keeps s s' \<Longrightarrow> term_wf s \<Longrightarrow> EndTime s = Some e \<Longrightarrow> EndTime s' = Some e"
  by (auto simp: keeps_def EndTime_def split: option.splits)

text \<open>How the phase of one session changes the number of sessions not yet gone.\<close>

lemma gone_count_update:
  assumes "r < length ps"
  shows "int (length (filter (\<lambda>p. \<not> is_gone p) (ps[r := q]))) =
    int (length (filter (\<lambda>p. \<not> is_gone p) ps)) + (if is_gone q then 0 else 1) - (if is_gone (ps ! r) then 0 else 1)"
  using weight_update[OF assms, of "\<lambda>p. if \<not> is_gone p then 1 else 0" q] by (simp add: weight_filter[symmetric] del: not_not)

text \<open>A change of one session that keeps its identity keeps the invariant.\<close>

lemma reg_invD:
  assumes "reg_inv g"
  shows "length (rg_phase g) = length (cm_heap (rg_m g))" "distinct (map s_callSid (cm_heap (rg_m g)))"
    "distinct (map fst (cm_recentlyTerminated (rg_m g)))"
    "cm_activeCalls (rg_m g) = int (length (filter (\<lambda>p. \<not> is_gone p) (rg_phase g)))"
    "r < length (cm_heap (rg_m g)) \<Longrightarrow> ref_ok g r"
  using assms by (simp_all add: reg_inv_def)

lemma sid_inj:
  "reg_inv g \<Longrightarrow> r < length (cm_heap (rg_m g)) \<Longrightarrow> r' < length (cm_heap (rg_m g)) \<Longrightarrow> rg_sid g r = rg_sid g r' \<Longrightarrow> r = r'"
  using reg_invD(2) by (fastforce simp: distinct_conv_nth)

lemma reg_inv_session:
  assumes inv: "reg_inv g" and r: "r < length (cm_heap (rg_m g))" and k: "keeps (rg_session g r) s'"
    and p: "rg_phase g ! r = Running \<and> q = Stamped \<and> EndTime s' \<noteq> None \<or> q = rg_phase g ! r"
  shows "reg_inv (g\<lparr> rg_m := (rg_m g)\<lparr> cm_heap := (cm_heap (rg_m g))[r := s'] \<rparr>, rg_phase := (rg_phase g)[r := q] \<rparr>)"
    (is "reg_inv ?g")
proof -
  have ok: "ref_ok g r" by (rule reg_invD(5)[OF inv r])
  then have wf: "term_wf (rg_session g r)" by (simp add: ref_ok_def)
  have sid: "s_callSid s' = rg_sid g r" using k by (simp add: keeps_def ident_def)
  have "map s_callSid ((cm_heap (rg_m g))[r := s']) = map s_callSid (cm_heap (rg_m g))"
    using r sid by (simp add: map_update list_update_same_conv)
  moreover have "is_gone q = is_gone (rg_phase g ! r)" using p by auto
  moreover have "ref_ok ?g r'" if r': "r' < length (cm_heap (rg_m g))" for r'
  proof (cases "r' = r")
    case True
    have "EndTime s' = Some e" if "EndTime (rg_session g r) = Some e" for e
      by (rule EndTime_keeps[OF k wf that])
    moreover have "term_wf s'" using k wf by (simp add: keeps_def)
    ultimately show ?thesis
      using True ok p r sid reg_invD(1)[OF inv] by (auto simp: ref_ok_def retained_def)
  next
    case False
    then show ?thesis using reg_invD(5)[OF inv r'] by (simp add: ref_ok_def retained_def)
  qed
  ultimately show ?thesis
    using reg_invD[OF inv] r by (simp add: reg_inv_def gone_count_update)
qed

text \<open>The steps of a teardown after the stamp.\<close>

lemma reg_inv_snap:
  assumes inv: "reg_inv g" and r: "r < length (cm_heap (rg_m g))" and p: "rg_phase g ! r = Stamped"
  shows "reg_inv (g\<lparr> rg_m := td_snapshot r (rg_m g), rg_phase := (rg_phase g)[r := Snapped] \<rparr>)" (is "reg_inv ?g")
proof -
  have ok: "ref_ok g r" by (rule reg_invD(5)[OF inv r])
  then obtain e where e: "EndTime (rg_session g r) = Some e" using p by (auto simp: ref_ok_def)
  have "ref_ok ?g r'" if r': "r' < length (cm_heap (rg_m g))" for r'
    using ok e reg_invD(5)[OF inv r'] reg_invD(1)[OF inv] r p sid_inj[OF inv r r']
    by (cases "r' = r") (auto simp: ref_ok_def retained_def td_snapshot_def snapshot_def)
  moreover have "distinct (map fst (cm_recentlyTerminated (rg_m ?g)))"
    using reg_invD(3)[OF inv] by (auto simp: td_snapshot_def sm_store_def sm_delete_def distinct_map_filter)
  moreover have "cm_activeCalls (rg_m ?g) = cm_activeCalls (rg_m g)" by (simp add: td_snapshot_def)
  ultimately show ?thesis
    using reg_invD[OF inv] r p by (simp add: reg_inv_def gone_count_update)
qed

lemma reg_inv_unlist:
  assumes inv: "reg_inv g" and r: "r < length (cm_heap (rg_m g))"
    and p: "rg_phase g ! r = Snapped \<and> b \<or> rg_phase g ! r = Running \<and> \<not> b"
  shows "reg_inv (g\<lparr> rg_m := td_unlist r (rg_m g), rg_phase := (rg_phase g)[r := Unlisted b] \<rparr>)" (is "reg_inv ?g")
proof -
  have ok: "ref_ok g r" by (rule reg_invD(5)[OF inv r])
  have "ref_ok ?g r'" if r': "r' < length (cm_heap (rg_m g))" for r'
    using ok reg_invD(5)[OF inv r'] reg_invD(1)[OF inv] r p
    by (cases "r' = r") (auto simp: ref_ok_def retained_def td_unlist_def)
  moreover have "cm_activeCalls (rg_m ?g) = cm_activeCalls (rg_m g)"
    "cm_recentlyTerminated (rg_m ?g) = cm_recentlyTerminated (rg_m g)" by (simp_all add: td_unlist_def)
  ultimately show ?thesis
    using reg_invD[OF inv] r p by (auto simp: reg_inv_def gone_count_update)
qed

lemma reg_inv_unindex:
  assumes inv: "reg_inv g" and r: "r < length (cm_heap (rg_m g))" and p: "rg_phase g ! r = Unlisted b"
  shows "reg_inv (g\<lparr> rg_m := td_unindex r (rg_m g), rg_phase := (rg_phase g)[r := Gone b] \<rparr>)" (is "reg_inv ?g")
proof -
  have ok: "ref_ok g r" by (rule reg_invD(5)[OF inv r])
  have "ref_ok ?g r'" if r': "r' < length (cm_heap (rg_m g))" for r'
    using ok reg_invD(5)[OF inv r'] reg_invD(1)[OF inv] r p sid_inj[OF inv r r']
    by (cases "r' = r") (auto simp: ref_ok_def retained_def td_unindex_def)
  moreover have "cm_activeCalls (rg_m ?g) = cm_activeCalls (rg_m g) - 1"
    "cm_recentlyTerminated (rg_m ?g) = cm_recentlyTerminated (rg_m g)" by (simp_all add: td_unindex_def)
  ultimately show ?thesis
    using reg_invD[OF inv] r p by (simp add: reg_inv_def gone_count_update)
qed

lemma reg_inv_register:
  assumes inv: "reg_inv g" and new: "callSid \<notin> s_callSid ` set (cm_heap (rg_m g))"
    and pre: "PreRegisterSession callSid callID acc caller called start (rg_m g) = (r, m')"
  shows "reg_inv (g\<lparr> rg_m := m', rg_phase := rg_phase g @ [Running] \<rparr>)" (is "reg_inv ?g")
proof -
  let ?n = "length (cm_heap (rg_m g))"
  let ?s = "session_shell (rg_m g) callSid callID acc caller called start"
  have m': "m' = (rg_m g)\<lparr> cm_heap := cm_heap (rg_m g) @ [?s], cm_sessions := sm_store callID ?n (cm_sessions (rg_m g)),
      cm_callSidIdx := sm_store callSid ?n (cm_callSidIdx (rg_m g)), cm_activeCalls := cm_activeCalls (rg_m g) + 1 \<rparr>"
    using pre by (auto simp: PreRegisterSession_def Let_def)
  have s: "s_callSid ?s = callSid" "term_wf ?s" by (simp_all add: session_shell_def term_wf_def)
  have "ref_ok ?g r'" if "r' < Suc ?n" for r'
  proof (cases "r' = ?n")
    case True
    then show ?thesis using s reg_invD(1)[OF inv] by (simp add: ref_ok_def m' nth_append)
  next
    case False
    with that have r': "r' < ?n" by simp
    then have "rg_sid g r' \<noteq> callSid" using new by force
    then show ?thesis
      using reg_invD(5)[OF inv r'] r' reg_invD(1)[OF inv] by (simp add: ref_ok_def retained_def m' nth_append)
  qed
  then show ?thesis
    using reg_invD[OF inv] new s(1) by (simp add: reg_inv_def m')
qed

lemma map_of_filter_distinct:
  "distinct (map fst xs) \<Longrightarrow> map_of (filter P xs) k = (case map_of xs k of Some v \<Rightarrow> if P (k, v) then Some v else None | None \<Rightarrow> None)"
proof (induction xs)
  case (Cons x xs)
  then have "map_of xs (fst x) = None" by (simp add: map_of_eq_None_iff)
  with Cons show ?case by (cases x) (auto split: option.splits)
qed simp

lemma reg_inv_sweep:
  assumes inv: "reg_inv g"
  shows "reg_inv (g\<lparr> rg_m := sweepRecentlyTerminatedOnce (rg_now g) (rg_m g) \<rparr>)" (is "reg_inv ?g")
proof -
  have "ref_ok ?g r" if r: "r < length (cm_heap (rg_m g))" for r
  proof -
    have "retained g r \<Longrightarrow> retained ?g r"
      using reg_invD(3)[OF inv]
      by (auto simp: retained_def sweepRecentlyTerminatedOnce_def sm_load_def map_of_filter_distinct expired_def)
    then show ?thesis
      using reg_invD(5)[OF inv r] by (simp add: ref_ok_def sweepRecentlyTerminatedOnce_def)
  qed
  then show ?thesis
    using reg_invD[OF inv] by (simp add: reg_inv_def sweepRecentlyTerminatedOnce_def distinct_map_filter)
qed

lemma registry_step_inv: "registry_step env g g' \<Longrightarrow> reg_inv g \<Longrightarrow> reg_inv g'"
proof (induction rule: registry_step.induct)
  case (act r g ms ms')
  then show ?case
    using reg_inv_session[OF act(4,1), of "ms_session ms'" "rg_phase g ! r"] media_step_keeps[OF act(2)]
    by (simp add: upd_session_def)
next
  case (stamp r g)
  let ?s = "rg_session g r"
  define s' where "s' = (if EndTime ?s = None then markTerminated (se_rfc1123z env) (rg_now g) ''failed'' ?s else ?s)"
  have wf: "term_wf ?s" using reg_invD(5)[OF stamp(3,1)] by (simp add: ref_ok_def)
  have "td_stamp env (rg_now g) r (rg_m g) = (rg_m g)\<lparr> cm_heap := (cm_heap (rg_m g))[r := s'] \<rparr>"
    using stamp(1) by (simp add: td_stamp_def upd_session_def s'_def)
  moreover have "EndTime s' \<noteq> None" "keeps ?s s'"
    using wf markTerminated_keeps by (auto simp: s'_def EndTime_def term_wf_def markTerminated_terminal split: option.splits)
  ultimately show ?case using reg_inv_session[OF stamp(3,1)] stamp(2) by simp
next
  case (tick g now)
  have "retained g r \<Longrightarrow> retained (g\<lparr> rg_now := now \<rparr>) r" for r
    using tick(1) by (fastforce simp: retained_def)
  then show ?case using tick(2) by (auto simp: reg_inv_def ref_ok_def)
qed (auto intro: reg_inv_register reg_inv_snap reg_inv_unlist reg_inv_unindex reg_inv_sweep)

text \<open>A session keeps its CallSid, and once it is gone it stays gone.\<close>

lemma registry_step_stable:
  assumes "registry_step env g g'" "reg_inv g" "r < length (cm_heap (rg_m g))"
  shows "r < length (cm_heap (rg_m g')) \<and> rg_sid g' r = rg_sid g r \<and> (\<forall>b. rg_phase g ! r = Gone b \<longrightarrow> rg_phase g' ! r = Gone b)"
  using assms
proof (induction rule: registry_step.induct)
  case (register callSid g callID acc caller called start r' m')
  then show ?case using reg_invD(1)[of g] by (auto simp: PreRegisterSession_def Let_def nth_append)
next
  case (act r' g ms ms')
  then show ?case
    using media_step_keeps[OF act(2)] by (auto simp: upd_session_def nth_list_update keeps_def ident_def)
next
  case (stamp r' g)
  have "keeps (rg_session g r) (cm_heap (td_stamp env (rg_now g) r' (rg_m g)) ! r)"
    by (rule td_stamp_heap(1)[OF stamp(1)])
  then show ?case using stamp by (auto simp: keeps_def ident_def nth_list_update reg_invD(1))
qed (auto simp: nth_list_update reg_invD(1) sweepRecentlyTerminatedOnce_def)

lemma registry_reach:
  assumes "(registry_step env)\<^sup>*\<^sup>* g g'" "reg_inv g"
  shows "reg_inv g' \<and> (\<forall>r < length (cm_heap (rg_m g)). r < length (cm_heap (rg_m g')) \<and> rg_sid g' r = rg_sid g r \<and>
    (\<forall>b. rg_phase g ! r = Gone b \<longrightarrow> rg_phase g' ! r = Gone b))"
  using assms
proof (induction rule: rtranclp_induct)
  case (step g1 g2)
  then show ?case using registry_step_inv[OF step(2)] registry_step_stable[OF step(2)] by force
qed simp

text \<open>C14. A lookup by CallSid never loses a call: it reads the index of live calls
  and, when that misses, later the cache of ended calls, while sessions start
  and end, are torn down in small steps and swept around it.  If a call was
  registered when the lookup began and both reads miss, then either the call was
  never announced (its pre-registration was cleaned up silently) or it ended
  more than five minutes before the second read.\<close>

theorem lookup_never_misses:
  assumes "(registry_step env)\<^sup>*\<^sup>* (rg_init (NewCallManager p a w u h ev) t0) g"
    and "r < length (cm_heap (rg_m g))" "s_callSid (cm_heap (rg_m g) ! r) = sid"
    and "(registry_step env)\<^sup>*\<^sup>* g g1" "(registry_step env)\<^sup>*\<^sup>* g1 g2"
    and "sm_load (cm_callSidIdx (rg_m g1)) sid = None" "sm_load (cm_recentlyTerminated (rg_m g2)) sid = None"
  shows "rg_phase g2 ! r = Gone False \<or>
    (\<exists>e. EndTime (cm_heap (rg_m g2) ! r) = Some e \<and> rg_now g2 - e > recentlyTerminatedTTL)"
proof -
  have 0: "reg_inv g" using registry_reach[OF assms(1) reg_inv_init] by blast
  note 1 = registry_reach[OF assms(4) 0]
  then have inv1: "reg_inv g1" and r1: "r < length (cm_heap (rg_m g1))" "rg_sid g1 r = sid" using assms(2,3) by auto
  note 2 = registry_reach[OF assms(5) inv1]
  then have inv2: "reg_inv g2" and r2: "r < length (cm_heap (rg_m g2))" "rg_sid g2 r = sid" using r1 by auto
  have "is_gone (rg_phase g1 ! r)"
    using reg_invD(5)[OF inv1 r1(1)] r1(2) assms(6) by (simp add: ref_ok_def split: if_splits)
  then obtain b where "rg_phase g1 ! r = Gone b" by (cases "rg_phase g1 ! r") auto
  then have "rg_phase g2 ! r = Gone b" using 2 r1(1) by blast
  then show ?thesis
    using reg_invD(5)[OF inv2 r2(1)] r2(2) assms(7) by (cases b) (auto simp: ref_ok_def retained_def)
qed

text \<open>The gauge of active calls counts the sessions that have not left the
  index: over every interleaving it equals the number of calls registered minus
  the number torn down, and is never negative.\<close>

theorem active_calls_gauge:
  assumes "(registry_step env)\<^sup>*\<^sup>* (rg_init (NewCallManager p a w u h ev) t0) g"
  shows "cm_activeCalls (rg_m g) = int (card {r. r < length (cm_heap (rg_m g)) \<and>
      sm_load (cm_callSidIdx (rg_m g)) (s_callSid (cm_heap (rg_m g) ! r)) = Some r})"
proof -
  have inv: "reg_inv g" using registry_reach[OF assms reg_inv_init] by blast
  have "sm_load (cm_callSidIdx (rg_m g)) (rg_sid g r) = Some r \<longleftrightarrow> \<not> is_gone (rg_phase g ! r)"
    if "r < length (cm_heap (rg_m g))" for r
    using reg_invD(5)[OF inv that] by (simp add: ref_ok_def)
  then have "{r. r < length (cm_heap (rg_m g)) \<and> sm_load (cm_callSidIdx (rg_m g)) (rg_sid g r) = Some r} =
      {r. r < length (rg_phase g) \<and> \<not> is_gone (rg_phase g ! r)}"
    using reg_invD(1)[OF inv] by auto
  then show ?thesis using reg_invD(4)[OF inv] by (simp add: length_filter_conv_card)
qed


text \<open>One call, torn down to the end, and looked up five minutes and a
  nanosecond later, after a sweep.\<close>

definition demo_reg :: registry where
  "demo_reg = \<lparr> rg_m = snd (PreRegisterSession ''CA1'' ''id1'' ''AC1'' ''a'' ''b'' 10 demo_manager), rg_phase = [Running], rg_now = 10 \<rparr>"

lemma demo_reg_step: "registry_step demo_senv (rg_init demo_manager 10) demo_reg"
proof -
  have "registry_step demo_senv (rg_init demo_manager 10)
      ((rg_init demo_manager 10)\<lparr> rg_m := snd (PreRegisterSession ''CA1'' ''id1'' ''AC1'' ''a'' ''b'' 10 demo_manager),
        rg_phase := rg_phase (rg_init demo_manager 10) @ [Running] \<rparr>)"
    by (rule registry_step.register[where callSid = "''CA1''" and callID = "''id1''" and acc = "''AC1''" and caller = "''a''"
          and called = "''b''" and start = 10 and r = 0])
      (simp_all add: rg_init_def demo_manager_def NewCallManager_def PreRegisterSession_def Let_def)
  then show ?thesis by (simp add: demo_reg_def rg_init_def)
qed

text \<open>The silent cleanup of a pre-registered call, in its two steps.\<close>

definition demo_gone :: registry where
  "demo_gone = \<lparr> rg_m = td_unindex 0 (td_unlist 0 (rg_m demo_reg)), rg_phase = [Gone False], rg_now = 10 \<rparr>"

lemma demo_gone_steps: "(registry_step demo_senv)\<^sup>*\<^sup>* demo_reg demo_gone"
proof -
  have len: "0 < length (cm_heap (rg_m demo_reg))" "\<not> s_everEmitted (cm_heap (rg_m demo_reg) ! 0)"
    by (simp_all add: demo_reg_def PreRegisterSession_def demo_manager_def NewCallManager_def session_shell_def Let_def)
  let ?g1 = "demo_reg\<lparr> rg_m := td_unlist 0 (rg_m demo_reg), rg_phase := (rg_phase demo_reg)[0 := Unlisted False] \<rparr>"
  have "registry_step demo_senv demo_reg ?g1"
    by (rule registry_step.unlist_silent) (use len in \<open>simp_all add: demo_reg_def\<close>)
  moreover have "registry_step demo_senv ?g1 (?g1\<lparr> rg_m := td_unindex 0 (rg_m ?g1), rg_phase := (rg_phase ?g1)[0 := Gone False] \<rparr>)"
    by (rule registry_step.unindex) (use len in \<open>simp_all add: demo_reg_def\<close>)
  moreover have "?g1\<lparr> rg_m := td_unindex 0 (rg_m ?g1), rg_phase := (rg_phase ?g1)[0 := Gone False] \<rparr> = demo_gone"
    by (simp add: demo_gone_def demo_reg_def)
  ultimately show ?thesis by (metis r_into_rtranclp rtranclp.rtrancl_into_rtrancl)
qed

theorem lookup_never_misses_witness:
  "GetByCallSid (rg_m demo_gone) ''CA1'' = None \<and>
   (rg_phase demo_gone ! 0 = Gone False \<or>
    (\<exists>e. EndTime (cm_heap (rg_m demo_gone) ! 0) = Some e \<and> rg_now demo_gone - e > recentlyTerminatedTTL))"
proof
  have miss: "sm_load (cm_callSidIdx (rg_m demo_gone)) ''CA1'' = None" "sm_load (cm_recentlyTerminated (rg_m demo_gone)) ''CA1'' = None"
    by (simp_all add: demo_gone_def demo_reg_def td_unindex_def td_unlist_def PreRegisterSession_def demo_manager_def
        NewCallManager_def session_shell_def Let_def)
  then show "GetByCallSid (rg_m demo_gone) ''CA1'' = None" by (simp add: GetByCallSid_def)
  have r: "0 < length (cm_heap (rg_m demo_reg))" "s_callSid (cm_heap (rg_m demo_reg) ! 0) = ''CA1''"
    by (simp_all add: demo_reg_def PreRegisterSession_def demo_manager_def NewCallManager_def session_shell_def Let_def)
  show "rg_phase demo_gone ! 0 = Gone False \<or>
      (\<exists>e. EndTime (cm_heap (rg_m demo_gone) ! 0) = Some e \<and> rg_now demo_gone - e > recentlyTerminatedTTL)"
    by (rule lookup_never_misses[OF r_into_rtranclp[of "registry_step demo_senv", OF demo_reg_step[unfolded demo_manager_def]]
          r demo_gone_steps rtranclp.rtrancl_refl miss])
qed

theorem active_calls_gauge_witness:
  "cm_activeCalls (rg_m demo_reg) = 1 \<and> card {r. r < length (cm_heap (rg_m demo_reg)) \<and>
      sm_load (cm_callSidIdx (rg_m demo_reg)) (s_callSid (cm_heap (rg_m demo_reg) ! r)) = Some r} = 1"
proof -
  have "cm_activeCalls (rg_m demo_reg) = 1"
    by (simp add: demo_reg_def PreRegisterSession_def demo_manager_def NewCallManager_def Let_def)
  with active_calls_gauge[OF r_into_rtranclp[of "registry_step demo_senv", OF demo_reg_step[unfolded demo_manager_def]]]
  show ?thesis by linarith
qed

text \<open>Between the store of the snapshot and the removal from the index a call is
  listed twice.\<close>

lemma CallList_twice_during_teardown:
  "map bc_callSid (CallList (td_snapshot 0 (td_stamp demo_senv 20 0 (rg_m demo_reg)))) = [''CA1'', ''CA1'']"
  by (simp add: CallList_def td_snapshot_def td_stamp_def demo_reg_def PreRegisterSession_def demo_manager_def
      NewCallManager_def session_shell_def upd_session_def snapshot_def sm_store_def sm_delete_def Let_def EndTime_def
      markTerminated_def emitTerminalStatusCallback_def session_do_def)

section \<open>Shutdown\<close>

lemma fold_upd_session:
  assumes "\<And>s. P (f s)" "r < length (cm_heap m)" "r \<in> snd ` set xs \<or> P (cm_heap m ! r)"
  shows "P (cm_heap (fold (\<lambda>kr. upd_session (snd kr) f) xs m) ! r)"
  using assms(2,3)
proof (induction xs arbitrary: m)
  case (Cons x xs)
  let ?m = "upd_session (snd x) f m"
  have "r \<in> snd ` set xs \<or> P (cm_heap ?m ! r)"
    using Cons.prems assms(1) by (cases "snd x = r") (auto simp: upd_session_def)
  then show ?case using Cons.IH[of ?m] Cons.prems(1) by (simp add: upd_session_def)
qed simp

lemma fold_upd_session_maps:
  "cm_sessions (fold (\<lambda>kr. upd_session (snd kr) f) xs m) = cm_sessions m"
  by (induction xs arbitrary: m) (simp_all add: upd_session_def)

lemma bye_all_cancelled: "s_cancelled (snd (bye_all b is s)) = s_cancelled s"
proof (induction "is" arbitrary: s)
  case (Cons i "is")
  moreover have "s_cancelled (snd (leg_bye b i s)) = s_cancelled s"
    by (simp add: leg_bye_def update_leg_def Let_def split: option.split)
  ultimately show ?case by (simp add: split_beta Let_def)
qed simp

text \<open>Shutdown reaches every call: after \<^verbatim>\<open>DrainAll\<close> has gone over the map, every
  session in it has its end stamped, and its context is cancelled if it is
  running, so that no RTP or WebSocket goroutine of it runs on; the map itself is
  left to the sessions' own teardown.\<close>

lemma DrainAll_terminates:
  assumes "(callID, r) \<in> set (cm_sessions m)" "r < length (cm_heap m)"
  shows "s_terminateOnce (cm_heap (DrainAll env now m) ! r) \<and>
    (s_running (cm_heap (DrainAll env now m) ! r) \<longrightarrow> s_cancelled (cm_heap (DrainAll env now m) ! r)) \<and>
    cm_sessions (DrainAll env now m) = cm_sessions m"
proof -
  let ?f = "\<lambda>s. snd (Terminate (se_rfc1123z env) (se_bye_err env) now ''shutdown'' s)"
  have "s_terminateOnce (?f s) \<and> (s_running (?f s) \<longrightarrow> s_cancelled (?f s))" for s
    by (simp add: Terminate_frame(2,8)) (simp add: Terminate_def Let_def bye_all_cancelled)
  moreover have "r \<in> snd ` set (cm_sessions m)" using assms(1) by force
  ultimately show ?thesis
    unfolding DrainAll_def
    using fold_upd_session[of "\<lambda>s. s_terminateOnce s \<and> (s_running s \<longrightarrow> s_cancelled s)" ?f r m "cm_sessions m"] assms(2)
    by (auto simp: fold_upd_session_maps)
qed

definition demo_running :: call_manager where
  "demo_running = upd_session 0 (\<lambda>s. snd (run_start False True True True True s)) demo_two"

text \<open>A session that \<^verbatim>\<open>Terminate\<close> reaches before it runs is not stopped: it has no
  context to cancel and no leg to send a BYE to; it starts later all the same,
  and its end is already stamped.\<close>

lemma terminate_before_run_is_lost:
  assumes "\<not> s_running s" "s_legs s = []" "t = snd (Terminate f b now reason s)"
  shows "s_terminateOnce t \<and> (\<forall>i. SendBye i \<in> set (s_log t) \<longrightarrow> SendBye i \<in> set (s_log s)) \<and>
    fst (run_start False True True True True (SetLeg 0 (Some lg) t)) \<and>
    \<not> s_cancelled (snd (run_start False True True True True (SetLeg 0 (Some lg) t)))"
proof -
  obtain es where es: "s_log (markTerminated f now reason s) = s_log s @ es"
    "es = [] \<or> (\<exists>d. es = [DrainCallbacks d] \<and> s_hasStatusWC s) \<or>
      (\<exists>c evt d. es = [EnqueueCallback c evt, DrainCallbacks d] \<and> s_hasStatusWC s)"
    using markTerminated_log[of f now reason s] by blast
  have "s_log t = s_log (markTerminated f now reason s)"
    using assms by (simp add: Terminate_def Let_def)
  moreover have "SendBye i \<notin> set es" for i using es(2) by auto
  ultimately have "SendBye i \<in> set (s_log t) \<longrightarrow> SendBye i \<in> set (s_log s)" for i using es(1) by auto
  then show ?thesis
    using assms(3) by (simp add: Terminate_frame(2) run_start_def handshake_def Let_def)
qed

end
