(* ===== verification/Sdp.thy ===== *)
theory Sdp
  imports Call_Session
begin

text \<open>
  Offer and answer: \<^verbatim>\<open>sip/sdp.go\<close> (the caller's offer and our answer) and the SDP
  methods of \<^verbatim>\<open>bridge/leg.go\<close> (our offer to a callee and its answer).  The SDP
  library is outside the repository: parsing and printing of the text, its
  lookup of a codec by payload type and its helper that adds a codec are
  arguments; a session description is the structure those work on.
\<close>

section \<open>Session descriptions\<close>

record media_desc =
  md_media :: string
  md_port :: int
  md_protos :: "string list"
  md_formats :: "string list"
  md_connection :: "string option"
  md_attributes :: "(string \<times> string) list"

record session_desc =
  sd_origin :: string
  sd_connection :: "string option"
  sd_mediaDescriptions :: "media_desc list"

record sdp_lib =
  lib_unmarshal :: "string \<Rightarrow> session_desc option"
  lib_marshal :: "session_desc \<Rightarrow> string option"
  lib_codec :: "session_desc \<Rightarrow> nat \<Rightarrow> string option"
  lib_withCodec :: "nat \<Rightarrow> string \<Rightarrow> nat \<Rightarrow> nat \<Rightarrow> string \<Rightarrow> media_desc \<Rightarrow> media_desc"
  lib_withProperty :: "string \<Rightarrow> media_desc \<Rightarrow> media_desc"

record caller_sdp =
  RTPAddr :: string
  RTPPort :: int
  DTMFPayloadType :: nat
  AudioPayloadTypes :: "nat list"
  IsSRTP :: bool
  RemoteSRTPKey :: "byte list"
  RemoteSRTPSalt :: "byte list"

datatype sdp_error =
    SdpUnmarshal | SdpNoConnection | SdpNoAudio | SdpBadPort int | SdpNoAudioPT | SdpCodecMismatch nat
  | SdpNoContactIP | SdpNoRtpPort int | SdpMarshal

text \<open>\<^verbatim>\<open>strconv.ParseUint(s, 10, 8)\<close>.\<close>

definition parse_uint8 :: "string \<Rightarrow> nat option" where
  "parse_uint8 s = (if s \<noteq> [] \<and> list_all is_digit s \<and> digits_val s \<le> 255 then Some (digits_val s) else None)"

definition equal_fold :: "string \<Rightarrow> string \<Rightarrow> bool" where
  "equal_fold a b = (to_lower a = to_lower b)"

section \<open>The caller's offer\<close>

text \<open>The loop over the formats keeps the last telephone-event and every other
  payload type that has a codec.\<close>

definition scan_format :: "(nat \<Rightarrow> string option) \<Rightarrow> string \<Rightarrow> nat \<times> nat list \<Rightarrow> nat \<times> nat list" where
  "scan_format codec f st =
    (case parse_uint8 f of
       None \<Rightarrow> st
     | Some pt \<Rightarrow>
        (case codec pt of
           None \<Rightarrow> st
         | Some name \<Rightarrow> if equal_fold name ''telephone-event'' then (pt, snd st) else (fst st, snd st @ [pt])))"

definition scan_formats :: "(nat \<Rightarrow> string option) \<Rightarrow> string list \<Rightarrow> nat \<times> nat list" where
  "scan_formats codec fs = fold (scan_format codec) fs (101, [])"

text \<open>One \<^verbatim>\<open>a=crypto\<close> attribute, and the first usable one.\<close>

definition crypto_suite :: string where "crypto_suite = ''AES_128_CM_HMAC_SHA1_80''"

definition parse_crypto :: "string \<Rightarrow> (byte list \<times> byte list) option" where
  "parse_crypto v =
    (let parts = str_fields v in
     if length parts < 3 \<or> \<not> equal_fold (parts ! 1) crypto_suite then None
     else
       case b64_decode (split_on (CHR ''|'') (trim_prefix (parts ! 2) ''inline:'') ! 0) of
         None \<Rightarrow> None
       | Some ks \<Rightarrow> if length ks < 30 then None else Some (take 16 ks, take 14 (drop 16 ks)))"

fun scan_crypto :: "(string \<times> string) list \<Rightarrow> byte list \<times> byte list" where
  "scan_crypto [] = ([], [])"
| "scan_crypto ((k, v) # as) =
    (if k \<noteq> ''crypto'' then scan_crypto as
     else case parse_crypto v of None \<Rightarrow> scan_crypto as | Some ks \<Rightarrow> ks)"

definition media_address :: "session_desc \<Rightarrow> media_desc \<Rightarrow> string" where
  "media_address sd md =
    (case md_connection md of Some a \<Rightarrow> a | None \<Rightarrow> (case sd_connection sd of Some a \<Rightarrow> a | None \<Rightarrow> ''''))"

definition ParseCallerSDP :: "sdp_lib \<Rightarrow> string \<Rightarrow> sdp_error + caller_sdp" where
  "ParseCallerSDP lib body =
    (case lib_unmarshal lib body of
       None \<Rightarrow> Inl SdpUnmarshal
     | Some sd \<Rightarrow>
        (case find (\<lambda>md. md_media md = ''audio'') (sd_mediaDescriptions sd) of
           None \<Rightarrow> Inl SdpNoAudio
         | Some md \<Rightarrow>
            (let ip = media_address sd md in
             if ip = '''' then Inl SdpNoConnection
             else
               let (dtmf, audio) = scan_formats (lib_codec lib sd) (md_formats md);
                   (key, salt) = scan_crypto (md_attributes md)
               in Inr \<lparr> RTPAddr = ip, RTPPort = md_port md, DTMFPayloadType = dtmf, AudioPayloadTypes = audio,
                        IsSRTP = list_ex (\<lambda>p. equal_fold p ''SAVP'') (md_protos md),
                        RemoteSRTPKey = key, RemoteSRTPSalt = salt \<rparr>)))"

definition SilenceFrameForPT :: "nat \<Rightarrow> byte list" where
  "SilenceFrameForPT pt = replicate 160 (if pt = 9 then 0x00 else if pt = 8 then 0xD5 else 0xFF)"

definition MediaFormatForPT :: "nat \<Rightarrow> string \<times> int" where
  "MediaFormatForPT pt =
    (if pt = 9 then (''audio/G722'', 16000) else if pt = 8 then (''audio/x-alaw'', 8000) else (''audio/x-mulaw'', 8000))"

section \<open>The answer\<close>

type_synonym codec_entry = "nat \<times> string"

definition preferred_codecs :: "codec_entry list" where
  "preferred_codecs = [(9, ''G722''), (8, ''PCMA''), (0, ''PCMU'')]"

definition answer_codecs :: "string \<Rightarrow> nat list \<Rightarrow> codec_entry list" where
  "answer_codecs audioMode offered =
    (if audioMode = ''best'' then filter (\<lambda>c. fst c \<in> set offered) preferred_codecs else [(0, ''PCMU'')])"

definition negotiated :: "codec_entry list \<Rightarrow> nat" where
  "negotiated codecs = (case codecs of [] \<Rightarrow> 0 | c # _ \<Rightarrow> fst c)"

definition crypto_value :: "byte list \<Rightarrow> byte list \<Rightarrow> string" where
  "crypto_value key salt = ''1 '' @ crypto_suite @ '' inline:'' @ b64_encode (key @ salt)"

text \<open>The random source gives 16 and 14 bytes, or fails.\<close>

definition local_srtp :: "bool \<Rightarrow> byte list option \<Rightarrow> byte list option \<Rightarrow> (byte list \<times> byte list) option" where
  "local_srtp useSRTP rand_key rand_salt =
    (if useSRTP then (case (rand_key, rand_salt) of (Some k, Some s) \<Rightarrow> Some (k, s) | _ \<Rightarrow> None) else None)"

definition our_session :: "string \<Rightarrow> media_desc \<Rightarrow> session_desc" where
  "our_session ip audio = \<lparr> sd_origin = ip, sd_connection = Some ip, sd_mediaDescriptions = [audio] \<rparr>"

definition answer_media :: "sdp_lib \<Rightarrow> int \<Rightarrow> caller_sdp \<Rightarrow> codec_entry list \<Rightarrow> bool \<Rightarrow> (byte list \<times> byte list) option \<Rightarrow> media_desc" where
  "answer_media lib port caller codecs useSRTP keys =
    (let m0 = \<lparr> md_media = ''audio'', md_port = port,
                md_protos = (if useSRTP then [''RTP'', ''SAVP''] else [''RTP'', ''AVP'']),
                md_formats = map (\<lambda>c. nat_digits (fst c)) codecs @ [nat_digits (DTMFPayloadType caller)],
                md_connection = None,
                md_attributes = (case keys of Some (k, s) \<Rightarrow> [(''crypto'', crypto_value k s)] | None \<Rightarrow> []) \<rparr>;
         m1 = fold (\<lambda>c. lib_withCodec lib (fst c) (snd c) 8000 1 '''') codecs m0;
         m2 = lib_withCodec lib (DTMFPayloadType caller) ''telephone-event'' 8000 1 ''0-16'' m1
     in lib_withProperty lib ''sendrecv'' m2)"

definition BuildSDPAnswer :: "sdp_lib \<Rightarrow> byte list option \<Rightarrow> byte list option \<Rightarrow> string \<Rightarrow> int \<Rightarrow> caller_sdp \<Rightarrow> string \<Rightarrow> bool \<Rightarrow>
    string \<times> nat \<times> (byte list \<times> byte list) option" where
  "BuildSDPAnswer lib rand_key rand_salt ourIP port caller audioMode srtpEnabled =
    (let codecs = answer_codecs audioMode (AudioPayloadTypes caller);
         useSRTP = (srtpEnabled \<and> IsSRTP caller);
         keys = local_srtp useSRTP rand_key rand_salt;
         out = lib_marshal lib (our_session ourIP (answer_media lib port caller codecs useSRTP keys))
     in (case out of Some b \<Rightarrow> b | None \<Rightarrow> '''', negotiated codecs, keys))"

section \<open>The callee's leg\<close>

definition BuildSDPOffer :: "sdp_lib \<Rightarrow> leg \<Rightarrow> sdp_error + (string \<times> int)" where
  "BuildSDPOffer lib l =
    (if l_contactIP l = '''' then Inl SdpNoContactIP
     else if l_rtpPort l \<le> 0 then Inl (SdpNoRtpPort (l_rtpPort l))
     else
       let m0 = \<lparr> md_media = ''audio'', md_port = l_rtpPort l, md_protos = [''RTP'', ''AVP''], md_formats = [''0'', ''101''],
                  md_connection = None, md_attributes = [] \<rparr>;
           m1 = lib_withCodec lib 0 ''PCMU'' 8000 1 '''' m0;
           m2 = lib_withCodec lib 101 ''telephone-event'' 8000 1 ''0-16'' m1;
           audio = lib_withProperty lib ''sendrecv'' m2
       in case lib_marshal lib (our_session (l_contactIP l) audio) of
            None \<Rightarrow> Inl SdpMarshal
          | Some out \<Rightarrow> Inr (out, l_rtpPort l))"

text \<open>As \<^const>\<open>scan_format\<close>, but payload type 0 needs no rtpmap.\<close>

definition scan_answer_format :: "(nat \<Rightarrow> string option) \<Rightarrow> string \<Rightarrow> nat \<times> nat list \<Rightarrow> nat \<times> nat list" where
  "scan_answer_format codec f st =
    (case parse_uint8 f of
       None \<Rightarrow> st
     | Some pt \<Rightarrow>
        (case codec pt of
           None \<Rightarrow> if pt = 0 then (fst st, snd st @ [0]) else st
         | Some name \<Rightarrow> if equal_fold name ''telephone-event'' then (pt, snd st) else (fst st, snd st @ [pt])))"

definition AcceptSDPAnswer :: "sdp_lib \<Rightarrow> string \<Rightarrow> leg \<Rightarrow> sdp_error option \<times> leg" where
  "AcceptSDPAnswer lib body l =
    (case lib_unmarshal lib body of
       None \<Rightarrow> (Some SdpUnmarshal, l)
     | Some sd \<Rightarrow>
        (case find (\<lambda>md. md_media md = ''audio'') (sd_mediaDescriptions sd) of
           None \<Rightarrow> (Some SdpNoAudio, l)
         | Some md \<Rightarrow>
            (let ip = media_address sd md; port = md_port md in
             if ip = '''' then (Some SdpNoConnection, l)
             else if port \<le> 0 then (Some (SdpBadPort port), l)
             else
               let (dtmf, audio) = fold (scan_answer_format (lib_codec lib sd)) (md_formats md) (101, [])
               in case audio of
                    [] \<Rightarrow> (Some SdpNoAudioPT, l)
                  | pt # _ \<Rightarrow>
                     if pt \<noteq> 0 then (Some (SdpCodecMismatch pt), l)
                     else (None, l\<lparr> l_remoteRTP := Some (ip, port), l_audioPT := 0, l_dtmfPT := dtmf,
                                    l_silenceFrame := Some pcmuSilenceFrame, l_mediaEncoding := ''audio/x-mulaw'',
                                    l_mediaSampleRate := 8000 \<rparr>))))"

text \<open>The test with which \<^verbatim>\<open>run\<close> decides whether media is encrypted.\<close>

definition srtp_active :: "byte list \<Rightarrow> byte list \<Rightarrow> byte list \<Rightarrow> byte list \<Rightarrow> bool" where
  "srtp_active localKey localSalt remoteKey remoteSalt =
    (length localKey = 16 \<and> length localSalt = 14 \<and> length remoteKey = 16 \<and> length remoteSalt = 14)"

section \<open>Key exchange\<close>

lemma join_with_map: "map f (join_with sep us) = join_with (map f sep) (map (map f) us)"
  by (induction sep us rule: join_with.induct) simp_all

lemma str_fields_words:
  assumes "\<And>w. w \<in> set ws \<Longrightarrow> w \<noteq> [] \<and> list_all (\<lambda>c. \<not> is_space c) w" "ws \<noteq> []"
  shows "str_fields (join_with '' '' ws) = ws"
proof -
  let ?f = "\<lambda>c. if is_space c then CHR '' '' else c"
  have word: "map ?f w = w" "CHR '' '' \<notin> set w" if "w \<in> set ws" for w
    using assms(1)[OF that] by (auto simp: list_all_iff is_space_def intro!: map_idI)
  have "map ?f (join_with '' '' ws) = join_with '' '' (map (map ?f) ws)"
    by (simp add: join_with_map is_space_def)
  also have "map (map ?f) ws = ws" by (rule map_idI) (rule word(1))
  finally have "str_fields (join_with '' '' ws) = filter (\<lambda>w. w \<noteq> []) ws"
    using split_join[of ws "CHR '' ''"] word(2) assms(2) by (simp add: str_fields_def)
  also have "\<dots> = ws" using assms(1) by (simp add: filter_id_conv)
  finally show ?thesis .
qed

lemma b64_char_plain: "list_all (\<lambda>n. \<not> is_space (b64_char n) \<and> b64_char n \<noteq> CHR ''|'') [0..<64]"
  by (simp add: is_space_def b64_char_def b64_alphabet_def upt_0_numeral upt_rec_numeral)

lemma b64_encode_plain: "c \<in> set (b64_encode bs) \<Longrightarrow> \<not> is_space c \<and> c \<noteq> CHR ''|''"
proof -
  have ok: "\<not> is_space (b64_char n)" "b64_char n \<noteq> CHR ''|''" if "n < 64" for n
    using b64_char_plain that by (simp_all add: list_all_iff)
  have eq: "\<not> is_space CHR ''=''" by (simp add: is_space_def)
  show "c \<in> set (b64_encode bs) \<Longrightarrow> ?thesis"
    by (induction bs rule: b64_encode.induct) (auto simp: ok eq)
qed

text \<open>The SRTP key we send is the key a peer reads: the crypto attribute of the
  answer, read back with the parser of the offer, gives the key and the salt,
  wherever it stands among the attributes of the media section that precede it
  without a usable key.\<close>

theorem srtp_key_roundtrip:
  assumes "length key = 16" "length salt = 14" "\<forall>a \<in> set as. fst a = ''crypto'' \<longrightarrow> parse_crypto (snd a) = None"
  shows "scan_crypto (as @ (''crypto'', crypto_value key salt) # rest) = (key, salt)"
proof -
  let ?b = "b64_encode (key @ salt)"
  let ?ws = "[''1'', crypto_suite, ''inline:'' @ ?b]"
  have plain: "list_all (\<lambda>c. \<not> is_space c) ?b" using b64_encode_plain by (auto simp: list_all_iff)
  have "crypto_value key salt = join_with '' '' ?ws" by (simp add: crypto_value_def)
  moreover have "str_fields (join_with '' '' ?ws) = ?ws"
    by (rule str_fields_words) (use plain in \<open>auto simp: crypto_suite_def is_space_def\<close>)
  moreover have "split_on (CHR ''|'') ?b = [?b]"
    by (rule split_on_no_sep) (use b64_encode_plain in blast)
  ultimately have "parse_crypto (crypto_value key salt) = Some (key, salt)"
    using assms(1,2) trim_prefix_append[of "''inline:''" ?b] by (simp add: parse_crypto_def equal_fold_def Let_def)
  then show ?thesis using assms(3) by (induction as) auto
qed

theorem srtp_key_roundtrip_witness:
  "crypto_value (replicate 16 0) (replicate 14 0) =
     ''1 AES_128_CM_HMAC_SHA1_80 inline:AAAAAAAAAAAAAAAAAAAAAAAAAAAAAAAAAAAAAAAA'' \<and>
   scan_crypto ((''rtpmap'', ''0 PCMU/8000'') # (''crypto'', crypto_value (replicate 16 0) (replicate 14 0)) # []) =
     (replicate 16 0, replicate 14 0)"
proof
  show "crypto_value (replicate 16 0) (replicate 14 0) =
      ''1 AES_128_CM_HMAC_SHA1_80 inline:AAAAAAAAAAAAAAAAAAAAAAAAAAAAAAAAAAAAAAAA''"
    by code_simp
  show "scan_crypto ((''rtpmap'', ''0 PCMU/8000'') # (''crypto'', crypto_value (replicate 16 0) (replicate 14 0)) # []) =
      (replicate 16 0, replicate 14 0)"
    using srtp_key_roundtrip[of "replicate 16 0" "replicate 14 0" "[(''rtpmap'', ''0 PCMU/8000'')]" "[]"] by simp
qed

section \<open>Negotiation\<close>


definition demo_caller :: caller_sdp where
  "demo_caller = \<lparr> RTPAddr = ''192.0.2.7'', RTPPort = 4000, DTMFPayloadType = 113, AudioPayloadTypes = [0, 8],
     IsSRTP = True, RemoteSRTPKey = [], RemoteSRTPSalt = [] \<rparr>"

definition demo_lib :: sdp_lib where
  "demo_lib = \<lparr> lib_unmarshal = (\<lambda>b. Some (our_session b
       \<lparr> md_media = ''audio'', md_port = 4000, md_protos = [''RTP'', ''AVP''], md_formats = [''0'', ''101''],
         md_connection = None, md_attributes = [] \<rparr>)),
     lib_marshal = (\<lambda>sd. Some ''v=0''), lib_codec = (\<lambda>sd n. if n = 101 then Some ''telephone-event'' else None),
     lib_withCodec = (\<lambda>n name clock ch fmtp m. m\<lparr> md_attributes := md_attributes m @ [(''rtpmap'', nat_digits n @ '' '' @ name)] \<rparr>),
     lib_withProperty = (\<lambda>p m. m\<lparr> md_attributes := md_attributes m @ [(p, '''')] \<rparr>) \<rparr>"



text \<open>Answering an SAVP offer does not depend on the offer having a usable key; the
  session then runs without SRTP although SRTP was agreed.\<close>

lemma savp_answer_without_remote_key:
  assumes "IsSRTP caller" "RemoteSRTPKey caller = []" "rk = Some (replicate 16 k)" "rs = Some (replicate 14 s)"
  shows "\<exists>key salt. snd (snd (BuildSDPAnswer lib rk rs ip port caller mode True)) = Some (key, salt) \<and>
    \<not> srtp_active key salt (RemoteSRTPKey caller) (RemoteSRTPSalt caller)"
  using assms by (simp add: BuildSDPAnswer_def local_srtp_def srtp_active_def Let_def)

section \<open>The callee's answer\<close>

lemma scan_answer_range:
  "st = fold (scan_answer_format codec) fs (d, as) \<Longrightarrow> d \<le> 255 \<Longrightarrow> \<forall>a \<in> set as. a \<le> 255 \<Longrightarrow>
    fst st \<le> 255 \<and> (\<forall>a \<in> set (snd st). a \<le> 255)"
proof (induction fs arbitrary: d as)
  case (Cons f fs)
  obtain d' as' where r: "scan_answer_format codec f (d, as) = (d', as')" by fastforce
  then have "d' \<le> 255 \<and> (\<forall>a \<in> set as'. a \<le> 255)"
    using Cons.prems(2,3)
    by (auto simp: scan_answer_format_def parse_uint8_def split: option.splits if_splits)
  then show ?case using Cons.IH[of d' as'] Cons.prems(1) r by simp
qed simp

text \<open>A callee is accepted only with PCMU: on success the leg has payload type 0,
  the PCMU silence frame and format, a DTMF payload type that fits a byte, and
  a remote address with a positive port; on every error the leg is unchanged,
  and so is every field of the leg that the answer does not decide.\<close>

theorem AcceptSDPAnswer_pcmu:
  assumes "AcceptSDPAnswer lib body l = (err, l')"
  shows "if err = None then
      (\<exists>ip port. l_remoteRTP l' = Some (ip, port) \<and> ip \<noteq> [] \<and> port > 0 \<and> l_dtmfPT l' \<le> 255 \<and>
        l' = l\<lparr> l_remoteRTP := Some (ip, port), l_audioPT := 0, l_dtmfPT := l_dtmfPT l',
          l_silenceFrame := Some pcmuSilenceFrame, l_mediaEncoding := ''audio/x-mulaw'', l_mediaSampleRate := 8000 \<rparr>)
    else l' = l"
proof (cases "err = None")
  case True
  then obtain sd md where sd: "lib_unmarshal lib body = Some sd"
    "find (\<lambda>md. md_media md = ''audio'') (sd_mediaDescriptions sd) = Some md"
    using assms by (auto simp: AcceptSDPAnswer_def Let_def split: option.splits)
  obtain dtmf as where f: "fold (scan_answer_format (lib_codec lib sd)) (md_formats md) (101, []) = (dtmf, as)" by fastforce
  have "dtmf \<le> 255" using scan_answer_range[OF f[symmetric]] by simp
  then show ?thesis
    using assms True sd f by (auto simp: AcceptSDPAnswer_def Let_def split: if_splits list.splits)
next
  case False
  then show ?thesis
    using assms by (auto simp: AcceptSDPAnswer_def Let_def split: option.splits if_splits list.splits prod.splits)
qed

theorem AcceptSDPAnswer_pcmu_witness:
  "\<exists>l'. AcceptSDPAnswer demo_lib ''192.0.2.9'' (NewCalleeLeg 10000 ''10.0.0.1'') = (None, l') \<and>
    l_remoteRTP l' = Some (''192.0.2.9'', 4000) \<and> l_dtmfPT l' \<le> 255"
proof -
  obtain err l' where r: "AcceptSDPAnswer demo_lib ''192.0.2.9'' (NewCalleeLeg 10000 ''10.0.0.1'') = (err, l')" by fastforce
  moreover have "err = None \<and> l_remoteRTP l' = Some (''192.0.2.9'', 4000)"
    using r by (auto simp: AcceptSDPAnswer_def demo_lib_def our_session_def media_address_def scan_answer_format_def
        parse_uint8_def is_digit_def digits_val_def digit_val_def equal_fold_def to_lower_def lower_char_def Let_def)
  ultimately show ?thesis using AcceptSDPAnswer_pcmu[OF r] by auto
qed

end
