(* ===== verification/Forwarder.thy ===== *)
theory Forwarder
  imports Guardrails Identity Observability Status_Client Twiml Sdp
begin

text \<open>
  The outbound leg of a forwarded call, \<^verbatim>\<open>sip/forwarder.go\<close>: the caller-ID policy
  and the URIs of the INVITE, the mapping of final responses, the status
  callbacks of the dial leg with their sequence numbers, the wait for the end of
  the dialog, and \<^verbatim>\<open>Dial\<close> from the guardrails to the last callback.  The SIP
  stack is outside: how an INVITE ends, which provisional responses precede it
  and whether the ACK could be sent are arguments.
\<close>

section \<open>Caller identity\<close>

record sip_uri =
  u_user :: string
  u_host :: string
  u_port :: int

definition first_nonblank :: "string list \<Rightarrow> string option" where
  "first_nonblank vs = find (\<lambda>v. v \<noteq> []) (map trim_space vs)"

definition resolveCallerID :: "string \<Rightarrow> string \<Rightarrow> string \<Rightarrow> string \<Rightarrow> string option" where
  "resolveCallerID optsCID callerFrom defaultCID sipUser = first_nonblank [optsCID, defaultCID, sipUser, callerFrom]"

definition resolveDisplayCallerID :: "string \<Rightarrow> string \<Rightarrow> string \<Rightarrow> string" where
  "resolveDisplayCallerID optsCID callerFrom defaultCID =
    (case first_nonblank [optsCID, defaultCID, callerFrom] of Some v \<Rightarrow> v | None \<Rightarrow> '''')"

definition normaliseTrunkCallerID :: "string \<Rightarrow> string \<Rightarrow> string" where
  "normaliseTrunkCallerID s countryCode =
    (let s1 = trim_prefix (trim_prefix (trim_space s) ''+'') ''00''; cc = trim_space countryCode
     in if cc \<noteq> [] \<and> length s1 > 1 \<and> s1 ! 0 = CHR ''0'' then cc @ drop 1 s1 else s1)"

definition isFromRejectionReason :: "string \<Rightarrow> bool" where
  "isFromRejectionReason reason =
    (let r = to_lower reason in
     list_ex (contains_str r)
       [''from field'', ''from header'', ''from-username'', ''p-asserted-identity'', ''caller-id'', ''callerid''])"

definition targetURI :: "string \<Rightarrow> string \<Rightarrow> int \<Rightarrow> sip_uri" where
  "targetURI target domain port =
    \<lparr> u_user = trim_prefix (trim_prefix (trim_space target) ''sip:'') ''tel:'', u_host = domain,
      u_port = (if port > 0 then port else 0) \<rparr>"

definition fromURI :: "string \<Rightarrow> string \<Rightarrow> sip_uri" where
  "fromURI callerID defaultDomain =
    (let t = trim_prefix (trim_prefix (trim_space callerID) ''tel:'') ''sip:'' in
     case index_of t ''@'' of
       Some i \<Rightarrow> \<lparr> u_user = take i t, u_host = drop (i + 1) t, u_port = 0 \<rparr>
     | None \<Rightarrow> \<lparr> u_user = t, u_host = defaultDomain, u_port = 0 \<rparr>)"

section \<open>State\<close>

text \<open>\<open>so_DTMF\<close> says whether a DTMF channel is wired.\<close>

record sip_dial_opts =
  so_CallerID :: string
  so_Timeout :: int
  so_TimeLimit :: int
  so_HangupOnStar :: bool
  so_DTMF :: bool
  so_CallerFrom :: string
  so_StatusCallback :: string
  so_StatusCallbackMethod :: string
  so_StatusCallbackEvents :: "string list"

record fwd_cfg =
  fc_SIPDomain :: string
  fc_SIPUser :: string
  fc_SIPOutboundTargetPort :: int
  fc_DialDefaultCallerID :: string
  fc_DialCallerIDCountryCode :: string
  fc_DialRingTimeoutS :: int
  fc_accountSid :: string

datatype fwd_effect =
    Attempt
  | Success
  | Failed string
  | Outcome string
  | AuthChallenge string
  | Invite sip_uri sip_uri string "sip_uri option" string
  | Ack
  | Bye
  | DialogClosed
  | Callback string url_values "enqueue_error option"
  | Drain string

record fwd =
  fw_guard :: guardrails
  fw_legSeqs :: "string \<rightharpoonup> 64 word"
  fw_statusWC :: "status_client option"
  fw_session :: call_session
  fw_log :: "fwd_effect list"

definition fw_do :: "fwd_effect \<Rightarrow> fwd \<Rightarrow> fwd" where
  "fw_do e f = f\<lparr> fw_log := fw_log f @ [e] \<rparr>"

text \<open>The environment: the status client's, the SDP library, and the formatted
  time at which an event is emitted.\<close>

record fwd_env =
  fe_callback :: callback_env
  fe_sdp :: sdp_lib
  fe_time :: "string \<Rightarrow> string"

text \<open>One dial: its caller, its target, its options and the CallSid minted for it.\<close>

record dial_ctx =
  dc_callerSid :: string
  dc_target :: string
  dc_opts :: sip_dial_opts
  dc_dialCallSid :: string

section \<open>Status callbacks of the dial leg\<close>

definition nextLegSequence :: "string \<Rightarrow> fwd \<Rightarrow> 64 word \<times> fwd" where
  "nextLegSequence sid f =
    (let n = (case fw_legSeqs f sid of Some n \<Rightarrow> n | None \<Rightarrow> 0)
     in (n, f\<lparr> fw_legSeqs := (fw_legSeqs f)(sid \<mapsto> n + 1) \<rparr>))"

definition ReleaseLegSequence :: "string \<Rightarrow> fwd \<Rightarrow> fwd" where
  "ReleaseLegSequence sid f = f\<lparr> fw_legSeqs := (fw_legSeqs f)(sid := None) \<rparr>"

definition dial_form :: "fwd_env \<Rightarrow> fwd_cfg \<Rightarrow> dial_ctx \<Rightarrow> string \<Rightarrow> string \<Rightarrow> 64 word \<Rightarrow> url_values" where
  "dial_form env cfg d eventName callStatus seq =
    (let opt = dc_opts d; target = normalizeTarget (dc_target d) in
     [(''CallSid'', [dc_dialCallSid d]), (''AccountSid'', [fc_accountSid cfg]), (''From'', [so_CallerFrom opt]),
      (''To'', [target]), (''Caller'', [so_CallerFrom opt]), (''Called'', [target]), (''Direction'', [''outbound-dial'']),
      (''ApiVersion'', [''2010-04-01'']), (''CallStatus'', [callStatus]), (''Timestamp'', [fe_time env eventName]),
      (''SequenceNumber'', [nat_digits (unat seq)]), (''CallbackSource'', [''call-progress-events''])] @
     (if dc_callerSid d \<noteq> '''' then [(''ParentCallSid'', [dc_callerSid d])] else []))"

definition emitDialEvent :: "fwd_env \<Rightarrow> fwd_cfg \<Rightarrow> dial_ctx \<Rightarrow> string \<Rightarrow> string \<Rightarrow> fwd \<Rightarrow> fwd" where
  "emitDialEvent env cfg d eventName callStatus f =
    (case fw_statusWC f of
       None \<Rightarrow> f
     | Some c \<Rightarrow>
        (let opt = dc_opts d in
         if so_StatusCallback opt = '''' then f
         else if \<not> SubscriptionMatches (set (so_StatusCallbackEvents opt)) eventName then f
         else
           let (seq, f1) = nextLegSequence (dc_dialCallSid d) f;
               form = dial_form env cfg d eventName callStatus seq;
               evt = \<lparr> cb_url = so_StatusCallback opt,
                       cb_method = (if so_StatusCallbackMethod opt = '''' then ''POST'' else so_StatusCallbackMethod opt),
                       cb_form = form, cb_event = eventName, cb_trusted = False \<rparr>;
               (err, c1) = Enqueue (fe_callback env) c (dc_dialCallSid d) evt
           in fw_do (Callback eventName form err) (f1\<lparr> fw_statusWC := Some c1 \<rparr>)))"

definition dialTerminalEventName :: "string \<Rightarrow> string" where
  "dialTerminalEventName status =
    (if status = ''answered'' \<or> status = ''hangup-star'' then ''completed''
     else if status = ''busy'' then ''busy''
     else if status = ''no-answer'' then ''no-answer''
     else if status = ''canceled'' then ''canceled''
     else ''failed'')"

text \<open>\<^verbatim>\<open>DrainAndClose\<close> runs in its own goroutine; here it is the effect \<^const>\<open>Drain\<close>.\<close>

definition drain_leg :: "dial_ctx \<Rightarrow> fwd \<Rightarrow> fwd" where
  "drain_leg d f = (if fw_statusWC f = None then f else fw_do (Drain (dc_dialCallSid d)) f)"

section \<open>Results\<close>

definition guardrailsReason :: "guard_error \<Rightarrow> string" where
  "guardrailsReason e =
    (case e of ErrTollFraudBlocked m \<Rightarrow> ''toll_fraud'' | ErrSessionRateLimit \<Rightarrow> ''rate_limit'' | ErrGlobalRateLimit \<Rightarrow> ''rate_limit'')"

definition set_status :: "string \<Rightarrow> string \<Rightarrow> dial_result \<Rightarrow> dial_result" where
  "set_status st re r = r\<lparr> r_Status := st, r_Reason := re \<rparr>"

definition dispatchFinalResponse :: "(int \<times> string) option \<Rightarrow> dial_result \<Rightarrow> dial_result" where
  "dispatchFinalResponse resp r =
    (case resp of
       None \<Rightarrow> set_status ''failed'' ''error'' r
     | Some (code, reason) \<Rightarrow>
        (let r1 = r\<lparr> r_SIPFinalCode := code \<rparr> in
         if code = 486 \<or> code = 600 then set_status ''busy'' ''busy'' r1
         else if code = 408 \<or> code = 480 \<or> code = 487 then set_status ''no-answer'' ''no_answer'' r1
         else if code = 403 \<and> isFromRejectionReason reason then set_status ''failed'' ''caller_id_rejected'' r1
         else if code = 603 then set_status ''failed'' ''rejected'' r1
         else if code \<ge> 500 \<and> code < 600 then set_status ''failed'' ''trunk_5xx'' r1
         else if code = 401 \<or> code = 407 then set_status ''failed'' ''auth_failed'' r1
         else set_status ''failed'' ''error'' r1))"

definition recordFailure :: "fwd_env \<Rightarrow> fwd_cfg \<Rightarrow> dial_ctx \<Rightarrow> string \<Rightarrow> dial_result \<Rightarrow> fwd \<Rightarrow> dial_result \<times> fwd" where
  "recordFailure env cfg d err r f =
    (let reason0 = (if r_Reason r = '''' then BucketForwardReason (Some err) else r_Reason r);
         reason = (if reason0 = '''' then ''error'' else reason0);
         r1 = (if r_Reason r = '''' then r\<lparr> r_Reason := reason \<rparr> else r);
         r2 = (if r_Status r1 = '''' then r1\<lparr> r_Status := ''failed'' \<rparr> else r1);
         f1 = fw_do (Outcome (BucketOutcome (r_Status r2))) (fw_do (Failed reason) f);
         ev = dialTerminalEventName (r_Status r2);
         f2 = emitDialEvent env cfg d ev ev f1
     in (r2, drain_leg d (ReleaseLegSequence (dc_dialCallSid d) f2)))"

section \<open>The end of the dialog\<close>

text \<open>What can wake \<^verbatim>\<open>awaitDialogEnd\<close>, in the order in which it happens: the dialog
  ends, the caller's context is cancelled, a digit arrives or the digit channel
  closes, the time limit passes.  The result is the status and whether we sent a
  BYE; \<^const>\<open>None\<close> when nothing has ended the dialog yet.\<close>

datatype await_event = DialogDone | CtxDone | Digit char | DtmfClosed | LimitPassed

fun awaitDialogEnd :: "sip_dial_opts \<Rightarrow> bool \<Rightarrow> await_event list \<Rightarrow> (string \<times> bool) option" where
  "awaitDialogEnd opt listening [] = None"
| "awaitDialogEnd opt listening (e # es) =
    (case e of
       DialogDone \<Rightarrow> Some (''answered'', False)
     | CtxDone \<Rightarrow> Some (''answered'', True)
     | LimitPassed \<Rightarrow> if so_TimeLimit opt > 0 then Some (''answered'', True) else awaitDialogEnd opt listening es
     | DtmfClosed \<Rightarrow> awaitDialogEnd opt False es
     | Digit c \<Rightarrow> if listening \<and> c = CHR ''*'' then Some (''hangup-star'', True) else awaitDialogEnd opt listening es)"

section \<open>Dial\<close>

text \<open>How the INVITE ends: a final error response, the ring time-out (found by the
  SIP stack or by the watchdog), the cancelled context, another error, or
  success with the final response (its status, reason and body).\<close>

datatype invite_end =
    ErrorResponse int string
  | RingTimeout
  | CtxCanceled
  | InviteError string
  | Accepted "(int \<times> string \<times> string) option"

text \<open>The hook on responses: one ringing callback for any number of 180 and 183,
  and a count of authentication challenges.\<close>

fun on_responses :: "fwd_env \<Rightarrow> fwd_cfg \<Rightarrow> dial_ctx \<Rightarrow> bool \<Rightarrow> int list \<Rightarrow> fwd \<Rightarrow> fwd" where
  "on_responses env cfg d rung [] f = f"
| "on_responses env cfg d rung (c # cs) f =
    (if c = 180 \<or> c = 183 then
       on_responses env cfg d True cs (if rung then f else emitDialEvent env cfg d ''ringing'' ''ringing'' f)
     else if c = 401 then on_responses env cfg d rung cs (fw_do (AuthChallenge ''401'') f)
     else if c = 407 then on_responses env cfg d rung cs (fw_do (AuthChallenge ''407'') f)
     else on_responses env cfg d rung cs f)"

definition invite_of :: "fwd_cfg \<Rightarrow> dial_ctx \<Rightarrow> string \<Rightarrow> string \<Rightarrow> fwd_effect" where
  "invite_of cfg d callerID offer =
    (let opt = dc_opts d;
         to = targetURI (dc_target d) (fc_SIPDomain cfg) (fc_SIPOutboundTargetPort cfg);
         from = fromURI callerID (fc_SIPDomain cfg);
         displayCID = trim_space (resolveDisplayCallerID (so_CallerID opt) (so_CallerFrom opt) (fc_DialDefaultCallerID cfg));
         cc = fc_DialCallerIDCountryCode cfg
     in if displayCID = '''' then Invite to from '''' None offer
        else
          let u0 = fromURI displayCID (fc_SIPDomain cfg);
              u = u0\<lparr> u_user := normaliseTrunkCallerID (u_user u0) cc \<rparr>
          in if u_user u \<noteq> normaliseTrunkCallerID (u_user from) cc then Invite to from (u_user u) (Some u) offer
             else Invite to from '''' None offer)"

text \<open>What one dial meets outside: the responses before the INVITE ends, how it
  ends, whether a failed INVITE still comes with a dialog to close, whether the ACK and the UDP socket succeed, what ends the dialog, and the
  talk time.\<close>

record dial_world =
  dw_responses :: "int list"
  dw_end :: invite_end
  dw_hasClient :: bool
  dw_ack_ok :: bool
  dw_listen_ok :: bool
  dw_events :: "await_event list"
  dw_talk :: int

definition sdp_error_msg :: "sdp_error \<Rightarrow> string" where
  "sdp_error_msg e =
    (case e of
       SdpNoContactIP \<Rightarrow> ''bridge: BuildSDPOffer requires non-empty contactIP''
     | SdpNoRtpPort n \<Rightarrow> ''bridge: BuildSDPOffer requires positive rtpPort, got '' @ itoa n
     | SdpMarshal \<Rightarrow> ''bridge: SDP marshal''
     | _ \<Rightarrow> ''bridge: SDP answer'')"

definition with_callee :: "(leg \<Rightarrow> leg) \<Rightarrow> fwd \<Rightarrow> fwd" where
  "with_callee g f = f\<lparr> fw_session := update_leg 1 g (fw_session f) \<rparr>"

text \<open>After a 200: the answer of the callee, the ACK, the relay, the wait for the
  end.\<close>

definition dial_answered :: "fwd_env \<Rightarrow> fwd_cfg \<Rightarrow> dial_ctx \<Rightarrow> dial_world \<Rightarrow> leg \<Rightarrow> string \<Rightarrow> dial_result \<Rightarrow> fwd \<Rightarrow>
    ((dial_result \<times> string option) \<times> fwd) option" where
  "dial_answered env cfg d w l body r f =
    (case AcceptSDPAnswer (fe_sdp env) body l of
       (Some e, _) \<Rightarrow>
         (let f1 = fw_do Bye (fw_do Ack f);
              (r1, f2) = recordFailure env cfg d ''forwarder: codec'' (set_status ''failed'' ''codec_mismatch'' r) f1
          in Some ((r1, Some ''forwarder: answer''), fw_do DialogClosed f2))
     | (None, l') \<Rightarrow>
         (let f0 = fw_do Ack (with_callee (\<lambda>_. l') f) in
          if \<not> dw_ack_ok w then
            (let (r1, f2) = recordFailure env cfg d ''forwarder: ACK after 200 OK'' (set_status ''failed'' ''error'' r) f0
             in Some ((r1, Some ''forwarder: ACK''), fw_do DialogClosed f2))
          else
            (case OnAnswered (dw_listen_ok w) (fw_session f0) of
               (Some e, s) \<Rightarrow>
                 (let (r1, f2) = recordFailure env cfg d ''forwarder: OnAnswered'' (set_status ''failed'' ''error'' r)
                        (fw_do Bye (f0\<lparr> fw_session := s \<rparr>))
                  in Some ((r1, Some ''forwarder: OnAnswered''), fw_do DialogClosed f2))
             | (None, s) \<Rightarrow>
                 (let f1 = emitDialEvent env cfg d ''answered'' ''in-progress'' (fw_do Success (f0\<lparr> fw_session := s \<rparr>));
                      opt = dc_opts d
                  in case awaitDialogEnd opt (so_HangupOnStar opt \<and> so_DTMF opt) (dw_events w) of
                       None \<Rightarrow> None
                     | Some (st, byed) \<Rightarrow>
                         (let f2 = (if byed then fw_do Bye f1 else f1);
                              r1 = r\<lparr> r_Status := st, r_Duration := dw_talk w \<rparr>;
                              f3 = emitDialEvent env cfg d ''completed'' ''completed'' (fw_do (Outcome ''answered'') f2)
                          in Some ((r1, None),
                               fw_do DialogClosed (drain_leg d (ReleaseLegSequence (dc_dialCallSid d) f3))))))))"

definition fail_dial :: "fwd_env \<Rightarrow> fwd_cfg \<Rightarrow> dial_ctx \<Rightarrow> string \<Rightarrow> dial_result \<Rightarrow> fwd \<Rightarrow> ((dial_result \<times> string option) \<times> fwd) option" where
  "fail_dial env cfg d err r f = (let (r1, f1) = recordFailure env cfg d err r f in Some ((r1, Some err), f1))"

text \<open>The deferred close of the dialog.\<close>

definition close_client :: "dial_world \<Rightarrow> ((dial_result \<times> string option) \<times> fwd) option \<Rightarrow>
    ((dial_result \<times> string option) \<times> fwd) option" where
  "close_client w x = (if dw_hasClient w then map_option (map_prod id (fw_do DialogClosed)) x else x)"

definition invite_outcome :: "fwd_env \<Rightarrow> fwd_cfg \<Rightarrow> dial_ctx \<Rightarrow> dial_world \<Rightarrow> leg \<Rightarrow> dial_result \<Rightarrow> fwd \<Rightarrow>
    ((dial_result \<times> string option) \<times> fwd) option" where
  "invite_outcome env cfg d w l r0 f =
    (case dw_end w of
       ErrorResponse code reason \<Rightarrow>
         close_client w (fail_dial env cfg d ''forwarder: dial'' (dispatchFinalResponse (Some (code, reason)) r0) f)
     | RingTimeout \<Rightarrow> close_client w (fail_dial env cfg d ''forwarder: ring timeout'' (set_status ''no-answer'' ''no_answer'' r0) f)
     | CtxCanceled \<Rightarrow> close_client w (fail_dial env cfg d ''forwarder: dial canceled'' (set_status ''canceled'' ''canceled'' r0) f)
     | InviteError e \<Rightarrow> close_client w (fail_dial env cfg d ''forwarder: dial'' (set_status ''failed'' ''error'' r0) f)
     | Accepted None \<Rightarrow>
         map_option (map_prod id (fw_do DialogClosed))
           (fail_dial env cfg d ''forwarder: dial succeeded but final response missing'' (set_status ''failed'' ''error'' r0) f)
     | Accepted (Some (code, reason, body)) \<Rightarrow>
         (let r1 = r0\<lparr> r_SIPFinalCode := code \<rparr> in
          if code \<noteq> 200 then
            map_option (map_prod id (fw_do DialogClosed))
              (fail_dial env cfg d ''forwarder: unexpected non-2xx final'' (set_status ''failed'' ''error'' r1) f)
          else dial_answered env cfg d w l body r1 f))"

text \<open>The whole of \<^verbatim>\<open>Dial\<close>; \<^const>\<open>None\<close> only while the dialog is still up.  The
  deferred release of the sequence counter is part of every path that
  allocates one.\<close>

definition Dial :: "fwd_env \<Rightarrow> fwd_cfg \<Rightarrow> nat \<Rightarrow> dial_ctx \<Rightarrow> dial_world \<Rightarrow> fwd \<Rightarrow> ((dial_result \<times> string option) \<times> fwd) option" where
  "Dial env cfg now d w f =
    (let r0 = \<lparr> r_Status = '''', r_Reason = '''', r_DialCallSid = dc_dialCallSid d, r_Duration = 0, r_SIPFinalCode = 0,
               r_DialedTarget = normalizeTarget (dc_target d) \<rparr>;
         (blocked, g) = CheckDial now (fw_guard f) (dc_callerSid d) (dc_target d);
         f0 = f\<lparr> fw_guard := g \<rparr>
     in case blocked of
          Some e \<Rightarrow>
            (let reason = guardrailsReason e in
             Some ((set_status ''failed'' reason r0, Some ''forwarder: guardrails rejected dial''),
                   fw_do (Outcome (BucketOutcome ''failed'')) (fw_do (Failed reason) f0)))
        | None \<Rightarrow>
            (let f1 = emitDialEvent env cfg d ''initiated'' ''queued'' (fw_do Attempt f0); opt = dc_opts d in
             case resolveCallerID (so_CallerID opt) (so_CallerFrom opt) (fc_DialDefaultCallerID cfg) (fc_SIPUser cfg) of
               None \<Rightarrow> fail_dial env cfg d ''forwarder: caller-id required (13214)'' r0 f1
             | Some callerID \<Rightarrow>
                 (case CalleeLeg (fw_session f1) of
                    None \<Rightarrow> fail_dial env cfg d ''forwarder: build SDP offer'' r0 f1
                  | Some l \<Rightarrow>
                     (case BuildSDPOffer (fe_sdp env) l of
                        Inl e \<Rightarrow> fail_dial env cfg d (''forwarder: build SDP offer: '' @ sdp_error_msg e) r0 f1
                      | Inr (offer, port) \<Rightarrow>
                         invite_outcome env cfg d w l r0
                           (on_responses env cfg d False (dw_responses w) (fw_do (invite_of cfg d callerID offer) f1))))))"


section \<open>What a dial leaves in the log\<close>

fun is_core :: "fwd_effect \<Rightarrow> bool" where
  "is_core (Callback e m x) = False"
| "is_core (Drain s) = False"
| "is_core (AuthChallenge c) = False"
| "is_core _ = True"

definition core :: "fwd \<Rightarrow> fwd_effect list" where
  "core f = filter is_core (fw_log f)"

lemma core_do [simp]: "core (fw_do e f) = core f @ (if is_core e then [e] else [])"
  by (simp add: core_def fw_do_def)

lemma core_fields [simp]:
  "core (f\<lparr> fw_guard := g \<rparr>) = core f" "core (f\<lparr> fw_legSeqs := q \<rparr>) = core f" "core (f\<lparr> fw_statusWC := c \<rparr>) = core f"
  "core (f\<lparr> fw_session := s \<rparr>) = core f" "core (with_callee h f) = core f" "core (ReleaseLegSequence sid f) = core f"
  "core (drain_leg d f) = core f"
  by (simp_all add: core_def with_callee_def ReleaseLegSequence_def drain_leg_def fw_do_def)

lemma core_emit [simp]: "core (emitDialEvent env cfg d ev cs f) = core f"
  by (simp add: emitDialEvent_def nextLegSequence_def Let_def split: option.split prod.split)

lemma core_responses [simp]: "core (on_responses env cfg d rung cs f) = core f"
  by (induction cs arbitrary: rung f) simp_all

lemma session_frame [simp]:
  "fw_session (fw_do e f) = fw_session f" "fw_session (emitDialEvent env cfg d ev cs f) = fw_session f"
  by (simp_all add: fw_do_def emitDialEvent_def nextLegSequence_def Let_def split: option.split prod.split)

definition failure_labels :: "string set" where
  "failure_labels = {''toll_fraud'', ''rate_limit'', ''caller_id_rejected'', ''busy'', ''rejected'', ''no_answer'',
     ''codec_mismatch'', ''auth_failed'', ''trunk_5xx'', ''timeout'', ''unreachable'', ''canceled'', ''error''}"

definition result_statuses :: "string set" where
  "result_statuses = {''answered'', ''hangup-star'', ''busy'', ''no-answer'', ''canceled'', ''failed''}"

lemma BucketForwardReason_labels: "BucketForwardReason e \<in> insert '''' failure_labels"
  by (simp add: BucketForwardReason_def failure_labels_def split: option.split)

text \<open>Failures that \<^verbatim>\<open>recordFailure\<close> may be handed: a reason of the vocabulary or
  none, and a status of the vocabulary or none.\<close>

definition failing :: "dial_result \<Rightarrow> bool" where
  "failing r \<longleftrightarrow> r_Reason r \<in> insert '''' failure_labels \<and> r_Status r \<in> {'''', ''busy'', ''no-answer'', ''canceled'', ''failed''}"

lemma recordFailure_core:
  assumes "recordFailure env cfg d err r f = (r', f')" "failing r"
  shows "\<exists>re \<in> failure_labels. core f' = core f @ [Failed re, Outcome (BucketOutcome (r_Status r'))] \<and> r_Reason r' = re \<and>
    r_Status r' = (if r_Status r = '''' then ''failed'' else r_Status r) \<and> r_DialCallSid r' = r_DialCallSid r \<and>
    r_SIPFinalCode r' = r_SIPFinalCode r"
proof -
  define reason0 where "reason0 = (if r_Reason r = '''' then BucketForwardReason (Some err) else r_Reason r)"
  define reason where "reason = (if reason0 = '''' then ''error'' else reason0)"
  have e: "''error'' \<in> failure_labels" by (simp add: failure_labels_def)
  have l: "reason \<in> failure_labels"
    using assms(2) BucketForwardReason_labels[of "Some err"]
    by (auto simp: reason_def reason0_def failing_def e)
  have "r_Reason r \<noteq> '''' \<Longrightarrow> r_Reason r = reason" by (simp add: reason_def reason0_def)
  then show ?thesis
    using assms(1) l unfolding recordFailure_def reason0_def[symmetric] Let_def reason_def[symmetric]
    by (intro bexI[of _ reason]) (auto split: if_splits)
qed

lemma failing_simps [simp]:
  "failing (set_status st re r) \<longleftrightarrow> re \<in> insert '''' failure_labels \<and> st \<in> {'''', ''busy'', ''no-answer'', ''canceled'', ''failed''}"
  by (simp add: failing_def set_status_def)

lemma dispatchFinalResponse_failing: "failing (dispatchFinalResponse resp r)"
  by (simp add: dispatchFinalResponse_def failure_labels_def Let_def split: option.split prod.split)

text \<open>A failed dial: counted once, reported once.\<close>

lemma fail_dial_core:
  assumes "fail_dial env cfg d err r f = Some ((r', e'), f')" "failing r"
  shows "e' \<noteq> None \<and> r_Status r' \<in> result_statuses - {''answered'', ''hangup-star''} \<and>
    (\<exists>re \<in> failure_labels. core f' = core f @ [Failed re, Outcome (BucketOutcome (r_Status r'))])"
proof -
  obtain r1 f1 where r: "recordFailure env cfg d err r f = (r1, f1)" by fastforce
  then have "r' = r1" "f' = f1" "e' = Some err" using assms(1) by (simp_all add: fail_dial_def)
  then show ?thesis
    using recordFailure_core[OF r assms(2)] assms(2) by (auto simp: failing_def result_statuses_def)
qed

lemma awaitDialogEnd_status:
  "awaitDialogEnd opt l es = Some (st, byed) \<Longrightarrow>
    (st = ''answered'' \<or> st = ''hangup-star'' \<and> l) \<and> (byed \<or> st = ''answered'' \<and> DialogDone \<in> set es)"
  by (induction es arbitrary: l) (auto split: await_event.splits if_splits)

lemma awaitDialogEnd_returns:
  "DialogDone \<in> set es \<or> CtxDone \<in> set es \<or> LimitPassed \<in> set es \<and> so_TimeLimit opt > 0 \<Longrightarrow>
    \<exists>st byed. awaitDialogEnd opt l es = Some (st, byed)"
  by (induction es arbitrary: l) (auto split: await_event.split)

lemma late_failure:
  assumes "recordFailure env cfg d err (set_status ''failed'' re0 r) f = (r', f')" "re0 \<in> failure_labels"
  shows "r_Status r' = ''failed'' \<and> (\<exists>re \<in> failure_labels. core f' = core f @ [Failed re, Outcome ''error''])"
proof -
  have "failing (set_status ''failed'' re0 r)" using assms(2) by simp
  from recordFailure_core[OF assms(1) this] show ?thesis by (auto simp: set_status_def BucketOutcome_def)
qed

lemma late_labels: "''codec_mismatch'' \<in> failure_labels" "''error'' \<in> failure_labels" "''failed'' \<in> result_statuses"
  by (simp_all add: failure_labels_def result_statuses_def)

lemma dial_answered_core:
  assumes "dial_answered env cfg d w l body r f = Some ((r', e'), f')" "failing r" "r_Status r = ''''"
  shows "r_Status r' \<in> result_statuses \<and>
    ((\<exists>re \<in> failure_labels. \<exists>b. e' \<noteq> None \<and> r_Status r' = ''failed'' \<and> (b \<or> \<not> dw_ack_ok w) \<and>
        core f' = core f @ [Ack] @ (if b then [Bye] else []) @ [Failed re, Outcome ''error'', DialogClosed]) \<or>
     (\<exists>b. e' = None \<and> r_Status r' \<in> {''answered'', ''hangup-star''} \<and> (b \<or> DialogDone \<in> set (dw_events w)) \<and>
        core f' = core f @ [Ack, Success] @ (if b then [Bye] else []) @ [Outcome ''answered'', DialogClosed]))"
proof (cases "AcceptSDPAnswer (fe_sdp env) body l")
  case (Pair err l')
  show ?thesis
  proof (cases err)
    case (Some e)
    obtain r1 f1 where rf: "recordFailure env cfg d ''forwarder: codec'' (set_status ''failed'' ''codec_mismatch'' r) (fw_do Bye (fw_do Ack f)) = (r1, f1)"
      by fastforce
    have "r' = r1 \<and> f' = fw_do DialogClosed f1 \<and> e' \<noteq> None"
      using assms(1) Pair Some rf by (auto simp: dial_answered_def Let_def)
    then show ?thesis
      using late_failure[OF rf late_labels(1)] late_labels(3) by auto
  next
    case None
    let ?f0 = "fw_do Ack (with_callee (\<lambda>_. l') f)"
    show ?thesis
    proof (cases "dw_ack_ok w")
      case False
      obtain r1 f1 where rf: "recordFailure env cfg d ''forwarder: ACK after 200 OK'' (set_status ''failed'' ''error'' r) ?f0 = (r1, f1)"
        by fastforce
      have "r' = r1 \<and> f' = fw_do DialogClosed f1 \<and> e' \<noteq> None"
        using assms(1) Pair None False rf by (auto simp: dial_answered_def Let_def)
      then show ?thesis
        using late_failure[OF rf late_labels(2)] late_labels(3) False by auto
    next
      case True
      obtain oe s where oa: "OnAnswered (dw_listen_ok w) (fw_session ?f0) = (oe, s)" by fastforce
      show ?thesis
      proof (cases oe)
        case (Some e)
        obtain r1 f1 where rf: "recordFailure env cfg d ''forwarder: OnAnswered'' (set_status ''failed'' ''error'' r)
            (fw_do Bye (?f0\<lparr> fw_session := s \<rparr>)) = (r1, f1)"
          by fastforce
        have "r' = r1 \<and> f' = fw_do DialogClosed f1 \<and> e' \<noteq> None"
          using assms(1) Pair None True oa Some rf by (auto simp: dial_answered_def Let_def)
        then show ?thesis
          using late_failure[OF rf late_labels(2)] late_labels(3) by auto
      next
        case oe: None
        obtain st byed where aw: "awaitDialogEnd (dc_opts d) (so_HangupOnStar (dc_opts d) \<and> so_DTMF (dc_opts d)) (dw_events w) = Some (st, byed)"
          using assms(1) Pair None True oa oe by (auto simp: dial_answered_def Let_def split: option.splits)
        then have "e' = None \<and> r_Status r' = st \<and>
            core f' = core f @ [Ack, Success] @ (if byed then [Bye] else []) @ [Outcome ''answered'', DialogClosed]"
          using assms(1) Pair None True oa oe by (auto simp: dial_answered_def Let_def)
        then show ?thesis using awaitDialogEnd_status[OF aw] by (auto simp: result_statuses_def)
      qed
    qed
  qed
qed

text \<open>The five shapes of a dial: blocked, failed before the INVITE, failed by the
  INVITE, failed after the callee's 200, and answered.\<close>

definition inv_ok :: "fwd_cfg \<Rightarrow> dial_ctx \<Rightarrow> fwd_effect \<Rightarrow> bool" where
  "inv_ok cfg d iv \<longleftrightarrow>
    (\<exists>from disp ppi body. iv = Invite (targetURI (dc_target d) (fc_SIPDomain cfg) (fc_SIPOutboundTargetPort cfg)) from disp ppi body \<and>
      (\<forall>u. ppi = Some u \<longrightarrow> disp = u_user u) \<and> (ppi = None \<longrightarrow> disp = ''''))"

definition blocked_shape :: "fwd_effect list \<Rightarrow> bool" where
  "blocked_shape xs \<longleftrightarrow> (\<exists>re \<in> failure_labels. xs = [Failed re, Outcome ''error''])"

definition failed_shape :: "fwd_cfg \<Rightarrow> dial_ctx \<Rightarrow> fwd_effect list \<Rightarrow> string \<Rightarrow> bool" where
  "failed_shape cfg d xs st \<longleftrightarrow> (\<exists>re \<in> failure_labels. xs = [Attempt, Failed re, Outcome (BucketOutcome st)] \<or>
     (\<exists>iv c. inv_ok cfg d iv \<and>
       xs = [Attempt, iv, Failed re, Outcome (BucketOutcome st)] @ (if c then [DialogClosed] else [])))"

definition answered_shape :: "fwd_cfg \<Rightarrow> dial_ctx \<Rightarrow> bool \<Rightarrow> bool \<Rightarrow> bool \<Rightarrow> fwd_effect list \<Rightarrow> bool" where
  "answered_shape cfg d ok acked ended xs \<longleftrightarrow>
    (\<exists>iv b. inv_ok cfg d iv \<and>
      (if ok then (b \<or> ended) \<and> xs = [Attempt, iv, Ack, Success] @ (if b then [Bye] else []) @ [Outcome ''answered'', DialogClosed]
       else \<exists>re \<in> failure_labels. (b \<or> \<not> acked) \<and>
         xs = [Attempt, iv, Ack] @ (if b then [Bye] else []) @ [Failed re, Outcome ''error'', DialogClosed]))"

lemma invite_of_shape: "inv_ok cfg d (invite_of cfg d cid offer)"
  by (simp add: inv_ok_def invite_of_def Let_def)

lemma fail_dial_shape:
  assumes "fail_dial env cfg d err r f = Some ((r', e'), f')" "failing r" "core f = base @ [Attempt] @ pre"
    and "pre = [] \<or> (\<exists>iv. inv_ok cfg d iv \<and> pre = [iv])"
  shows "e' \<noteq> None \<and> r_Status r' \<in> result_statuses - {''answered'', ''hangup-star''} \<and>
    (\<exists>xs. core f' = base @ xs \<and> failed_shape cfg d xs (r_Status r') \<and>
      (pre \<noteq> [] \<longrightarrow> failed_shape cfg d (xs @ [DialogClosed]) (r_Status r')))"
proof -
  from fail_dial_core[OF assms(1,2)] obtain re where re: "re \<in> failure_labels" "e' \<noteq> None"
    "r_Status r' \<in> result_statuses - {''answered'', ''hangup-star''}"
    "core f' = core f @ [Failed re, Outcome (BucketOutcome (r_Status r'))]" by auto
  let ?xs = "[Attempt] @ pre @ [Failed re, Outcome (BucketOutcome (r_Status r'))]"
  have "failed_shape cfg d ?xs (r_Status r') \<and> (pre \<noteq> [] \<longrightarrow> failed_shape cfg d (?xs @ [DialogClosed]) (r_Status r'))"
    using assms(4)
  proof (elim disjE exE)
    assume "pre = []"
    then show ?thesis using re(1) by (auto simp: failed_shape_def)
  next
    fix iv assume "inv_ok cfg d iv \<and> pre = [iv]"
    then show ?thesis
      using re(1) unfolding failed_shape_def
      by (intro conjI impI bexI[of _ re] disjI2 exI[of _ iv] exI[of _ False]
          exI[of _ "True"]) simp_all
  qed
  then show ?thesis using re assms(3) by (intro conjI exI[of _ ?xs]) simp_all
qed

lemma invite_outcome_cases:
  assumes "invite_outcome env cfg d w l r0 f = Some ((r, e), f')"
  shows "(\<exists>err q. fail_dial env cfg d err q f = Some ((r, e), f') \<and> failing q) \<or>
    (\<exists>err q f3. fail_dial env cfg d err q f = Some ((r, e), f3) \<and> failing q \<and> f' = fw_do DialogClosed f3) \<or>
    (\<exists>body code. dial_answered env cfg d w l body (r0\<lparr> r_SIPFinalCode := code \<rparr>) f = Some ((r, e), f'))"
proof -
  have ok: "failing (set_status ''no-answer'' ''no_answer'' q)" "failing (set_status ''canceled'' ''canceled'' q)"
    "failing (set_status ''failed'' ''error'' q)" for q
    by (simp_all add: failure_labels_def)
  have closed: "\<exists>f3. x = Some ((r, e), f3) \<and> f' = fw_do DialogClosed f3"
    if "map_option (map_prod id (fw_do DialogClosed)) x = Some ((r, e), f')" for x
    using that by (cases x) auto
  have early: ?thesis if "close_client w (fail_dial env cfg d err q f) = Some ((r, e), f')" "failing q" for err q
    using that closed[of "fail_dial env cfg d err q f"] by (auto simp: close_client_def split: if_splits)
  show ?thesis
  proof (cases "dw_end w")
    case (ErrorResponse code reason)
    then show ?thesis using assms early[OF _ dispatchFinalResponse_failing] by (simp add: invite_outcome_def)
  next
    case (Accepted a)
    show ?thesis
    proof (cases a)
      case None
      then have "map_option (map_prod id (fw_do DialogClosed)) (fail_dial env cfg d
          ''forwarder: dial succeeded but final response missing'' (set_status ''failed'' ''error'' r0) f) = Some ((r, e), f')"
        using assms Accepted by (simp add: invite_outcome_def)
      from closed[OF this] ok(3)[of r0] show ?thesis by blast
    next
      case (Some crb)
      obtain code reason body where crb: "crb = (code, reason, body)" by (cases crb)
      show ?thesis
      proof (cases "code = 200")
        case True
        then have "dial_answered env cfg d w l body (r0\<lparr> r_SIPFinalCode := code \<rparr>) f = Some ((r, e), f')"
          using assms Accepted Some crb by (simp add: invite_outcome_def Let_def)
        then show ?thesis by blast
      next
        case False
        then have "map_option (map_prod id (fw_do DialogClosed)) (fail_dial env cfg d
            ''forwarder: unexpected non-2xx final'' (set_status ''failed'' ''error'' (r0\<lparr> r_SIPFinalCode := code \<rparr>)) f) = Some ((r, e), f')"
          using assms Accepted Some crb by (simp add: invite_outcome_def Let_def)
        from closed[OF this] ok(3)[of "r0\<lparr> r_SIPFinalCode := code \<rparr>"] show ?thesis by blast
      qed
    qed
  qed (use assms early[OF _ ok(1)] early[OF _ ok(2)] early[OF _ ok(3)] in \<open>simp_all add: invite_outcome_def\<close>)
qed

lemma Dial_shape:
  assumes "Dial env cfg now d w f = Some ((r, e), f')"
  shows "\<exists>xs. core f' = core f @ xs \<and> r_Status r \<in> result_statuses \<and>
    (if fst (CheckDial now (fw_guard f) (dc_callerSid d) (dc_target d)) \<noteq> None
     then e \<noteq> None \<and> r_Status r = ''failed'' \<and> blocked_shape xs
     else (e \<noteq> None \<and> r_Status r \<notin> {''answered'', ''hangup-star''} \<and> failed_shape cfg d xs (r_Status r)) \<or>
       (e \<noteq> None \<and> r_Status r = ''failed'' \<and> answered_shape cfg d False (dw_ack_ok w) (DialogDone \<in> set (dw_events w)) xs) \<or>
       (e = None \<and> r_Status r \<in> {''answered'', ''hangup-star''} \<and>
          answered_shape cfg d True (dw_ack_ok w) (DialogDone \<in> set (dw_events w)) xs))"
proof -
  define r0 where "r0 = \<lparr> r_Status = '''', r_Reason = '''', r_DialCallSid = dc_dialCallSid d, r_Duration = 0, r_SIPFinalCode = 0,
               r_DialedTarget = normalizeTarget (dc_target d) \<rparr>"
  obtain blocked g where cd: "CheckDial now (fw_guard f) (dc_callerSid d) (dc_target d) = (blocked, g)" by fastforce
  show ?thesis
  proof (cases blocked)
    case (Some ge)
    have "guardrailsReason ge \<in> failure_labels"
      by (simp add: guardrailsReason_def failure_labels_def split: guard_error.split)
    moreover have "r = set_status ''failed'' (guardrailsReason ge) r0 \<and> e \<noteq> None \<and>
        core f' = core f @ [Failed (guardrailsReason ge), Outcome (BucketOutcome ''failed'')]"
      using assms cd Some unfolding Dial_def r0_def[symmetric] by (auto simp: Let_def)
    ultimately show ?thesis
      using cd Some late_labels(3) by (auto simp: blocked_shape_def set_status_def BucketOutcome_def)
  next
    case None
    define f1 where "f1 = emitDialEvent env cfg d ''initiated'' ''queued'' (fw_do Attempt (f\<lparr> fw_guard := g \<rparr>))"
    have c1: "core f1 = core f @ [Attempt] @ []" by (simp add: f1_def)
    have f0: "failing r0" by (simp add: failing_def r0_def)
    let ?cid = "resolveCallerID (so_CallerID (dc_opts d)) (so_CallerFrom (dc_opts d)) (fc_DialDefaultCallerID cfg) (fc_SIPUser cfg)"
    show ?thesis
    proof (cases "\<exists>err. fail_dial env cfg d err r0 f1 = Some ((r, e), f')")
      case True
      then obtain err where "fail_dial env cfg d err r0 f1 = Some ((r, e), f')" ..
      from fail_dial_shape[OF this f0 c1] show ?thesis using cd None by auto
    next
      case early: False
      then obtain callerID l offer port where pre: "?cid = Some callerID" "CalleeLeg (fw_session f1) = Some l"
          "BuildSDPOffer (fe_sdp env) l = Inr (offer, port)"
        using assms cd None unfolding Dial_def r0_def[symmetric]
        by (auto simp: Let_def f1_def[symmetric] split: option.splits sum.splits prod.splits)
      define f2 where "f2 = on_responses env cfg d False (dw_responses w) (fw_do (invite_of cfg d callerID offer) f1)"
      define iv where "iv = invite_of cfg d callerID offer"
      have iv: "inv_ok cfg d iv" "is_core iv"
        using invite_of_shape[of cfg d callerID offer] by (simp_all add: iv_def) (auto simp: inv_ok_def)
      then have c2: "core f2 = core f @ [Attempt] @ [iv]" by (simp add: f2_def iv_def[symmetric] c1)
      have D: "Dial env cfg now d w f = invite_outcome env cfg d w l r0 f2"
        using cd None pre by (simp add: Dial_def r0_def Let_def f1_def f2_def)
      consider (fail) err q where "fail_dial env cfg d err q f2 = Some ((r, e), f')" "failing q"
        | (closed) err q f3 where "fail_dial env cfg d err q f2 = Some ((r, e), f3)" "failing q" "f' = fw_do DialogClosed f3"
        | (ans) body code where "dial_answered env cfg d w l body (r0\<lparr> r_SIPFinalCode := code \<rparr>) f2 = Some ((r, e), f')"
        using invite_outcome_cases[OF assms[unfolded D]] f0 by blast
      then show ?thesis
      proof cases
        case fail
        from fail_dial_shape[OF fail c2] iv show ?thesis using cd None by auto
      next
        case closed
        from fail_dial_shape[OF closed(1,2) c2] iv obtain xs where "core f3 = core f @ xs"
          "failed_shape cfg d (xs @ [DialogClosed]) (r_Status r)" "e \<noteq> None" "r_Status r \<in> result_statuses - {''answered'', ''hangup-star''}" by auto
        then show ?thesis using cd None closed(3) by (intro exI[of _ "xs @ [DialogClosed]"]) simp
      next
        case ans
        have "failing (r0\<lparr> r_SIPFinalCode := code \<rparr>)" "r_Status (r0\<lparr> r_SIPFinalCode := code \<rparr>) = ''''"
          by (simp_all add: failing_def r0_def)
        note A = dial_answered_core[OF ans this]
        show ?thesis
        proof (cases "e = None")
          case True
          with A obtain b where "r_Status r \<in> {''answered'', ''hangup-star''}" "b \<or> DialogDone \<in> set (dw_events w)"
            "core f' = core f2 @ [Ack, Success] @ (if b then [Bye] else []) @ [Outcome ''answered'', DialogClosed]" by auto
          then have "answered_shape cfg d True (dw_ack_ok w) (DialogDone \<in> set (dw_events w))
              ([Attempt, iv, Ack, Success] @ (if b then [Bye] else []) @ [Outcome ''answered'', DialogClosed])"
            using iv(1) unfolding answered_shape_def by (intro exI[of _ iv] exI[of _ b]) simp
          then show ?thesis using A True cd None c2 \<open>core f' = _\<close> by (intro exI conjI[of "core f' = _"]) auto
        next
          case False
          with A obtain re b where "re \<in> failure_labels" "r_Status r = ''failed''" "b \<or> \<not> dw_ack_ok w"
            "core f' = core f2 @ [Ack] @ (if b then [Bye] else []) @ [Failed re, Outcome ''error'', DialogClosed]" by auto
          then have "answered_shape cfg d False (dw_ack_ok w) (DialogDone \<in> set (dw_events w))
              ([Attempt, iv, Ack] @ (if b then [Bye] else []) @ [Failed re, Outcome ''error'', DialogClosed])"
            using iv(1) unfolding answered_shape_def by (intro exI[of _ iv] exI[of _ b]) auto
          then show ?thesis using A False cd None c2 \<open>core f' = _\<close> \<open>r_Status r = ''failed''\<close>
            by (intro exI conjI[of "core f' = _"]) auto
        qed
      qed
    qed
  qed
qed

section \<open>Accounting and dialog safety\<close>

fun is_failed :: "fwd_effect \<Rightarrow> bool" where
  "is_failed (Failed re) = True"
| "is_failed _ = False"

fun is_invite :: "fwd_effect \<Rightarrow> bool" where
  "is_invite (Invite to from disp ppi body) = True"
| "is_invite _ = False"

fun label_ok :: "fwd_effect \<Rightarrow> bool" where
  "label_ok (Failed re) = (re \<in> failure_labels)"
| "label_ok (Outcome x) = (x \<in> {''answered'', ''no_answer'', ''busy'', ''error''})"
| "label_ok _ = True"

fun outcomes :: "fwd_effect list \<Rightarrow> string list" where
  "outcomes [] = []"
| "outcomes (Outcome x # xs) = x # outcomes xs"
| "outcomes (_ # xs) = outcomes xs"

lemma BucketOutcome_range: "BucketOutcome st \<in> {''answered'', ''no_answer'', ''busy'', ''error''}"
  by (simp add: BucketOutcome_def)

lemma inv_ok_simps: "inv_ok cfg d iv \<Longrightarrow> is_invite iv \<and> \<not> is_failed iv \<and> label_ok iv \<and> iv \<noteq> Attempt \<and> iv \<noteq> Success \<and>
    iv \<noteq> Ack \<and> iv \<noteq> Bye \<and> iv \<noteq> DialogClosed"
  by (auto simp: inv_ok_def)

lemma inv_ok_outcomes: "inv_ok cfg d iv \<Longrightarrow> outcomes (iv # xs) = outcomes xs"
  by (auto simp: inv_ok_def)

definition accounts :: "bool \<Rightarrow> bool \<Rightarrow> fwd_effect list \<Rightarrow> bool" where
  "accounts attempted ok xs \<longleftrightarrow>
    count_list xs Attempt = (if attempted then 1 else 0) \<and> count_list xs Success = (if ok then 1 else 0) \<and>
    length (filter is_failed xs) = (if ok then 0 else 1) \<and> length (outcomes xs) = 1 \<and> list_all label_ok xs"

lemma blocked_accounts: "blocked_shape xs \<Longrightarrow> accounts False False xs"
  using BucketOutcome_range by (auto simp: blocked_shape_def accounts_def)

lemma failed_accounts: "failed_shape cfg d xs st \<Longrightarrow> accounts True False xs"
  unfolding failed_shape_def using BucketOutcome_range[of st]
  by (elim bexE exE conjE disjE; simp add: accounts_def inv_ok_simps inv_ok_outcomes)

lemma answered_accounts: "answered_shape cfg d ok acked ended xs \<Longrightarrow> accounts True ok xs"
  unfolding answered_shape_def
  by (elim exE conjE) (auto simp: accounts_def inv_ok_simps inv_ok_outcomes split: if_splits)

lemmas shapes_account = blocked_accounts failed_accounts answered_accounts


text \<open>C7. No INVITE leaves without the guardrails' consent, and no dialog is left
  up: at most one INVITE is sent per dial, to the trunk; after an ACK the dialog
  is closed, and unless it had ended by itself or its ACK could not be sent, a
  BYE was sent first.\<close>

theorem Dial_dialog_safety:
  assumes "Dial env cfg now d w f = Some ((r, e), f')" "core f = []"
  shows "(fst (CheckDial now (fw_guard f) (dc_callerSid d) (dc_target d)) \<noteq> None \<longrightarrow> filter is_invite (core f') = []) \<and>
    length (filter is_invite (core f')) \<le> 1 \<and>
    (\<forall>to from disp ppi body. Invite to from disp ppi body \<in> set (core f') \<longrightarrow> u_host to = fc_SIPDomain cfg) \<and>
    (Ack \<in> set (core f') \<longrightarrow> last (core f') = DialogClosed \<and>
       (Bye \<in> set (core f') \<or> \<not> dw_ack_ok w \<or> DialogDone \<in> set (dw_events w))) \<and>
    (Bye \<in> set (core f') \<longrightarrow> Ack \<in> set (core f'))"
proof -
  obtain xs where xs: "core f' = xs"
    "if fst (CheckDial now (fw_guard f) (dc_callerSid d) (dc_target d)) \<noteq> None then blocked_shape xs
     else failed_shape cfg d xs (r_Status r) \<or>
       (\<exists>ok. answered_shape cfg d ok (dw_ack_ok w) (DialogDone \<in> set (dw_events w)) xs)"
    using Dial_shape[OF assms(1)] assms(2) by (auto split: if_splits)
  have host: "inv_ok cfg d (Invite to fr disp ppi body) \<Longrightarrow> u_host to = fc_SIPDomain cfg" for to fr disp ppi body
    by (auto simp: inv_ok_def targetURI_def)
  show ?thesis
  proof (cases "fst (CheckDial now (fw_guard f) (dc_callerSid d) (dc_target d))")
    case (Some x)
    then show ?thesis using xs by (auto simp: blocked_shape_def)
  next
    case None
    with xs(2) consider "failed_shape cfg d xs (r_Status r)"
      | ok where "answered_shape cfg d ok (dw_ack_ok w) (DialogDone \<in> set (dw_events w)) xs" by auto
    then show ?thesis
    proof cases
      case 1
      then show ?thesis using xs(1) None host by (auto simp: failed_shape_def dest: inv_ok_simps)
    next
      case 2
      then show ?thesis using xs(1) None host by (auto simp: answered_shape_def dest: inv_ok_simps split: if_splits)
    qed
  qed
qed

text \<open>C30. A dial returns: whatever the callee answers, \<^verbatim>\<open>Dial\<close> comes back as soon as
  the dialog ends, the caller hangs up, or the configured time limit passes.\<close>

theorem Dial_returns:
  assumes "DialogDone \<in> set (dw_events w) \<or> CtxDone \<in> set (dw_events w) \<or>
    LimitPassed \<in> set (dw_events w) \<and> so_TimeLimit (dc_opts d) > 0"
  shows "\<exists>r e f'. Dial env cfg now d w f = Some ((r, e), f')"
proof -
  have fail: "\<exists>x. fail_dial env cfg d err r f = Some x" for err r f
    by (simp add: fail_dial_def split_beta)
  have "\<exists>x. dial_answered env cfg d w l body r f = Some x" for l body r f
    using awaitDialogEnd_returns[OF assms]
    by (auto simp: dial_answered_def Let_def split_beta split: option.split prod.split) (metis not_None_eq)+
  then have "\<exists>x. invite_outcome env cfg d w l r f = Some x" for l r f
    using fail by (auto simp: invite_outcome_def close_client_def Let_def split: invite_end.split option.split prod.split)
  then have "\<exists>x. Dial env cfg now d w f = Some x"
    using fail by (auto simp: Dial_def Let_def split: option.split sum.split prod.split)
  then show ?thesis by auto
qed

section \<open>The callbacks of a dial\<close>

fun callback_of :: "fwd_effect \<Rightarrow> (string list \<times> string) option" where
  "callback_of (Callback ev form err) =
    Some (case map_of form ''SequenceNumber'' of Some v \<Rightarrow> v | None \<Rightarrow> [], ev)"
| "callback_of _ = None"

definition callbacks :: "fwd \<Rightarrow> (string list \<times> string) list" where
  "callbacks f = List.map_filter callback_of (fw_log f)"

definition numbered :: "string list \<Rightarrow> (string list \<times> string) list" where
  "numbered es = map (\<lambda>(n, e). ([nat_digits n], e)) (enumerate 0 es)"

definition selected :: "dial_ctx \<Rightarrow> string list \<Rightarrow> string list" where
  "selected d es = filter (SubscriptionMatches (set (so_StatusCallbackEvents (dc_opts d)))) es"

lemma numbered_snoc: "numbered (es @ [e]) = numbered es @ [([nat_digits (length es)], e)]"
  by (simp add: numbered_def enumerate_append_eq)

text \<open>The events attempted so far, and what the log and the counter hold for them;
  then the same once the counter is released.\<close>

definition tallied :: "dial_ctx \<Rightarrow> string list \<Rightarrow> fwd \<Rightarrow> bool" where
  "tallied d es f \<longleftrightarrow> fw_statusWC f \<noteq> None \<and> callbacks f = numbered (selected d es) \<and> length es \<le> 4 \<and>
    fw_legSeqs f (dc_dialCallSid d) = (if selected d es = [] then None else Some (of_nat (length (selected d es))))"

definition reported :: "dial_ctx \<Rightarrow> string list \<Rightarrow> fwd \<Rightarrow> bool" where
  "reported d es f \<longleftrightarrow> callbacks f = numbered (selected d es) \<and> fw_legSeqs f (dc_dialCallSid d) = None"

lemma callbacks_do [simp]: "callback_of e = None \<Longrightarrow> callbacks (fw_do e f) = callbacks f"
  by (simp add: callbacks_def fw_do_def List.map_filter_def)

lemma callback_frames [simp]:
  "callback_of e = None \<Longrightarrow> tallied d es (fw_do e f) = tallied d es f"
  "callback_of e = None \<Longrightarrow> reported d es (fw_do e f) = reported d es f"
  "tallied d es (f\<lparr> fw_session := s \<rparr>) = tallied d es f" "tallied d es (f\<lparr> fw_guard := g \<rparr>) = tallied d es f"
  "tallied d es (with_callee h f) = tallied d es f" "reported d es (drain_leg d f) = reported d es f"
  by (simp_all add: tallied_def reported_def callbacks_def fw_do_def List.map_filter_def with_callee_def drain_leg_def)

lemma tallied_release: "tallied d es f \<Longrightarrow> reported d es (ReleaseLegSequence (dc_dialCallSid d) f)"
  by (simp add: tallied_def reported_def ReleaseLegSequence_def callbacks_def)

lemma unat_small: "n \<le> 4 \<Longrightarrow> unat (of_nat n :: 64 word) = n"
  by (simp add: unat_of_nat)

lemma tallied_emit:
  assumes "tallied d es f" "so_StatusCallback (dc_opts d) \<noteq> ''''" "length es < 4"
  shows "tallied d (es @ [ev]) (emitDialEvent env cfg d ev cs f)"
proof (cases "SubscriptionMatches (set (so_StatusCallbackEvents (dc_opts d))) ev")
  case False
  then show ?thesis using assms by (auto simp: tallied_def emitDialEvent_def selected_def Let_def)
next
  case True
  obtain c where c: "fw_statusWC f = Some c" using assms(1) by (auto simp: tallied_def)
  have len: "length (selected d es) \<le> 4"
    using assms(3) length_filter_le[of _ es] unfolding selected_def by (meson le_trans less_imp_le)
  have seq: "nextLegSequence (dc_dialCallSid d) f =
      (of_nat (length (selected d es)), f\<lparr> fw_legSeqs := (fw_legSeqs f)(dc_dialCallSid d \<mapsto> of_nat (length (selected d es)) + 1) \<rparr>)"
    using assms(1) by (simp add: nextLegSequence_def tallied_def Let_def)
  show ?thesis
    using assms True c len
    by (simp add: tallied_def emitDialEvent_def Let_def seq selected_def[of d "es @ [ev]"] selected_def[of d es, symmetric]
        split_beta fw_do_def callbacks_def List.map_filter_def numbered_snoc dial_form_def unat_small add.commute)
qed

text \<open>A response hook emits at most one ringing event.\<close>

lemma on_responses_rung: "tallied d es f \<Longrightarrow> tallied d es (on_responses env cfg d True cs f)"
  by (induction cs arbitrary: f) simp_all

lemma on_responses_tally:
  assumes "tallied d es f" "so_StatusCallback (dc_opts d) \<noteq> ''''" "length es < 4"
  shows "tallied d (es @ (if 180 \<in> set cs \<or> 183 \<in> set cs then [''ringing''] else [])) (on_responses env cfg d False cs f)"
  using assms
proof (induction cs arbitrary: f)
  case (Cons c cs)
  have "tallied d (es @ [''ringing'']) (on_responses env cfg d True cs (emitDialEvent env cfg d ''ringing'' ''ringing'' f))"
    by (intro on_responses_rung tallied_emit Cons.prems)
  then show ?case using Cons.IH[of f] Cons.IH[of "fw_do (AuthChallenge ''401'') f"]
      Cons.IH[of "fw_do (AuthChallenge ''407'') f"] Cons.prems by auto
qed simp

lemma recordFailure_reports:
  assumes "recordFailure env cfg d err r f = (r', f')" "tallied d es f" "so_StatusCallback (dc_opts d) \<noteq> ''''" "length es < 4"
  shows "reported d (es @ [dialTerminalEventName (r_Status r')]) f'"
  using assms(1) by (auto simp: recordFailure_def Let_def intro!: tallied_release tallied_emit assms(2-4))

lemma fail_dial_reports:
  assumes "fail_dial env cfg d err r f = Some ((r', e'), f')" "tallied d es f" "so_StatusCallback (dc_opts d) \<noteq> ''''" "length es < 4"
  shows "reported d (es @ [dialTerminalEventName (r_Status r')]) f' \<and> e' \<noteq> None"
proof -
  obtain r1 f1 where r: "recordFailure env cfg d err r f = (r1, f1)" by fastforce
  then show ?thesis using recordFailure_reports[OF r assms(2-4)] assms(1) by (auto simp: fail_dial_def)
qed

lemma dial_answered_reports:
  assumes "dial_answered env cfg d w l body r f = Some ((r', e'), f')" "tallied d es f"
    "so_StatusCallback (dc_opts d) \<noteq> ''''" "length es < 3"
  shows "reported d (es @ (if e' = None then [''answered''] else []) @ [dialTerminalEventName (r_Status r')]) f'"
proof -
  have rec: "reported d (es @ [dialTerminalEventName (r_Status r1)]) f1"
    if "recordFailure env cfg d err q h = (r1, f1)" "tallied d es h" for err q h r1 f1
    using recordFailure_reports[OF that assms(3)] assms(4) by simp
  have st: "dialTerminalEventName st = ''completed''" if "awaitDialogEnd opt b es' = Some (st, byed)" for opt b es' st byed
    using awaitDialogEnd_status[OF that] by (auto simp: dialTerminalEventName_def)
  have ok: "reported d (es @ [''answered'', ''completed''])
      (ReleaseLegSequence (dc_dialCallSid d) (emitDialEvent env cfg d ''completed'' ''completed'' h))"
    if "tallied d (es @ [''answered'']) h" for h
    using tallied_release[OF tallied_emit[OF that assms(3)]] assms(4) by simp
  show ?thesis
    using assms(1) unfolding dial_answered_def Let_def
    by (auto split: option.splits prod.splits if_splits dest!: rec st intro!: ok tallied_emit assms(3)
        simp: assms(2)) (use assms(4) in auto)
qed


section \<open>Concrete dials\<close>

definition demo_fenv :: fwd_env where
  "demo_fenv = \<lparr> fe_callback = demo_env, fe_sdp = demo_lib, fe_time = (\<lambda>ev. ''Mon'') \<rparr>"

definition demo_fcfg :: fwd_cfg where
  "demo_fcfg = \<lparr> fc_SIPDomain = ''sip.example.net'', fc_SIPUser = ''e1'', fc_SIPOutboundTargetPort = 5060,
     fc_DialDefaultCallerID = '''', fc_DialCallerIDCountryCode = ''49'', fc_DialRingTimeoutS = 30, fc_accountSid = ''AC1'' \<rparr>"

definition demo_ctx :: dial_ctx where
  "demo_ctx = \<lparr> dc_callerSid = ''CA1'', dc_target = ''+49301'', dc_opts =
     \<lparr> so_CallerID = '''', so_Timeout = 0, so_TimeLimit = 60, so_HangupOnStar = True, so_DTMF = False, so_CallerFrom = ''03021'',
       so_StatusCallback = ''https://example.com/cb'', so_StatusCallbackMethod = '''',
       so_StatusCallbackEvents = [''initiated'', ''answered'', ''completed''] \<rparr>,
     dc_dialCallSid = ''CA2'' \<rparr>"

definition demo_fwd :: fwd where
  "demo_fwd = \<lparr> fw_guard = NewGuardrails [''+49''] 3 10, fw_legSeqs = Map.empty, fw_statusWC = Some (rs_client (sc_init ''tok'')),
     fw_session = SetLeg 1 (Some (NewCalleeLeg 10000 ''10.0.0.1''))
        (new_session ''id'' ''CA1'' ''AC1'' ''a'' ''b'' 0 True demo_leg)\<lparr> s_state := StateDialingOut \<rparr>, fw_log = [] \<rparr>"

definition demo_busy :: dial_world where
  "demo_busy = \<lparr> dw_responses = [100, 180, 180], dw_end = ErrorResponse 486 ''Busy Here'', dw_hasClient = True, dw_ack_ok = True, dw_listen_ok = True,
     dw_events = [], dw_talk = 0 \<rparr>"

definition demo_talk :: dial_world where
  "demo_talk = \<lparr> dw_responses = [401, 183], dw_end = Accepted (Some (200, ''OK'', ''192.0.2.9'')), dw_hasClient = True,
     dw_ack_ok = True,
     dw_listen_ok = True, dw_events = [Digit (CHR ''*''), LimitPassed], dw_talk = 60 \<rparr>"

text \<open>A busy callee, and an answered call that the time limit ends: the star digit
  does not, because no digit channel is wired.\<close>

lemma demo_busy_run:
  "map_option (\<lambda>((r, e), f). (r_Status r, e \<noteq> None)) (Dial demo_fenv demo_fcfg 100 demo_ctx demo_busy demo_fwd) = Some (''busy'', True)"
  by code_simp

lemma demo_talk_run:
  "map_option (\<lambda>((r, e), f). (r_Status r, e \<noteq> None, Ack \<in> set (core f)))
     (Dial demo_fenv demo_fcfg 100 demo_ctx demo_talk demo_fwd) = Some (''answered'', False, True)"
  by code_simp

lemma demo_allowed: "fst (CheckDial 100 (fw_guard demo_fwd) (dc_callerSid demo_ctx) (dc_target demo_ctx)) = None"
  by code_simp

lemma demo_fwd_fresh:
  "core demo_fwd = []" "fw_log demo_fwd = []" "fw_statusWC demo_fwd \<noteq> None" "fw_legSeqs demo_fwd (dc_dialCallSid demo_ctx) = None"
  "so_StatusCallback (dc_opts demo_ctx) \<noteq> ''''"
  by (simp_all add: core_def demo_fwd_def demo_ctx_def)


theorem Dial_dialog_safety_witness:
  "\<exists>r e f'. Dial demo_fenv demo_fcfg 100 demo_ctx demo_talk demo_fwd = Some ((r, e), f') \<and>
    length (filter is_invite (core f')) \<le> 1 \<and> Bye \<in> set (core f') \<and> last (core f') = DialogClosed"
proof -
  from demo_talk_run obtain r e f' where D: "Dial demo_fenv demo_fcfg 100 demo_ctx demo_talk demo_fwd = Some ((r, e), f')"
    "Ack \<in> set (core f')" by auto
  with Dial_dialog_safety[OF D(1) demo_fwd_fresh(1)] show ?thesis by (auto simp: demo_talk_def)
qed

theorem Dial_returns_witness:
  "\<exists>r e f'. Dial demo_fenv demo_fcfg 100 demo_ctx demo_talk demo_fwd = Some ((r, e), f')"
  by (rule Dial_returns) (simp add: demo_talk_def demo_ctx_def)


text \<open>Without a digit channel \<^verbatim>\<open>hangupOnStar\<close> has no effect.\<close>

lemma no_hangup_star:
  assumes "\<not> so_DTMF (dc_opts d)" "awaitDialogEnd (dc_opts d) (so_HangupOnStar (dc_opts d) \<and> so_DTMF (dc_opts d)) es = Some (st, b)"
  shows "st = ''answered''"
  using awaitDialogEnd_status[OF assms(2)] assms(1) by auto

end
