(* ===== verification/Sip_Handler.thy ===== *)
theory Sip_Handler
  imports Call_Manager Webhook_Client Forwarder
begin

text \<open>
  The inbound side of the SIP stack, \<^verbatim>\<open>sip/handler.go\<close>: the whole of \<^verbatim>\<open>onInvite\<close> with
  every refusal, the lifecycle callbacks of the parent leg, the routing of a
  BYE; with the lookup of subscriptions and the shut-down sequence of
  \<^verbatim>\<open>cmd/sipgate-sip-stream-bridge/main.go\<close>.  Whether \<^verbatim>\<open>ReadInvite\<close> and \<^verbatim>\<open>RespondSDP\<close>
  of the SIP library succeed, the clock, the random bytes and the answer of the
  voice webhook are arguments.
\<close>

section \<open>State\<close>

record status_subscription =
  su_URL :: string
  su_Method :: string
  su_Events :: "string set"
  su_Trusted :: bool

text \<open>What the handler does to the outside: provisional and final responses, the
  200 with its SDP, an attempt to enqueue a callback with its outcome, and the
  goroutine that runs the session.\<close>

datatype handler_effect =
    Respond int
  | RespondSDP string
  | Emitted string url_values "enqueue_error option"
  | StartBridge session_ref leg string "string \<rightharpoonup> string"

record handler =
  h_manager :: call_manager
  h_statusWC :: "status_client option"
  h_accountSid :: string
  h_shutdown :: bool
  h_log :: "handler_effect list"

definition h_do :: "handler_effect \<Rightarrow> handler \<Rightarrow> handler" where
  "h_do e h = h\<lparr> h_log := h_log h @ [e] \<rparr>"

definition h_session :: "session_ref \<Rightarrow> (call_session \<Rightarrow> call_session) \<Rightarrow> handler \<Rightarrow> handler" where
  "h_session r f h = h\<lparr> h_manager := upd_session r f (h_manager h) \<rparr>"

definition SetShutdown :: "handler \<Rightarrow> handler" where
  "SetShutdown h = h\<lparr> h_shutdown := True \<rparr>"

section \<open>Lifecycle callbacks of the parent leg\<close>

text \<open>The closure of \<^verbatim>\<open>main.go\<close>: a live call with a subscription yields it with the next
  sequence number, which is consumed by the lookup.\<close>

definition statusLookup :: "string \<Rightarrow> call_manager \<Rightarrow> (status_subscription \<times> 64 word \<times> session_ref) option \<times> call_manager" where
  "statusLookup callSid m =
    (case sm_load (cm_callSidIdx m) callSid of
       None \<Rightarrow> (None, m)
     | Some r \<Rightarrow>
        (case s_statusCallback (cm_heap m ! r) of
           None \<Rightarrow> (None, m)
         | Some cfg \<Rightarrow>
            (let (seq, s') = NextSequenceNumber (cm_heap m ! r) in
             (Some (\<lparr> su_URL = scb_URL cfg, su_Method = scb_Method cfg, su_Events = scb_Events cfg,
                      su_Trusted = scb_Trusted cfg \<rparr>, seq, r),
              upd_session r (\<lambda>_. s') m))))"

text \<open>The environment: the status client's, the SDP library, the XML decoder, and
  the formatted time at which an event is emitted.\<close>

record handler_env =
  he_callback :: callback_env
  he_session :: session_env
  he_sdp :: sdp_lib
  he_xml :: "string \<Rightarrow> xml_tok list \<times> xml_end"
  he_time :: "string \<Rightarrow> string"

record invite =
  iv_callID :: string
  iv_from :: string
  iv_to :: string
  iv_body :: string

definition status_form :: "handler_env \<Rightarrow> string \<Rightarrow> string \<Rightarrow> invite \<Rightarrow> string \<Rightarrow> string \<Rightarrow> 64 word \<Rightarrow> url_values" where
  "status_form env callSid acc req eventName callStatus seq =
    [(''CallSid'', [callSid]), (''AccountSid'', [acc]), (''From'', [iv_from req]), (''To'', [iv_to req]),
     (''Caller'', [iv_from req]), (''Called'', [iv_to req]), (''Direction'', [''inbound'']),
     (''ApiVersion'', [''2010-04-01'']), (''CallStatus'', [callStatus]), (''Timestamp'', [he_time env eventName]),
     (''SequenceNumber'', [nat_digits (unat seq)]), (''CallbackSource'', [''call-progress-events''])]"

definition emitStatusEvent :: "handler_env \<Rightarrow> string \<Rightarrow> invite \<Rightarrow> string \<Rightarrow> string \<Rightarrow> handler \<Rightarrow> handler" where
  "emitStatusEvent env callSid req eventName callStatus h =
    (case h_statusWC h of
       None \<Rightarrow> h
     | Some c \<Rightarrow>
        (case statusLookup callSid (h_manager h) of
           (None, m) \<Rightarrow> h\<lparr> h_manager := m \<rparr>
         | (Some (sub, seq, r), m) \<Rightarrow>
            (let h1 = h\<lparr> h_manager := m \<rparr> in
             if \<not> SubscriptionMatches (su_Events sub) eventName then h1
             else
               let form = status_form env callSid (h_accountSid h) req eventName callStatus seq;
                   evt = \<lparr> cb_url = su_URL sub, cb_method = (if su_Method sub = '''' then ''POST'' else su_Method sub),
                           cb_form = form, cb_event = eventName, cb_trusted = su_Trusted sub \<rparr>;
                   (err, c') = Enqueue (he_callback env) c callSid evt;
                   h2 = h_do (Emitted eventName form err) (h1\<lparr> h_statusWC := Some c' \<rparr>)
               in if err = None then h_session r (\<lambda>s. snd (MarkEmitted s)) h2 else h2)))"

definition emitInitiated :: "handler_env \<Rightarrow> string \<Rightarrow> invite \<Rightarrow> handler \<Rightarrow> handler" where
  "emitInitiated env callSid req h = emitStatusEvent env callSid req ''initiated'' ''queued'' h"

definition emitRinging :: "handler_env \<Rightarrow> string \<Rightarrow> invite \<Rightarrow> handler \<Rightarrow> handler" where
  "emitRinging env callSid req h = emitStatusEvent env callSid req ''ringing'' ''ringing'' h"

definition emitAnswered :: "handler_env \<Rightarrow> string \<Rightarrow> invite \<Rightarrow> handler \<Rightarrow> handler" where
  "emitAnswered env callSid req h = emitStatusEvent env callSid req ''answered'' ''in-progress'' h"

section \<open>Inbound calls\<close>

text \<open>The configuration read here; \<open>hc_voice\<close> is the voice webhook when one is
  configured, as \<^const>\<open>VoiceFetch\<close> answers it.\<close>

record handler_cfg =
  hc_WSTargetURL :: string
  hc_SDPContactIP :: string
  hc_AudioMode :: string
  hc_SRTPEnabled :: bool
  hc_voice :: "(voice_params \<Rightarrow> fetch_error + byte list \<times> string) option"

text \<open>What one INVITE meets: the random bytes of its CallSid, its arrival time, the
  outcome of \<^verbatim>\<open>ReadInvite\<close>, the random SRTP keys, the outcome of \<^verbatim>\<open>RespondSDP\<close>, and
  the time at which it is answered or given up.\<close>

record invite_world =
  iw_random :: "byte list"
  iw_start :: int
  iw_readInvite_ok :: bool
  iw_key :: "byte list option"
  iw_salt :: "byte list option"
  iw_respond_ok :: bool
  iw_end :: int

text \<open>A refusal: the final code on the session, the port given back, the response,
  and the deferred cleanup.\<close>

definition refuse :: "handler_env \<Rightarrow> int \<Rightarrow> session_ref \<Rightarrow> int \<Rightarrow> int option \<Rightarrow> bool \<Rightarrow> handler \<Rightarrow> handler" where
  "refuse env now r code port respond h =
    (let h1 = h_session r (SetSIPFinalCode code) h;
         h2 = (case port of None \<Rightarrow> h1 | Some p \<Rightarrow> h1\<lparr> h_manager := ReleasePort p (h_manager h1) \<rparr>);
         h3 = (if respond then h_do (Respond code) h2 else h2)
     in h3\<lparr> h_manager := cleanup (he_session env) now r (h_manager h3) \<rparr>)"

text \<open>The stream to connect to: the static URL, or the first stream of the TwiML
  the voice webhook returns.\<close>

definition resolve_stream :: "handler_env \<Rightarrow> handler_cfg \<Rightarrow> voice_params \<Rightarrow> (string \<times> (string \<rightharpoonup> string)) option" where
  "resolve_stream env cfg params =
    (case hc_voice cfg of
       None \<Rightarrow> Some (hc_WSTargetURL cfg, Map.empty)
     | Some fetch \<Rightarrow>
        (case fetch params of
           Inl e \<Rightarrow> None
         | Inr (body, used) \<Rightarrow>
            (case Parse (he_xml env) (string_of body) of
               Inl e \<Rightarrow> None
             | Inr verbs \<Rightarrow> ExtractStreamURL verbs)))"

definition answer_invite :: "handler_env \<Rightarrow> handler_cfg \<Rightarrow> invite_world \<Rightarrow> invite \<Rightarrow> string \<Rightarrow> session_ref \<Rightarrow> caller_sdp \<Rightarrow> int \<Rightarrow>
    handler \<Rightarrow> handler" where
  "answer_invite env cfg w req callSid r caller port h =
    (let h1 = emitRinging env callSid req (h_do (Respond 180) (h_do (Respond 100) h));
         params = \<lparr> vp_CallSid = callSid, vp_AccountSid = cm_accountSid (h_manager h), vp_From = iv_from req, vp_To = iv_to req \<rparr>
     in case resolve_stream env cfg params of
          None \<Rightarrow> refuse env (iw_end w) r 503 (Some port) True h1
        | Some (streamURL, custom) \<Rightarrow>
           (let (sdp, pt, keys) = BuildSDPAnswer (he_sdp env) (iw_key w) (iw_salt w) (hc_SDPContactIP cfg) port caller
                  (hc_AudioMode cfg) (hc_SRTPEnabled cfg)
            in if \<not> iw_respond_ok w then refuse env (iw_end w) r 503 (Some port) False h1
               else
                 let h2 = h_session r (\<lambda>s. SetAnsweredAt (iw_end w) (SetSIPFinalCode 200 s)) (h_do (RespondSDP sdp) h1);
                     h3 = emitAnswered env callSid req h2;
                     lg = inbound_leg port (RTPAddr caller, RTPPort caller) (DTMFPayloadType caller) pt
                            (SilenceFrameForPT pt) (MediaFormatForPT pt)
                 in h_do (StartBridge r lg streamURL custom) h3))"

definition onInvite :: "handler_env \<Rightarrow> handler_cfg \<Rightarrow> invite_world \<Rightarrow> invite \<Rightarrow> handler \<Rightarrow> handler" where
  "onInvite env cfg w req h =
    (let callSid = NewCallSid (iw_random w);
         (r, m) = PreRegisterSession callSid (iv_callID req) (cm_accountSid (h_manager h)) (iv_from req) (iv_to req)
                    (iw_start w) (h_manager h);
         h1 = emitInitiated env callSid req (h\<lparr> h_manager := m \<rparr>)
     in if h_shutdown h1 then refuse env (iw_end w) r 503 None True h1
        else if \<not> iw_readInvite_ok w then refuse env (iw_end w) r 500 None True h1
        else case ParseCallerSDP (he_sdp env) (iv_body req) of
          Inl e \<Rightarrow> refuse env (iw_end w) r 503 None True h1
        | Inr caller \<Rightarrow>
           (case AcquirePort (h_manager h1) of
              (Inl e, m1) \<Rightarrow> refuse env (iw_end w) r 503 None True (h1\<lparr> h_manager := m1 \<rparr>)
            | (Inr port, m1) \<Rightarrow> answer_invite env cfg w req callSid r caller port (h1\<lparr> h_manager := m1 \<rparr>)))"

section \<open>BYE\<close>

text \<open>What \<^verbatim>\<open>ReadBye\<close> of one dialog cache reports.  The result says which cache took
  the BYE, or why none did.\<close>

datatype read_bye = ByeRead | ByeNoDialog | ByeFailed string

datatype bye_result = ByeTakenBy nat | ByeError nat string | ByeUnmatched

fun route_bye :: "nat \<Rightarrow> read_bye list \<Rightarrow> bye_result" where
  "route_bye n [] = ByeUnmatched"
| "route_bye n (b # bs) =
    (case b of ByeRead \<Rightarrow> ByeTakenBy n | ByeFailed e \<Rightarrow> ByeError n e | ByeNoDialog \<Rightarrow> route_bye (Suc n) bs)"

definition onBye :: "read_bye \<Rightarrow> read_bye list \<Rightarrow> bye_result" where
  "onBye server extra = route_bye 0 (server # extra)"

text \<open>CANCEL retransmissions and OPTIONS probes.\<close>

definition onCancel :: "handler \<Rightarrow> handler" where
  "onCancel h = h_do (Respond 200) h"

definition onOptions :: "handler \<Rightarrow> handler" where
  "onOptions h = h_do (Respond 200) h"

section \<open>What the steps keep\<close>

fun response_code :: "handler_effect \<Rightarrow> int option" where
  "response_code (Respond c) = Some c"
| "response_code (RespondSDP b) = Some 200"
| "response_code _ = None"

definition responses :: "handler \<Rightarrow> int list" where
  "responses h = List.map_filter response_code (h_log h)"

fun bridge_of :: "handler_effect \<Rightarrow> (session_ref \<times> leg) option" where
  "bridge_of (StartBridge r lg url custom) = Some (r, lg)"
| "bridge_of _ = None"

definition bridges :: "handler \<Rightarrow> (session_ref \<times> leg) list" where
  "bridges h = List.map_filter bridge_of (h_log h)"

definition announced :: "handler \<Rightarrow> bool" where
  "announced h \<longleftrightarrow> (\<exists>ev form. Emitted ev form None \<in> set (h_log h))"

fun is_accepted :: "handler_effect \<Rightarrow> bool" where
  "is_accepted (Emitted ev form None) = True"
| "is_accepted _ = False"

lemma is_accepted_iff: "is_accepted e \<longleftrightarrow> (\<exists>ev form. e = Emitted ev form None)"
  by (cases e rule: is_accepted.cases) auto

lemma announced_iff: "announced h \<longleftrightarrow> list_ex is_accepted (h_log h)"
  by (auto simp: announced_def list_ex_iff is_accepted_iff)

lemma map_filter_snoc [simp]:
  "List.map_filter f (xs @ [x]) = List.map_filter f xs @ (case f x of None \<Rightarrow> [] | Some y \<Rightarrow> [y])"
  by (simp add: List.map_filter_def split: option.split)

lemma h_do_simps [simp]:
  "h_manager (h_do e h) = h_manager h" "h_statusWC (h_do e h) = h_statusWC h" "h_shutdown (h_do e h) = h_shutdown h"
  "responses (h_do e h) = responses h @ (case response_code e of None \<Rightarrow> [] | Some c \<Rightarrow> [c])"
  "bridges (h_do e h) = bridges h @ (case bridge_of e of None \<Rightarrow> [] | Some b \<Rightarrow> [b])"
  by (simp_all add: h_do_def responses_def bridges_def)

lemma announced_do [simp]: "announced (h_do e h) \<longleftrightarrow> announced h \<or> (\<exists>ev form. e = Emitted ev form None)"
  by (auto simp: announced_def h_do_def)

lemma h_frames [simp]:
  "responses (h\<lparr> h_manager := m \<rparr>) = responses h" "bridges (h\<lparr> h_manager := m \<rparr>) = bridges h"
  "announced (h\<lparr> h_manager := m \<rparr>) = announced h" "responses (h_session r f h) = responses h"
  "bridges (h_session r f h) = bridges h" "announced (h_session r f h) = announced h"
  "responses (h\<lparr> h_statusWC := c \<rparr>) = responses h" "bridges (h\<lparr> h_statusWC := c \<rparr>) = bridges h"
  "announced (h\<lparr> h_statusWC := c \<rparr>) = announced h" "h_shutdown (h_session r f h) = h_shutdown h"
  "h_statusWC (h_session r f h) = h_statusWC h"
  by (simp_all add: responses_def bridges_def announced_def h_session_def)

text \<open>The registry maps of a handler, and the session under set-up: not ended, no
  callback of its own yet, and marked exactly if the customer has been told
  about it.\<close>

definition maps_of :: "handler \<Rightarrow> (string \<times> nat) list \<times> (string \<times> nat) list \<times> (string \<times> terminated_call) list \<times> port_pool \<times> int \<times> nat list \<times> nat" where
  "maps_of h = (let m = h_manager h in
     (cm_sessions m, cm_callSidIdx m, cm_recentlyTerminated m, cm_portPool m, cm_activeCalls m, cm_cleaned m, length (cm_heap m)))"

definition setting_up :: "call_session \<Rightarrow> session_ref \<Rightarrow> handler \<Rightarrow> bool" where
  "setting_up s0 r h \<longleftrightarrow> (let s = cm_heap (h_manager h) ! r in
     ident s = ident s0 \<and> s_statusCallback s = s_statusCallback s0 \<and> s_hasStatusWC s = s_hasStatusWC s0 \<and>
     s_terminal s = None \<and> \<not> s_terminateOnce s \<and> s_log s = [] \<and> (s_everEmitted s \<longleftrightarrow> announced h) \<and>
     r < length (cm_heap (h_manager h)) \<and> sm_load (cm_callSidIdx (h_manager h)) (s_callSid s0) = Some r)"

lemma upd_session_simps [simp]:
  "cm_sessions (upd_session r f m) = cm_sessions m" "cm_callSidIdx (upd_session r f m) = cm_callSidIdx m"
  "cm_recentlyTerminated (upd_session r f m) = cm_recentlyTerminated m" "cm_portPool (upd_session r f m) = cm_portPool m"
  "cm_activeCalls (upd_session r f m) = cm_activeCalls m" "cm_cleaned (upd_session r f m) = cm_cleaned m"
  "length (cm_heap (upd_session r f m)) = length (cm_heap m)"
  "r < length (cm_heap m) \<Longrightarrow> cm_heap (upd_session r f m) ! r = f (cm_heap m ! r)"
  by (simp_all add: upd_session_def)

lemma maps_of_steps [simp]:
  "maps_of (h_do e h) = maps_of h" "maps_of (h_session r f h) = maps_of h" "maps_of (h\<lparr> h_statusWC := c \<rparr>) = maps_of h"
  "maps_of (h\<lparr> h_manager := upd_session r f m \<rparr>) = maps_of (h\<lparr> h_manager := m \<rparr>)"
  by (simp_all add: maps_of_def h_session_def Let_def)

lemma maps_of_emit [simp]: "maps_of (emitStatusEvent env callSid req ev cs h) = maps_of h"
  by (auto simp: emitStatusEvent_def statusLookup_def Let_def split: option.split prod.split)

lemma emit_frames [simp]:
  "h_shutdown (emitStatusEvent env callSid req ev cs h) = h_shutdown h"
  "responses (emitStatusEvent env callSid req ev cs h) = responses h"
  "bridges (emitStatusEvent env callSid req ev cs h) = bridges h"
  by (auto simp: emitStatusEvent_def statusLookup_def Let_def split: option.split prod.split)

lemma setting_up_do [simp]: "\<forall>ev form. e \<noteq> Emitted ev form None \<Longrightarrow> setting_up s0 r (h_do e h) = setting_up s0 r h"
  by (simp add: setting_up_def)

lemma setting_up_code: "setting_up s0 r h \<Longrightarrow> setting_up s0 r (h_session r (SetSIPFinalCode c) h)"
  by (simp add: setting_up_def h_session_def SetSIPFinalCode_def ident_def Let_def)

lemma setting_up_answered: "setting_up s0 r h \<Longrightarrow> setting_up s0 r (h_session r (\<lambda>s. SetAnsweredAt t (SetSIPFinalCode c s)) h)"
  by (auto simp: setting_up_def h_session_def SetSIPFinalCode_def SetAnsweredAt_def ident_def Let_def split: option.split)

lemma setting_up_emit:
  assumes "setting_up s0 r h"
  shows "setting_up s0 r (emitStatusEvent env (s_callSid s0) req ev cs h)"
proof -
  have r: "sm_load (cm_callSidIdx (h_manager h)) (s_callSid s0) = Some r" "r < length (cm_heap (h_manager h))"
    using assms by (simp_all add: setting_up_def Let_def)
  then show ?thesis
    using assms
    by (auto simp: emitStatusEvent_def statusLookup_def setting_up_def Let_def NextSequenceNumber_def MarkEmitted_def ident_def
        h_session_def split: option.split prod.split)
qed

section \<open>A refused call leaves no trace\<close>

text \<open>Whether the session has handed its terminal callback to the status client.\<close>

definition told_ended :: "call_session \<Rightarrow> bool" where
  "told_ended s \<longleftrightarrow> (\<exists>sid evt. EnqueueCallback sid evt \<in> set (s_log s))"

definition wants_failed :: "call_session \<Rightarrow> bool" where
  "wants_failed s \<longleftrightarrow> s_hasStatusWC s \<and> (\<exists>cfg. s_statusCallback s = Some cfg \<and> SubscriptionMatches (scb_Events cfg) ''failed'')"

lemma markTerminated_told:
  "s_log s = [] \<Longrightarrow> \<not> s_terminateOnce s \<Longrightarrow> told_ended (markTerminated f now ''failed'' s) \<longleftrightarrow> wants_failed s"
  by (auto simp: resolve_matches[symmetric] markTerminated_def emitTerminalStatusCallback_def told_ended_def wants_failed_def Let_def
      twilioStatusFromTermReason_def NextSequenceNumber_def MarkEmitted_def session_do_def split: option.split prod.splits)

lemma td_heap: "cm_heap (td_unindex r (td_unlist r m)) = cm_heap m"
  by simp

lemma refuse_log [simp]:
  "responses (refuse env now r code port respond h) = responses h @ (if respond then [code] else [])"
  "bridges (refuse env now r code port respond h) = bridges h"
  "announced (refuse env now r code port respond h) = announced h"
  by (auto simp: refuse_def Let_def split: option.split)

lemma refuse_effect:
  assumes "setting_up s0 r h" "r \<notin> set (cm_cleaned (h_manager h))"
    and "m' = h_manager (refuse env now r code port respond h)"
  shows "cm_sessions m' = sm_delete (s_callID s0) (cm_sessions (h_manager h))"
    "cm_callSidIdx m' = sm_delete (s_callSid s0) (cm_callSidIdx (h_manager h))"
    "cm_activeCalls m' = cm_activeCalls (h_manager h) - 1"
    "cm_portPool m' = (case port of None \<Rightarrow> cm_portPool (h_manager h) | Some p \<Rightarrow> Release (cm_portPool (h_manager h)) p)"
    "\<not> announced h \<Longrightarrow> cm_recentlyTerminated m' = cm_recentlyTerminated (h_manager h)"
    "announced h \<Longrightarrow> \<exists>t. sm_load (cm_recentlyTerminated m') (s_callSid s0) = Some t \<and> tc_status t = ''failed'' \<and> tc_endTime t = Some now"
    "told_ended (cm_heap m' ! r) \<longleftrightarrow> announced h \<and> wants_failed s0"
proof -
  define h1 where "h1 = h_session r (SetSIPFinalCode code) h"
  define h3 where "h3 = (if respond then h_do (Respond code) else id)
      (case port of None \<Rightarrow> h1 | Some p \<Rightarrow> h1\<lparr> h_manager := ReleasePort p (h_manager h1) \<rparr>)"
  have m': "m' = cleanup (he_session env) now r (h_manager h3)"
    by (auto simp: assms(3) refuse_def h3_def h1_def Let_def split: option.split)
  have up: "setting_up s0 r h1" unfolding h1_def by (rule setting_up_code[OF assms(1)])
  have heap3: "cm_heap (h_manager h3) = cm_heap (h_manager h1)" and maps3: "cm_sessions (h_manager h3) = cm_sessions (h_manager h)"
    "cm_callSidIdx (h_manager h3) = cm_callSidIdx (h_manager h)" "cm_activeCalls (h_manager h3) = cm_activeCalls (h_manager h)"
    "cm_cleaned (h_manager h3) = cm_cleaned (h_manager h)"
    "cm_recentlyTerminated (h_manager h3) = cm_recentlyTerminated (h_manager h)"
    "cm_portPool (h_manager h3) = (case port of None \<Rightarrow> cm_portPool (h_manager h) | Some p \<Rightarrow> Release (cm_portPool (h_manager h)) p)"
    by (auto simp: h3_def h1_def ReleasePort_def h_session_def split: option.split)
  define s where "s = cm_heap (h_manager h3) ! r"
  have s: "s_callSid s = s_callSid s0" "s_callID s = s_callID s0" "s_statusCallback s = s_statusCallback s0"
    "s_hasStatusWC s = s_hasStatusWC s0" "EndTime s = None" "s_terminal s = None" "\<not> s_terminateOnce s" "s_log s = []"
    "s_everEmitted s \<longleftrightarrow> announced h" and r: "r < length (cm_heap (h_manager h3))"
    using up by (simp_all add: setting_up_def s_def heap3 Let_def ident_def EndTime_def h1_def)
  let ?s' = "markTerminated (se_rfc1123z (he_session env)) now ''failed'' s"
  have s': "s_callSid ?s' = s_callSid s0" "s_callID ?s' = s_callID s0" "EndTime ?s' = Some now" "Status ?s' = ''failed''"
    "told_ended ?s' \<longleftrightarrow> wants_failed s0"
    using markTerminated_keeps[of s "se_rfc1123z (he_session env)" now "''failed''"] s
      markTerminated_told[of s "se_rfc1123z (he_session env)" now]
    by (auto simp: keeps_def ident_def EndTime_def Status_def markTerminated_terminal twilioStatusFromTermReason_def wants_failed_def)
  have "\<not> told_ended s" by (simp add: told_ended_def s)
  with assms(2) s s' r show "cm_sessions m' = sm_delete (s_callID s0) (cm_sessions (h_manager h))"
    "cm_callSidIdx m' = sm_delete (s_callSid s0) (cm_callSidIdx (h_manager h))"
    "cm_activeCalls m' = cm_activeCalls (h_manager h) - 1"
    "cm_portPool m' = (case port of None \<Rightarrow> cm_portPool (h_manager h) | Some p \<Rightarrow> Release (cm_portPool (h_manager h)) p)"
    "\<not> announced h \<Longrightarrow> cm_recentlyTerminated m' = cm_recentlyTerminated (h_manager h)"
    "announced h \<Longrightarrow> \<exists>t. sm_load (cm_recentlyTerminated m') (s_callSid s0) = Some t \<and> tc_status t = ''failed'' \<and> tc_endTime t = Some now"
    "told_ended (cm_heap m' ! r) \<longleftrightarrow> announced h \<and> wants_failed s0"
    unfolding m' cleanup_def Let_def
    by (auto simp: maps3 s_def[symmetric] td_stamp_def td_unindex_def td_unlist_def td_snapshot_def snapshot_def upd_session_def)
qed

section \<open>The whole INVITE\<close>

lemma AcquirePort_simps:
  "AcquirePort m = (Inl e, m') \<Longrightarrow> m' = m"
  "AcquirePort m = (Inr port, m') \<Longrightarrow> \<exists>ps. free_ports (cm_portPool m) = port # ps \<and>
    m' = m\<lparr> cm_portPool := (cm_portPool m)\<lparr> pp_ports := (pp_ports (cm_portPool m))\<lparr> chan_buf := ps \<rparr> \<rparr> \<rparr>"
  by (auto simp: AcquirePort_def Acquire_def chan_recv_def free_ports_def Let_def split: option.splits list.splits)

definition registered :: "invite_world \<Rightarrow> invite \<Rightarrow> handler \<Rightarrow> handler" where
  "registered w req h = h\<lparr> h_manager := snd (PreRegisterSession (NewCallSid (iw_random w)) (iv_callID req)
     (cm_accountSid (h_manager h)) (iv_from req) (iv_to req) (iw_start w) (h_manager h)) \<rparr>"

definition shell_of :: "invite_world \<Rightarrow> invite \<Rightarrow> handler \<Rightarrow> call_session" where
  "shell_of w req h = session_shell (h_manager h) (NewCallSid (iw_random w)) (iv_callID req) (cm_accountSid (h_manager h))
     (iv_from req) (iv_to req) (iw_start w)"

abbreviation ref_of :: "handler \<Rightarrow> session_ref" where
  "ref_of h \<equiv> length (cm_heap (h_manager h))"

lemma shell_of_simps [simp]:
  "s_callSid (shell_of w req h) = NewCallSid (iw_random w)" "s_callID (shell_of w req h) = iv_callID req"
  "s_hasStatusWC (shell_of w req h) = cm_hasStatusWC (h_manager h)"
  by (simp_all add: shell_of_def session_shell_def)

lemma setting_up_registered: "\<not> announced h \<Longrightarrow> setting_up (shell_of w req h) (ref_of h) (registered w req h)"
  by (simp add: setting_up_def registered_def PreRegisterSession_def shell_of_def session_shell_def Let_def)

lemma onInvite_cases:
  fixes env cfg w req h
  defines "h1 \<equiv> emitInitiated env (NewCallSid (iw_random w)) req (registered w req h)"
  obtains (refused) code where "onInvite env cfg w req h = refuse env (iw_end w) (ref_of h) code None True h1" "code = 503 \<or> code = 500"
  | (port) caller port m1 where "AcquirePort (h_manager h1) = (Inr port, m1)" "\<not> h_shutdown h" "iw_readInvite_ok w"
      "ParseCallerSDP (he_sdp env) (iv_body req) = Inr caller"
      "onInvite env cfg w req h = answer_invite env cfg w req (NewCallSid (iw_random w)) (ref_of h) caller port (h1\<lparr> h_manager := m1 \<rparr>)"
proof -
  have pre: "PreRegisterSession (NewCallSid (iw_random w)) (iv_callID req) (cm_accountSid (h_manager h)) (iv_from req) (iv_to req)
      (iw_start w) (h_manager h) = (ref_of h, h_manager (registered w req h))"
    by (simp add: registered_def PreRegisterSession_def Let_def)
  have h1: "h1 = emitInitiated env (NewCallSid (iw_random w)) req (h\<lparr> h_manager := h_manager (registered w req h) \<rparr>)"
    by (simp add: h1_def registered_def)
  have sh: "h_shutdown h1 = h_shutdown h" by (simp add: h1_def emitInitiated_def registered_def)
  obtain x m1 where acq: "AcquirePort (h_manager h1) = (x, m1)" by fastforce
  show thesis
  proof (cases "h_shutdown h \<or> \<not> iw_readInvite_ok w")
    case True
    then show thesis
      using refused[of 503] refused[of 500] sh
      by (cases "h_shutdown h") (auto simp: onInvite_def pre h1[symmetric] Let_def)
  next
    case False
    then show thesis
      using refused[of 503] port acq AcquirePort_simps(1)[of "h_manager h1"] sh
      by (cases "ParseCallerSDP (he_sdp env) (iv_body req)"; cases x)
        (auto simp: onInvite_def pre h1[symmetric] Let_def)
  qed
qed

lemma answer_invite_cases:
  fixes env w req callSid h
  defines "h1 \<equiv> emitRinging env callSid req (h_do (Respond 180) (h_do (Respond 100) h))"
  obtains (refused) respond where "answer_invite env cfg w req callSid r caller port h =
      refuse env (iw_end w) r 503 (Some port) respond h1"
  | (answered) sdp lg url custom where "answer_invite env cfg w req callSid r caller port h =
      h_do (StartBridge r lg url custom) (emitAnswered env callSid req
        (h_session r (\<lambda>s. SetAnsweredAt (iw_end w) (SetSIPFinalCode 200 s)) (h_do (RespondSDP sdp) h1)))"
      "l_rtpPort lg = port" "l_hasDialog lg"
proof -
  define params where "params = \<lparr> vp_CallSid = callSid, vp_AccountSid = cm_accountSid (h_manager h), vp_From = iv_from req, vp_To = iv_to req \<rparr>"
  show thesis
  proof (cases "resolve_stream env cfg params")
    case None
    then show thesis using refused by (simp add: answer_invite_def Let_def h1_def params_def)
  next
    case (Some uc)
    obtain url custom where uc: "uc = (url, custom)" by fastforce
    obtain sdp pt keys where b: "BuildSDPAnswer (he_sdp env) (iw_key w) (iw_salt w) (hc_SDPContactIP cfg) port caller
        (hc_AudioMode cfg) (hc_SRTPEnabled cfg) = (sdp, pt, keys)" by (metis prod_cases3)
    show thesis
    proof (cases "iw_respond_ok w")
      case False
      then show thesis using refused Some uc b by (simp add: answer_invite_def Let_def h1_def params_def)
    next
      case True
      show thesis
        by (rule answered[of "inbound_leg port (RTPAddr caller, RTPPort caller) (DTMFPayloadType caller) pt
              (SilenceFrameForPT pt) (MediaFormatForPT pt)" url custom sdp])
          (use True Some uc b in \<open>simp_all add: answer_invite_def Let_def h1_def params_def inbound_leg_def\<close>)
    qed
  qed
qed

definition fresh :: "invite_world \<Rightarrow> invite \<Rightarrow> handler \<Rightarrow> bool" where
  "fresh w req h \<longleftrightarrow> sm_load (cm_callSidIdx (h_manager h)) (NewCallSid (iw_random w)) = None \<and>
    sm_load (cm_sessions (h_manager h)) (iv_callID req) = None \<and> ref_of h \<notin> set (cm_cleaned (h_manager h)) \<and> h_log h = []"

lemma freshD: "fresh w req h \<Longrightarrow> \<not> announced h \<and> responses h = [] \<and> bridges h = []"
  by (simp add: fresh_def announced_def responses_def bridges_def List.map_filter_def)

text \<open>The state after the registration and the initiated callback.\<close>

lemma after_initiated:
  assumes "fresh w req h"
  shows "setting_up (shell_of w req h) (ref_of h) (emitInitiated env (NewCallSid (iw_random w)) req (registered w req h))"
    "maps_of (emitInitiated env (NewCallSid (iw_random w)) req (registered w req h)) = maps_of (registered w req h)"
    "responses (emitInitiated env (NewCallSid (iw_random w)) req (registered w req h)) = []"
    "bridges (emitInitiated env (NewCallSid (iw_random w)) req (registered w req h)) = []"
proof -
  note f = freshD[OF assms]
  show "setting_up (shell_of w req h) (ref_of h) (emitInitiated env (NewCallSid (iw_random w)) req (registered w req h))"
    using setting_up_emit[OF setting_up_registered, of h w req env] f by (simp add: emitInitiated_def)
  show "maps_of (emitInitiated env (NewCallSid (iw_random w)) req (registered w req h)) = maps_of (registered w req h)"
    "responses (emitInitiated env (NewCallSid (iw_random w)) req (registered w req h)) = []"
    "bridges (emitInitiated env (NewCallSid (iw_random w)) req (registered w req h)) = []"
    using f by (simp_all add: emitInitiated_def registered_def)
qed

text \<open>A manager reached through steps that keep the maps, then refused, has the maps
  of the start.\<close>

definition same_registry :: "call_manager \<Rightarrow> call_manager \<Rightarrow> bool" where
  "same_registry m m' \<longleftrightarrow> (\<forall>k. sm_load (cm_callSidIdx m') k = sm_load (cm_callSidIdx m) k) \<and>
    (\<forall>k. sm_load (cm_sessions m') k = sm_load (cm_sessions m) k) \<and> cm_activeCalls m' = cm_activeCalls m"

lemma refuse_restores:
  assumes "fresh w req h" "setting_up (shell_of w req h) (ref_of h) h2"
    and "cm_sessions (h_manager h2) = cm_sessions (h_manager (registered w req h))"
    "cm_callSidIdx (h_manager h2) = cm_callSidIdx (h_manager (registered w req h))"
    "cm_activeCalls (h_manager h2) = cm_activeCalls (h_manager (registered w req h))"
    "cm_cleaned (h_manager h2) = cm_cleaned (h_manager h)"
  shows "same_registry (h_manager h) (h_manager (refuse env now (ref_of h) code port respond h2))"
proof -
  have "ref_of h \<notin> set (cm_cleaned (h_manager h2))" using assms(1,6) by (simp add: fresh_def)
  note R = refuse_effect[OF assms(2) this refl, of env now code port respond]
  show ?thesis
    using assms(1) R(1-3) by (auto simp: same_registry_def assms(3-5) registered_def PreRegisterSession_def Let_def fresh_def)
qed

text \<open>The two ways out of an INVITE, with what the registry and the pool hold at that
  moment.  \<open>free\<close> is what the pool still holds.\<close>

definition at_setup :: "invite_world \<Rightarrow> invite \<Rightarrow> handler \<Rightarrow> int list \<Rightarrow> handler \<Rightarrow> bool" where
  "at_setup w req h free h2 \<longleftrightarrow> setting_up (shell_of w req h) (ref_of h) h2 \<and>
    cm_sessions (h_manager h2) = cm_sessions (h_manager (registered w req h)) \<and>
    cm_callSidIdx (h_manager h2) = cm_callSidIdx (h_manager (registered w req h)) \<and>
    cm_activeCalls (h_manager h2) = cm_activeCalls (h_manager (registered w req h)) \<and>
    cm_cleaned (h_manager h2) = cm_cleaned (h_manager h) \<and>
    cm_recentlyTerminated (h_manager h2) = cm_recentlyTerminated (h_manager h) \<and>
    cm_portPool (h_manager h2) = (cm_portPool (h_manager h))\<lparr> pp_ports := (pp_ports (cm_portPool (h_manager h)))\<lparr> chan_buf := free \<rparr> \<rparr>"

lemma at_setup_do: "\<forall>ev form. e \<noteq> Emitted ev form None \<Longrightarrow> at_setup w req h free (h_do e h2) = at_setup w req h free h2"
  by (simp add: at_setup_def)

lemma at_setup_emit:
  "at_setup w req h free h2 \<Longrightarrow> at_setup w req h free (emitStatusEvent env (NewCallSid (iw_random w)) req ev cs h2)"
  using setting_up_emit[of "shell_of w req h" "ref_of h" h2 env req ev cs] maps_of_emit[of env "NewCallSid (iw_random w)" req ev cs h2]
  by (simp add: at_setup_def maps_of_def Let_def)

lemma at_setup_answered:
  "at_setup w req h free h2 \<Longrightarrow>
    at_setup w req h free (h_session (ref_of h) (\<lambda>s. SetAnsweredAt t (SetSIPFinalCode c s)) h2)"
  using setting_up_answered[of "shell_of w req h" "ref_of h" h2 t c] by (simp add: at_setup_def) (simp add: h_session_def)

lemma at_setup_start:
  assumes "fresh w req h"
  shows "at_setup w req h (free_ports (cm_portPool (h_manager h))) (emitInitiated env (NewCallSid (iw_random w)) req (registered w req h))"
  unfolding emitInitiated_def
  by (rule at_setup_emit)
    (use setting_up_registered[of h w req] freshD[OF assms] in
      \<open>simp add: at_setup_def registered_def PreRegisterSession_def free_ports_def Let_def\<close>)

lemma onInvite_result:
  assumes "fresh w req h"
  obtains (refused) code port respond free h2 where "onInvite env cfg w req h = refuse env (iw_end w) (ref_of h) code port respond h2"
      "at_setup w req h free h2" "bridges h2 = []"
      "responses h2 @ (if respond then [code] else []) \<in> {[503], [500], [100, 180, 503], [100, 180]}"
      "free_ports (cm_portPool (h_manager h)) = (case port of None \<Rightarrow> [] | Some p \<Rightarrow> [p]) @ free"
  | (answered) lg url custom free h2 where "onInvite env cfg w req h = h_do (StartBridge (ref_of h) lg url custom) h2"
      "at_setup w req h free h2" "bridges h2 = []" "responses h2 = [100, 180, 200]" "l_hasDialog lg"
      "free_ports (cm_portPool (h_manager h)) = l_rtpPort lg # free" "\<not> h_shutdown h"
proof (cases rule: onInvite_cases[of env cfg w req h])
  case (refused code)
  then show thesis
    using that(1)[OF refused(1) at_setup_start[OF assms]] freshD[OF assms]
    by (auto simp: emitInitiated_def registered_def)
next
  case (port caller port m1)
  define h1 where "h1 = emitInitiated env (NewCallSid (iw_random w)) req (registered w req h)"
  define h2 where "h2 = emitRinging env (NewCallSid (iw_random w)) req (h_do (Respond 180) (h_do (Respond 100) (h1\<lparr> h_manager := m1 \<rparr>)))"
  have s1: "at_setup w req h (free_ports (cm_portPool (h_manager h))) h1" unfolding h1_def by (rule at_setup_start[OF assms])
  then have pool1: "cm_portPool (h_manager h1) = cm_portPool (h_manager h)" by (simp add: at_setup_def free_ports_def)
  obtain free where free: "free_ports (cm_portPool (h_manager h)) = port # free"
    "m1 = (h_manager h1)\<lparr> cm_portPool := (cm_portPool (h_manager h))\<lparr> pp_ports := (pp_ports (cm_portPool (h_manager h)))\<lparr> chan_buf := free \<rparr> \<rparr> \<rparr>"
    using AcquirePort_simps(2)[OF port(1)[folded h1_def]] by (auto simp: pool1)
  have "at_setup w req h free (h1\<lparr> h_manager := m1 \<rparr>)"
    using s1 by (auto simp: at_setup_def setting_up_def free(2) Let_def)
  then have s2: "at_setup w req h free h2"
    unfolding h2_def emitRinging_def by (intro at_setup_emit) (simp add: at_setup_do)
  have logs: "bridges h2 = []" "responses h2 = [100, 180]"
    using freshD[OF assms] by (simp_all add: h2_def h1_def emitRinging_def emitInitiated_def registered_def)
  show thesis
  proof (cases rule: answer_invite_cases[of env cfg w req "NewCallSid (iw_random w)" "ref_of h" caller port "h1\<lparr> h_manager := m1 \<rparr>"])
    case (refused respond)
    show thesis
      by (rule that(1)[OF _ s2 logs(1)]) (use refused port(5) logs(2) free(1) in \<open>auto simp: h1_def h2_def\<close>)
  next
    case (answered sdp lg url custom)
    let ?h3 = "emitAnswered env (NewCallSid (iw_random w)) req
        (h_session (ref_of h) (\<lambda>s. SetAnsweredAt (iw_end w) (SetSIPFinalCode 200 s)) (h_do (RespondSDP sdp) h2))"
    have "at_setup w req h free ?h3"
      unfolding emitAnswered_def by (intro at_setup_emit at_setup_answered) (use s2 in \<open>simp add: at_setup_do\<close>)
    moreover have "onInvite env cfg w req h = h_do (StartBridge (ref_of h) lg url custom) ?h3"
      using answered(1) port(5) by (simp add: h1_def h2_def)
    ultimately show thesis
      using that(2) answered(2,3) free(1) logs port(2) by (simp add: emitAnswered_def)
  qed
qed


text \<open>The caller sees one of five exchanges: refused at once with 503 or 500, or 100
  and 180 followed by a 503, by nothing when the 200 could not be sent, or by
  the 200 with which alone the session is started; during shut-down every INVITE
  is refused with 503.\<close>

theorem onInvite_responses:
  assumes "fresh w req h" "h' = onInvite env cfg w req h"
  shows "responses h' \<in> {[503], [500], [100, 180, 503], [100, 180], [100, 180, 200]} \<and>
    (responses h' = [100, 180, 200] \<longleftrightarrow> bridges h' \<noteq> []) \<and>
    (h_shutdown h \<longrightarrow> responses h' = [503])"
proof -
  have shut: "responses h' = [503]" if "h_shutdown h"
    using that freshD[OF assms(1)]
    by (simp add: assms(2) onInvite_def PreRegisterSession_def emitInitiated_def Let_def)
  show ?thesis
    by (cases rule: onInvite_result[OF assms(1), of env cfg]) (use shut in \<open>auto simp: assms(2)\<close>)
qed


section \<open>Shut-down\<close>

text \<open>\<^verbatim>\<open>runShutdown\<close> of \<^verbatim>\<open>main.go\<close>: new INVITEs are refused before the HTTP server
  stops and the calls are drained, and the registration is given up last; a
  failing step does not stop the sequence.\<close>

datatype shutdown_step = HttpStopped bool | CallsDrained nat | Unregistered bool

definition runShutdown :: "session_env \<Rightarrow> int \<Rightarrow> bool \<Rightarrow> bool \<Rightarrow> handler \<Rightarrow> shutdown_step list \<times> handler" where
  "runShutdown env now http_ok unreg_ok h =
    (let h1 = SetShutdown h; h2 = h1\<lparr> h_manager := DrainAll env now (h_manager h1) \<rparr>
     in ([HttpStopped http_ok, CallsDrained (ActiveCount (h_manager h2)), Unregistered unreg_ok], h2))"

text \<open>The four fields of \<^verbatim>\<open>/health\<close>.\<close>

record health =
  hr_registered :: bool
  hr_account_sid :: string
  hr_active_calls :: nat
  hr_active_forwards :: nat

definition newHealthHandler :: "bool \<Rightarrow> call_manager \<Rightarrow> string \<Rightarrow> health" where
  "newHealthHandler isRegistered m acc =
    \<lparr> hr_registered = isRegistered, hr_account_sid = acc, hr_active_calls = ActiveCount m, hr_active_forwards = ActiveForwardCount m \<rparr>"

lemma health_forwards_bounded: "hr_active_forwards (newHealthHandler reg m acc) \<le> hr_active_calls (newHealthHandler reg m acc)"
  by (simp add: newHealthHandler_def ActiveCount_def ActiveForwardCount_def)

lemma DrainAll_maps:
  "cm_sessions (DrainAll env now m) = cm_sessions m" "cm_callSidIdx (DrainAll env now m) = cm_callSidIdx m"
  "cm_cleaned (DrainAll env now m) = cm_cleaned m" "length (cm_heap (DrainAll env now m)) = length (cm_heap m)"
proof -
  have "cm_sessions (fold (\<lambda>kr. upd_session (snd kr) f) xs m) = cm_sessions m \<and>
      cm_callSidIdx (fold (\<lambda>kr. upd_session (snd kr) f) xs m) = cm_callSidIdx m \<and>
      cm_cleaned (fold (\<lambda>kr. upd_session (snd kr) f) xs m) = cm_cleaned m \<and>
      length (cm_heap (fold (\<lambda>kr. upd_session (snd kr) f) xs m)) = length (cm_heap m)" for f and xs :: "(string \<times> nat) list" and m
    by (induction xs arbitrary: m) simp_all
  then show "cm_sessions (DrainAll env now m) = cm_sessions m" "cm_callSidIdx (DrainAll env now m) = cm_callSidIdx m"
    "cm_cleaned (DrainAll env now m) = cm_cleaned m" "length (cm_heap (DrainAll env now m)) = length (cm_heap m)"
    by (simp_all add: DrainAll_def)
qed

lemma runShutdown_order:
  "fst (runShutdown env now http_ok unreg_ok h) = [HttpStopped http_ok, CallsDrained (length (cm_sessions (h_manager h))), Unregistered unreg_ok]"
  by (simp add: runShutdown_def Let_def ActiveCount_def SetShutdown_def DrainAll_maps)

text \<open>C16. Shut-down is orderly: once \<^verbatim>\<open>runShutdown\<close> has run, every session that was in the
  registry has its end stamped and, if it was running, its context cancelled,
  and every INVITE that arrives afterwards is refused with a single 503 and
  starts nothing.\<close>

theorem shutdown_stops_calls:
  assumes "h2 = snd (runShutdown senv now http_ok unreg_ok h)"
    and "(callID, r) \<in> set (cm_sessions (h_manager h))" "r < length (cm_heap (h_manager h))"
    and "fresh w req h"
  shows "s_terminateOnce (cm_heap (h_manager h2) ! r) \<and>
    (s_running (cm_heap (h_manager h2) ! r) \<longrightarrow> s_cancelled (cm_heap (h_manager h2) ! r)) \<and>
    responses (onInvite env cfg w req h2) = [503] \<and> bridges (onInvite env cfg w req h2) = []"
proof -
  have h2: "h2 = (SetShutdown h)\<lparr> h_manager := DrainAll senv now (h_manager h) \<rparr>"
    by (simp add: assms(1) runShutdown_def SetShutdown_def Let_def)
  have "responses h2 = []" "bridges h2 = []" "h_shutdown h2"
    using freshD[OF assms(4)] by (simp_all add: h2 SetShutdown_def responses_def bridges_def)
  then have "responses (onInvite env cfg w req h2) = [503] \<and> bridges (onInvite env cfg w req h2) = []"
    by (simp add: onInvite_def PreRegisterSession_def emitInitiated_def Let_def)
  then show ?thesis using DrainAll_terminates[OF assms(2,3), of senv now] by (simp add: h2)
qed

section \<open>Concrete INVITEs\<close>

definition demo_henv :: handler_env where
  "demo_henv = \<lparr> he_callback = demo_env, he_session = demo_senv, he_sdp = demo_lib, he_xml = (\<lambda>s. ([], XmlEOF)),
     he_time = (\<lambda>ev. ''Mon'') \<rparr>"

definition demo_hcfg :: handler_cfg where
  "demo_hcfg = \<lparr> hc_WSTargetURL = ''wss://bot'', hc_SDPContactIP = ''192.0.2.1'', hc_AudioMode = ''twilio'', hc_SRTPEnabled = False,
     hc_voice = None \<rparr>"

definition demo_invite :: invite where
  "demo_invite = \<lparr> iv_callID = ''id7'', iv_from = ''sip:a'', iv_to = ''sip:b'', iv_body = ''192.0.2.7'' \<rparr>"

definition demo_world :: invite_world where
  "demo_world = \<lparr> iw_random = replicate 16 7, iw_start = 1, iw_readInvite_ok = True, iw_key = None, iw_salt = None,
     iw_respond_ok = True, iw_end = 2 \<rparr>"

text \<open>An operator subscription to all events, and one free port.\<close>

definition demo_handler :: handler where
  "demo_handler = \<lparr> h_manager = NewCallManager \<lparr> pp_ports = \<lparr> chan_cap = 2, chan_buf = [10000] \<rparr> \<rparr> ''AC1'' True
       ''https://example.com/cb'' ''POST'' '''',
     h_statusWC = Some (rs_client (sc_init ''tok'')), h_accountSid = ''AC1'', h_shutdown = False, h_log = [] \<rparr>"

definition demo_broken :: invite_world where
  "demo_broken = demo_world\<lparr> iw_readInvite_ok := False \<rparr>"

text \<open>The same without a status client.\<close>

definition demo_quiet :: handler where
  "demo_quiet = demo_handler\<lparr> h_statusWC := None \<rparr>"

lemma demo_fresh: "fresh demo_world demo_invite demo_quiet" "fresh demo_broken demo_invite demo_handler"
  by (simp_all add: fresh_def demo_quiet_def demo_handler_def NewCallManager_def)

lemma demo_answered: "map (l_rtpPort \<circ> snd) (bridges (onInvite demo_henv demo_hcfg demo_world demo_invite demo_quiet)) = [10000]"
  by code_simp


theorem onInvite_responses_witness:
  "responses (onInvite demo_henv demo_hcfg demo_world demo_invite demo_quiet) = [100, 180, 200]"
proof -
  have "bridges (onInvite demo_henv demo_hcfg demo_world demo_invite demo_quiet) \<noteq> []" using demo_answered by force
  with onInvite_responses[OF demo_fresh(1) refl, of demo_henv demo_hcfg] show ?thesis by blast
qed


definition demo_serving :: handler where
  "demo_serving = demo_handler\<lparr> h_manager := demo_running \<rparr>"

theorem shutdown_stops_calls_witness:
  "s_terminateOnce (cm_heap (h_manager (snd (runShutdown demo_senv 30 True True demo_serving))) ! 0) \<and>
   responses (onInvite demo_henv demo_hcfg demo_world demo_invite (snd (runShutdown demo_senv 30 True True demo_serving))) = [503]"
proof -
  have m: "(''id1'', 0) \<in> set (cm_sessions (h_manager demo_serving))" "0 < length (cm_heap (h_manager demo_serving))"
    by (simp_all add: demo_serving_def demo_running_def demo_two_def demo_manager_def NewCallManager_def PreRegisterSession_def
        sm_store_def sm_delete_def Let_def)
  have "sm_load (cm_callSidIdx demo_running) (NewCallSid (replicate 16 7)) = None \<and> sm_load (cm_sessions demo_running) ''id7'' = None \<and>
      cm_cleaned demo_running = []"
    by code_simp
  then have "fresh demo_world demo_invite demo_serving"
    by (simp add: fresh_def demo_serving_def demo_world_def demo_invite_def demo_handler_def)
  from shutdown_stops_calls[OF refl m this] show ?thesis by blast
qed

section \<open>Where the registry does not hold\<close>

text \<open>An INVITE inside a dialog carries the Call-ID of the running call: it takes over
  the entry of that call in \<^verbatim>\<open>sessions\<close>, and when it is refused the cleanup removes
  the entry, so that the running call is neither counted nor drained any more.\<close>

lemma reinvite_unlists_live_call:
  assumes "\<not> announced h" "\<not> iw_readInvite_ok w" "\<not> h_shutdown h" "ref_of h \<notin> set (cm_cleaned (h_manager h))"
  shows "sm_load (cm_sessions (h_manager (onInvite env cfg w req h))) (iv_callID req) = None"
proof -
  let ?h1 = "emitInitiated env (NewCallSid (iw_random w)) req (registered w req h)"
  have up: "setting_up (shell_of w req h) (ref_of h) ?h1"
    using setting_up_emit[OF setting_up_registered[OF assms(1)], of w req env] by (simp add: emitInitiated_def)
  have "maps_of ?h1 = maps_of (registered w req h)" by (simp add: emitInitiated_def)
  then have nd: "ref_of h \<notin> set (cm_cleaned (h_manager ?h1))"
    using assms(4) by (simp add: maps_of_def Let_def registered_def PreRegisterSession_def)
  have "onInvite env cfg w req h = refuse env (iw_end w) (ref_of h) 500 None True ?h1"
    using assms(2,3) by (simp add: onInvite_def registered_def PreRegisterSession_def emitInitiated_def Let_def)
  then show ?thesis using refuse_effect(1)[OF up nd refl] by simp
qed

text \<open>A BYE goes to the first cache that knows its dialog.\<close>

lemma route_bye_first:
  "route_bye n bs = ByeTakenBy k \<Longrightarrow> n \<le> k \<and> k < n + length bs \<and> bs ! (k - n) = ByeRead \<and> (\<forall>j < k - n. bs ! j = ByeNoDialog)"
proof (induction n bs rule: route_bye.induct)
  case (2 n b bs)
  show ?case
  proof (cases b)
    case ByeNoDialog
    then have IH: "Suc n \<le> k \<and> k < Suc n + length bs \<and> bs ! (k - Suc n) = ByeRead \<and> (\<forall>j < k - Suc n. bs ! j = ByeNoDialog)"
      using "2.IH" "2.prems" by simp
    then have "k - n = Suc (k - Suc n)" by (simp add: Suc_diff_Suc Suc_le_lessD)
    then show ?thesis using IH ByeNoDialog by (auto simp: less_Suc_eq_0_disj)
  qed (use "2.prems" in auto)
qed simp

end
