(* ===== verification/Registrar.thy ===== *)
theory Registrar
  imports Prelude
begin

text \<open>
  The SIP registration, \<^verbatim>\<open>sip/registrar.go\<close>: one REGISTER with its digest
  challenge, the ticker of the re-registration, the OPTIONS keep-alive with its
  failure counter, and the deregistration.  The replies of the registrar are
  arguments: a reply may be missing (an error of the transport).  Durations are
  nanoseconds in 64 bits.
\<close>

section \<open>Replies\<close>

record sip_reply =
  sr_status :: int
  sr_reason :: string
  sr_expires :: "string option"

type_synonym sip_result = "string + sip_reply"

definition challenged :: "sip_reply \<Rightarrow> bool" where
  "challenged res \<longleftrightarrow> sr_status res = 401 \<or> sr_status res = 407"

section \<open>State\<close>

text \<open>What the registrar keeps, with the two loops' own variables: the interval of the
  re-registration ticker and the count of consecutive failures; and the metrics
  it sets.  \<open>rr_sent\<close> lists the Expires values of the REGISTER requests.\<close>

record registrar =
  rr_expires :: int
  rr_registered :: bool
  rr_regStatus :: int
  rr_optionsFailures :: nat
  rr_retryIn :: int
  rr_failures :: nat
  rr_sent :: "int list"

definition NewRegistrar :: "int \<Rightarrow> registrar" where
  "NewRegistrar expires =
    \<lparr> rr_expires = expires, rr_registered = False, rr_regStatus = 0, rr_optionsFailures = 0, rr_retryIn = 0, rr_failures = 0,
      rr_sent = [] \<rparr>"

definition set_registered :: "bool \<Rightarrow> registrar \<Rightarrow> registrar" where
  "set_registered b r = r\<lparr> rr_registered := b, rr_regStatus := (if b then 1 else 0) \<rparr>"

text \<open>A request and, when it is challenged, the second one with the digest.\<close>

definition with_digest :: "string \<Rightarrow> sip_result \<Rightarrow> sip_result \<Rightarrow> sip_result" where
  "with_digest what first second =
    (case first of
       Inl e \<Rightarrow> Inl (what @ '' send: '' @ e)
     | Inr res \<Rightarrow>
        (if challenged res
         then (case second of Inl e \<Rightarrow> Inl (what @ '' digest auth: '' @ e) | Inr res' \<Rightarrow> Inr res')
         else Inr res))"

definition seconds :: "int \<Rightarrow> int" where
  "seconds n = i64 (n * 1000000000)"

definition doRegister :: "sip_result \<Rightarrow> sip_result \<Rightarrow> registrar \<Rightarrow> (string + int) \<times> registrar" where
  "doRegister first second r =
    (let r1 = r\<lparr> rr_sent := rr_sent r @ [rr_expires r] \<rparr> in
     case with_digest ''REGISTER'' first second of
       Inl e \<Rightarrow> (Inl e, r1)
     | Inr res \<Rightarrow>
        (if sr_status res = 403 then (Inl ''REGISTER rejected 403 Forbidden: invalid credentials'', r1)
         else if sr_status res \<noteq> 200 then (Inl (''REGISTER rejected '' @ itoa (sr_status res) @ '' '' @ sr_reason res), r1)
         else
           let serverExpiry = (case sr_expires res of
                 None \<Rightarrow> seconds (rr_expires r)
               | Some h \<Rightarrow> (case atoi h of
                     Some val \<Rightarrow> if val > 0 then seconds val else seconds (rr_expires r)
                   | None \<Rightarrow> seconds (rr_expires r)))
           in (Inr serverExpiry, set_registered True r1)))"

text \<open>\<^verbatim>\<open>time.Duration(float64(expiry) * 0.75)\<close>; the product is exact in a \<^verbatim>\<open>float64\<close> for
  expiries below \<open>2 ^ 53\<close> nanoseconds, about 104 days.\<close>

definition retry_interval :: "int \<Rightarrow> int" where
  "retry_interval expiry = (expiry * 3) div 4"

text \<open>\<^verbatim>\<open>time.NewTicker\<close> and \<^verbatim>\<open>Ticker.Reset\<close> panic for an interval that is not
  positive.\<close>

definition Register :: "sip_result \<Rightarrow> sip_result \<Rightarrow> registrar \<Rightarrow> (string + int) \<times> registrar" where
  "Register first second r =
    (case doRegister first second r of
       (Inl e, r1) \<Rightarrow> (Inl e, r1)
     | (Inr expiry, r1) \<Rightarrow> (Inr expiry, r1\<lparr> rr_retryIn := retry_interval expiry, rr_failures := 0 \<rparr>))"

definition reregister_tick :: "sip_result \<Rightarrow> sip_result \<Rightarrow> registrar \<Rightarrow> registrar" where
  "reregister_tick first second r =
    (case doRegister first second r of
       (Inl e, r1) \<Rightarrow> set_registered False r1
     | (Inr newExpiry, r1) \<Rightarrow>
        (let newRetry = retry_interval newExpiry
         in if newRetry \<noteq> rr_retryIn r1 then r1\<lparr> rr_retryIn := newRetry \<rparr> else r1))"

section \<open>Keep-alive\<close>

definition isOptionsFailure :: "sip_result \<Rightarrow> bool" where
  "isOptionsFailure res = (case res of Inl e \<Rightarrow> True | Inr x \<Rightarrow> sr_status x = 404 \<or> sr_status x \<ge> 500)"

definition isOptionsAuth :: "sip_result \<Rightarrow> bool" where
  "isOptionsAuth res = (case res of Inl e \<Rightarrow> False | Inr x \<Rightarrow> sr_status x = 401 \<or> sr_status x = 407)"

definition applyOptionsResponse :: "nat \<Rightarrow> sip_result \<Rightarrow> nat \<times> bool" where
  "applyOptionsResponse consecutiveFailures res =
    (if isOptionsFailure res then
       (if consecutiveFailures + 1 \<ge> 2 then (0, True) else (consecutiveFailures + 1, False))
     else if isOptionsAuth res then (0, False)
     else (0, False))"

definition options_tick :: "sip_result \<Rightarrow> sip_result \<Rightarrow> sip_result \<Rightarrow> registrar \<Rightarrow> registrar" where
  "options_tick res first second r =
    (let (newCount, triggerRegister) = applyOptionsResponse (rr_failures r) res;
         r1 = r\<lparr> rr_failures := newCount \<rparr>;
         r2 = (if isOptionsFailure res then r1\<lparr> rr_optionsFailures := rr_optionsFailures r1 + 1 \<rparr> else r1)
     in if triggerRegister then
          (case doRegister first second r2 of (Inl e, r3) \<Rightarrow> set_registered False r3 | (Inr expiry, r3) \<Rightarrow> r3)
        else r2)"

definition Unregister :: "sip_result \<Rightarrow> sip_result \<Rightarrow> registrar \<Rightarrow> string option \<times> registrar" where
  "Unregister first second r =
    (let r1 = r\<lparr> rr_sent := rr_sent r @ [0] \<rparr> in
     case with_digest ''UNREGISTER'' first second of
       Inl e \<Rightarrow> (Some e, r1)
     | Inr res \<Rightarrow>
        (if sr_status res \<noteq> 200 then (Some (''UNREGISTER rejected '' @ itoa (sr_status res)), r1)
         else (None, set_registered False r1)))"

section \<open>Runs\<close>

text \<open>The ticks of the two loops, which \<^verbatim>\<open>mu\<close> serialises, and a deregistration.\<close>

datatype reg_event =
    ReregisterTick sip_result sip_result
  | OptionsTick sip_result sip_result sip_result
  | UnregisterCall sip_result sip_result

fun reg_exec :: "reg_event \<Rightarrow> registrar \<Rightarrow> registrar" where
  "reg_exec (ReregisterTick a b) r = reregister_tick a b r"
| "reg_exec (OptionsTick res a b) r = options_tick res a b r"
| "reg_exec (UnregisterCall a b) r = snd (Unregister a b r)"

definition reg_run :: "reg_event list \<Rightarrow> registrar \<Rightarrow> registrar" where
  "reg_run evs r = fold reg_exec evs r"

text \<open>Whether a REGISTER of two replies succeeds.\<close>

definition accepted :: "sip_result \<Rightarrow> sip_result \<Rightarrow> bool" where
  "accepted first second \<longleftrightarrow> (\<exists>res. with_digest '''' first second = Inr res \<and> sr_status res = 200)"

lemma with_digest_ok: "(with_digest w a b = Inr res) = (with_digest w' a b = Inr res)"
  by (auto simp: with_digest_def split: sum.splits)

lemma doRegister_outcome:
  assumes "doRegister a b r = (res, r')"
  shows "rr_failures r' = rr_failures r" "rr_expires r' = rr_expires r" "rr_retryIn r' = rr_retryIn r"
    "rr_optionsFailures r' = rr_optionsFailures r" "rr_sent r' = rr_sent r @ [rr_expires r]"
    "(\<exists>e. res = Inr e) \<longleftrightarrow> accepted a b"
    "accepted a b \<Longrightarrow> rr_registered r' \<and> rr_regStatus r' = 1"
    "\<not> accepted a b \<Longrightarrow> rr_registered r' = rr_registered r \<and> rr_regStatus r' = rr_regStatus r"
proof -
  show "rr_failures r' = rr_failures r" "rr_expires r' = rr_expires r" "rr_retryIn r' = rr_retryIn r"
    "rr_optionsFailures r' = rr_optionsFailures r" "rr_sent r' = rr_sent r @ [rr_expires r]"
    using assms by (auto simp: doRegister_def set_registered_def Let_def split: sum.splits if_splits)
  have ok: "accepted a b \<longleftrightarrow> (\<exists>res. with_digest ''REGISTER'' a b = Inr res \<and> sr_status res = 200)"
    using with_digest_ok[of _ a b _] by (metis accepted_def)
  show "(\<exists>e. res = Inr e) \<longleftrightarrow> accepted a b" "accepted a b \<Longrightarrow> rr_registered r' \<and> rr_regStatus r' = 1"
    "\<not> accepted a b \<Longrightarrow> rr_registered r' = rr_registered r \<and> rr_regStatus r' = rr_regStatus r"
    unfolding ok using assms by (auto simp: doRegister_def set_registered_def Let_def split: sum.splits if_splits)
qed

section \<open>The registration status\<close>

text \<open>What the last event that decides the status says.\<close>

fun verdict :: "nat \<Rightarrow> reg_event \<Rightarrow> bool option" where
  "verdict n (ReregisterTick a b) = Some (accepted a b)"
| "verdict n (OptionsTick res a b) = (if snd (applyOptionsResponse n res) then Some (accepted a b) else None)"
| "verdict n (UnregisterCall a b) = (if accepted a b then Some False else None)"

lemma reg_exec_status:
  "rr_regStatus r = (if rr_registered r then 1 else 0) \<Longrightarrow>
    rr_regStatus (reg_exec e r) = (if rr_registered (reg_exec e r) then 1 else 0) \<and>
    rr_registered (reg_exec e r) = (case verdict (rr_failures r) e of Some b \<Rightarrow> b | None \<Rightarrow> rr_registered r)"
proof (cases e)
  case (ReregisterTick a b)
  obtain res r1 where d: "doRegister a b r = (res, r1)" by fastforce
  then show ?thesis
    using ReregisterTick doRegister_outcome(6,7)[OF d]
    by (cases res) (auto simp: reregister_tick_def set_registered_def Let_def)
next
  case (OptionsTick x a b)
  assume inv: "rr_regStatus r = (if rr_registered r then 1 else 0)"
  obtain n t where n: "applyOptionsResponse (rr_failures r) x = (n, t)" by fastforce
  define r2 where "r2 = (if isOptionsFailure x then (r\<lparr> rr_failures := n \<rparr>)\<lparr> rr_optionsFailures := rr_optionsFailures r + 1 \<rparr> else r\<lparr> rr_failures := n \<rparr>)"
  obtain res r3 where d: "doRegister a b r2 = (res, r3)" by fastforce
  have "options_tick x a b r = (if t then (case res of Inl e \<Rightarrow> set_registered False r3 | Inr e \<Rightarrow> r3) else r2)"
    using n d by (auto simp: options_tick_def r2_def Let_def split: sum.split)
  moreover have "rr_registered r2 = rr_registered r" "rr_regStatus r2 = rr_regStatus r" by (simp_all add: r2_def)
  ultimately show ?thesis
    using OptionsTick n inv doRegister_outcome(6,7)[OF d] by (cases res) (auto simp: set_registered_def)
next
  case (UnregisterCall a b)
  have ok: "accepted a b \<longleftrightarrow> (\<exists>res. with_digest ''UNREGISTER'' a b = Inr res \<and> sr_status res = 200)"
    using with_digest_ok[of _ a b _] by (metis accepted_def)
  assume "rr_regStatus r = (if rr_registered r then 1 else 0)"
  then show ?thesis
    using UnregisterCall ok by (auto simp: Unregister_def set_registered_def Let_def split: sum.splits)
qed

text \<open>The events with the failure count each of them meets.\<close>

fun counted :: "registrar \<Rightarrow> reg_event list \<Rightarrow> (nat \<times> reg_event) list" where
  "counted r [] = []"
| "counted r (e # es) = (rr_failures r, e) # counted (reg_exec e r) es"

definition last_verdict :: "bool \<Rightarrow> (nat \<times> reg_event) list \<Rightarrow> bool" where
  "last_verdict b ces = fold (\<lambda>(n, e) b. case verdict n e of Some b' \<Rightarrow> b' | None \<Rightarrow> b) ces b"


section \<open>The keep-alive counter\<close>

text \<open>The reference: how many failures the replies up to now end in.\<close>

definition trailing_failures :: "sip_result list \<Rightarrow> nat" where
  "trailing_failures rs = length (takeWhile isOptionsFailure (rev rs))"

fun keepalive :: "nat \<Rightarrow> sip_result list \<Rightarrow> nat \<times> bool list" where
  "keepalive n [] = (n, [])"
| "keepalive n (res # rs) =
    (let (n', t) = applyOptionsResponse n res; (m, ts) = keepalive n' rs in (m, t # ts))"

lemma trailing_snoc: "trailing_failures (rs @ [x]) = (if isOptionsFailure x then Suc (trailing_failures rs) else 0)"
  by (simp add: trailing_failures_def)

lemma apply_trailing:
  "applyOptionsResponse (trailing_failures pre mod 2) res =
    (trailing_failures (pre @ [res]) mod 2, isOptionsFailure res \<and> even (trailing_failures (pre @ [res])))"
  by (cases "even (trailing_failures pre)")
    (auto simp: applyOptionsResponse_def trailing_snoc mod_2_eq_odd)

lemma keepalive_trailing:
  "keepalive (trailing_failures pre mod 2) rs =
    (trailing_failures (pre @ rs) mod 2,
     map (\<lambda>k. isOptionsFailure (rs ! k) \<and> even (trailing_failures (pre @ take (Suc k) rs))) [0..<length rs])"
proof (induction rs arbitrary: pre)
  case (Cons x rs)
  have "[0..<length (x # rs)] = 0 # map Suc [0..<length rs]"
    by (simp add: upt_conv_Cons map_Suc_upt del: upt_Suc)
  then show ?case using Cons[of "pre @ [x]"] by (simp add: apply_trailing del: upt_Suc)
qed simp

text \<open>The keep-alive counter agrees with its specification: over any sequence of
  replies the counter is 0 or 1, and a re-registration is triggered at exactly
  the replies that complete an even number of consecutive failures, so one in
  two; a reply that shows the server alive, a challenge included, breaks the
  row.\<close>

theorem keepalive_trigger_spec:
  "keepalive 0 rs = (trailing_failures rs mod 2,
     map (\<lambda>k. isOptionsFailure (rs ! k) \<and> even (trailing_failures (take (Suc k) rs))) [0..<length rs])"
  using keepalive_trailing[of "[]" rs] by (simp add: trailing_failures_def)

section \<open>The interval of re-registration\<close>

text \<open>A granted registration is renewed before it expires: for every expiry the
  server grants that fits 64 bits as a duration, the ticker interval is positive
  (so that the ticker does not panic) and three quarters of the time granted.\<close>

theorem reregisters_in_time:
  assumes "Register a b r = (Inr expiry, r')" "with_digest ''REGISTER'' a b = Inr res"
    and "sr_expires res = Some h" "atoi h = Some val" "val > 0" "val \<le> 9223372036"
  shows "expiry = val * 1000000000 \<and> rr_retryIn r' = val * 750000000 \<and> 0 < rr_retryIn r' \<and> rr_retryIn r' < expiry"
proof -
  obtain r1 where d: "doRegister a b r = (Inr expiry, r1)" "r' = r1\<lparr> rr_retryIn := retry_interval expiry, rr_failures := 0 \<rparr>"
    using assms(1) by (auto simp: Register_def split: prod.splits sum.splits)
  then have "expiry = seconds val" using assms(2-5) by (auto simp: doRegister_def Let_def split: if_splits)
  moreover have "seconds val = val * 1000000000" unfolding seconds_def using assms(5,6) by (intro i64_id) simp_all
  ultimately show ?thesis using d(2) assms(5) by (simp add: retry_interval_def)
qed

text \<open>Beyond that bound the product wraps and the interval may be negative; and an
  expiry configured as zero gives a zero interval when the server names none.\<close>

lemma huge_expiry_panics: "retry_interval (seconds 9223372037) < 0"
  by code_simp

lemma zero_expiry_panics: "retry_interval (seconds 0) = 0"
  by code_simp

section \<open>Concrete exchanges\<close>

definition reply :: "int \<Rightarrow> string option \<Rightarrow> sip_result" where
  "reply code expires = Inr \<lparr> sr_status = code, sr_reason = '''', sr_expires = expires \<rparr>"


theorem reregisters_in_time_witness:
  "\<exists>r'. Register (reply 200 (Some ''120'')) (Inl '''') (NewRegistrar 60) = (Inr 120000000000, r') \<and> rr_retryIn r' = 90000000000"
proof -
  obtain expiry r' where d: "Register (reply 200 (Some ''120'')) (Inl '''') (NewRegistrar 60) = (Inr expiry, r')"
    by (auto simp: Register_def doRegister_def with_digest_def reply_def challenged_def Let_def)
  have h: "atoi ''120'' = Some 120" by code_simp
  have w: "with_digest ''REGISTER'' (reply 200 (Some ''120'')) (Inl '''') = Inr \<lparr> sr_status = 200, sr_reason = '''', sr_expires = Some ''120'' \<rparr>"
    by (simp add: with_digest_def reply_def challenged_def)
  from reregisters_in_time[OF d w _ h] d show ?thesis by simp
qed

end
