(* ===== verification/Config.thy ===== *)
theory Config
  imports Call_Manager Webhook_Client Guardrails Ssrf
begin

text \<open>
  The configuration, \<^verbatim>\<open>internal/config/config.go\<close>: the fields that the program reads,
  the checks and normalisations \<^verbatim>\<open>Load\<close> makes after the environment has been
  parsed, and the port of the SIP listener.  Parsing the environment is a
  library; a failing check prints a message and exits, here the message.
\<close>

section \<open>The configuration\<close>

record config =
  cf_SIPUser :: string
  cf_SIPListenAddr :: string
  cf_SIPOutboundTargetPort :: int
  cf_StatusCallbackDefaultURL :: string
  cf_StatusCallbackDefaultMethod :: string
  cf_StatusCallbackDefaultEvents :: string
  cf_WSTargetURL :: string
  cf_VoiceURL :: string
  cf_VoiceMethod :: string
  cf_VoiceFallbackURL :: string
  cf_VoiceFallbackMethod :: string
  cf_VoiceTimeoutS :: int
  cf_SDPContactIP :: string
  cf_RTPPortMin :: int
  cf_RTPPortMax :: int
  cf_SIPExpires :: int
  cf_SIPOptionsInterval :: int
  cf_AudioMode :: string
  cf_SRTPEnabled :: bool
  cf_AuthToken :: string
  cf_DialAllowedPrefixes :: "string list"
  cf_DialDefaultCallerID :: string
  cf_DialCallerIDCountryCode :: string
  cf_DialRingTimeoutS :: int
  cf_DialMaxPerSession :: int
  cf_DialMaxPerMinute :: int

type_synonym 'a checked = "string + 'a"

definition reject_if :: "bool \<Rightarrow> string \<Rightarrow> 'a checked \<Rightarrow> 'a checked" where
  "reject_if b msg k = (if b then Inl msg else k)"

definition and_then :: "'a checked \<Rightarrow> ('a \<Rightarrow> 'b checked) \<Rightarrow> 'b checked" where
  "and_then x f = (case x of Inl e \<Rightarrow> Inl e | Inr y \<Rightarrow> f y)"

lemma reject_if_Inr [simp]: "(reject_if b msg k = Inr y) \<longleftrightarrow> \<not> b \<and> k = Inr y"
  by (simp add: reject_if_def)

lemma and_then_Inr [simp]: "(and_then x f = Inr y) \<longleftrightarrow> (\<exists>z. x = Inr z \<and> f z = Inr y)"
  by (simp add: and_then_def split: sum.split)

section \<open>Checks\<close>

definition http_url :: "string \<Rightarrow> bool" where
  "http_url u \<longleftrightarrow> has_prefix u ''http://'' \<or> has_prefix u ''https://''"

definition http_method :: "string \<Rightarrow> bool" where
  "http_method m \<longleftrightarrow> to_upper m = ''POST'' \<or> to_upper m = ''GET''"

definition splitListenAddr :: "string \<Rightarrow> (string \<times> int) checked" where
  "splitListenAddr addr =
    (if addr = '''' then Inl ''empty address''
     else case split_host_port addr of
       None \<Rightarrow> Inl ''split host port''
     | Some (host, portStr) \<Rightarrow>
        (case atoi portStr of
           None \<Rightarrow> Inl ''port not numeric''
         | Some port \<Rightarrow> if port < 1 \<or> port > 65535 then Inl ''port out of range'' else Inr (host, port)))"

definition ListenPort :: "config \<Rightarrow> int" where
  "ListenPort c = (case splitListenAddr (cf_SIPListenAddr c) of Inl e \<Rightarrow> 5060 | Inr (host, port) \<Rightarrow> port)"

definition check_targets :: "config \<Rightarrow> config checked" where
  "check_targets c =
    (let wsSet = (cf_WSTargetURL c \<noteq> ''''); voiceSet = (cf_VoiceURL c \<noteq> '''') in
     if wsSet = voiceSet then
       (if wsSet then Inl ''WS_TARGET_URL and VOICE_URL are mutually exclusive'' else Inl ''either WS_TARGET_URL or VOICE_URL must be set'')
     else Inr c)"

definition check_voice :: "config \<Rightarrow> config checked" where
  "check_voice c =
    (if cf_VoiceURL c = '''' then Inr c
     else
       reject_if (\<not> http_url (cf_VoiceURL c)) ''VOICE_URL must start with http:// or https://''
      (reject_if (\<not> http_method (cf_VoiceMethod c)) ''VOICE_METHOD must be POST or GET''
      (let c1 = c\<lparr> cf_VoiceMethod := to_upper (cf_VoiceMethod c) \<rparr>
       in and_then
         (if cf_VoiceFallbackURL c1 = '''' then Inr c1
          else reject_if (\<not> http_url (cf_VoiceFallbackURL c1)) ''VOICE_FALLBACK_URL must start with http:// or https://''
              (reject_if (\<not> http_method (cf_VoiceFallbackMethod c1)) ''VOICE_FALLBACK_METHOD must be POST or GET''
                (Inr (c1\<lparr> cf_VoiceFallbackMethod := to_upper (cf_VoiceFallbackMethod c1) \<rparr>))))
         (\<lambda>c2. reject_if (cf_VoiceTimeoutS c2 < 1 \<or> cf_VoiceTimeoutS c2 > 15) ''VOICE_TIMEOUT_S must be in [1, 15]'' (Inr c2)))))"

definition check_ranges :: "config \<Rightarrow> config checked" where
  "check_ranges c =
    reject_if (cf_RTPPortMin c \<ge> cf_RTPPortMax c) ''RTP_PORT_MIN must be less than RTP_PORT_MAX''
   (reject_if (cf_AudioMode c \<noteq> ''twilio'' \<and> cf_AudioMode c \<noteq> ''best'') ''AUDIO_MODE must be twilio or best''
   (reject_if (cf_DialRingTimeoutS c < 5 \<or> cf_DialRingTimeoutS c > 600) ''DIAL_RING_TIMEOUT_S must be in [5, 600]''
   (reject_if (cf_DialMaxPerSession c < 1) ''DIAL_MAX_PER_SESSION must be >= 1''
   (reject_if (cf_DialMaxPerMinute c < 1) ''DIAL_MAX_PER_MINUTE must be >= 1''
   (case splitListenAddr (cf_SIPListenAddr c) of
      Inl e \<Rightarrow> Inl ''SIP_LISTEN_ADDR must be host:port''
    | Inr hp \<Rightarrow>
       reject_if (cf_SIPOutboundTargetPort c < 0 \<or> cf_SIPOutboundTargetPort c > 65535)
         ''SIP_OUTBOUND_TARGET_PORT must be 0 (default) or in [1,65535]'' (Inr c))))))"

definition validEvents :: "string list" where
  "validEvents = [''initiated'', ''ringing'', ''answered'', ''in-progress'', ''completed'', ''busy'', ''failed'', ''no-answer'', ''canceled'']"

definition config_events :: "string \<Rightarrow> string list" where
  "config_events csv = filter (\<lambda>e. e \<noteq> '''') (map (\<lambda>e. trim_space (to_lower e)) (split_on (CHR '','') csv))"

definition check_callback :: "config \<Rightarrow> config checked" where
  "check_callback c =
    (if cf_StatusCallbackDefaultURL c = '''' then Inr c
     else
       reject_if (\<not> http_url (cf_StatusCallbackDefaultURL c)) ''STATUS_CALLBACK_DEFAULT_URL must start with http:// or https://''
      (reject_if (\<not> http_method (cf_StatusCallbackDefaultMethod c)) ''STATUS_CALLBACK_DEFAULT_METHOD must be POST or GET''
      (reject_if (\<not> list_all (\<lambda>e. e \<in> set validEvents) (config_events (cf_StatusCallbackDefaultEvents c)))
          ''STATUS_CALLBACK_DEFAULT_EVENTS contains unknown event''
      (reject_if (config_events (cf_StatusCallbackDefaultEvents c) = []) ''STATUS_CALLBACK_DEFAULT_EVENTS must list at least one event''
        (Inr (c\<lparr> cf_StatusCallbackDefaultMethod := to_upper (cf_StatusCallbackDefaultMethod c) \<rparr>))))))"

text \<open>One leading plus sign is let through whatever follows it.\<close>

definition prefix_ok :: "string \<Rightarrow> bool" where
  "prefix_ok p = (case p of [] \<Rightarrow> True | c # cs \<Rightarrow> (c = CHR ''+'' \<or> is_digit c) \<and> list_all is_digit cs)"

definition norm_prefixes :: "string list \<Rightarrow> string list" where
  "norm_prefixes ps = filter (\<lambda>p. p \<noteq> '''') (map (\<lambda>p. trim_space (to_lower p)) ps)"

definition check_prefixes :: "config \<Rightarrow> config checked" where
  "check_prefixes c =
    (if cf_DialAllowedPrefixes c = [] then Inr c
     else
       let norm = norm_prefixes (cf_DialAllowedPrefixes c)
       in reject_if (\<not> list_all prefix_ok norm) ''DIAL_ALLOWED_PREFIXES entry must be digits with an optional plus''
            (Inr (c\<lparr> cf_DialAllowedPrefixes := norm \<rparr>)))"

text \<open>\<open>detected\<close> is the local address found when none is configured.\<close>

definition detect_ip :: "string option \<Rightarrow> config \<Rightarrow> config" where
  "detect_ip detected c =
    (if cf_SDPContactIP c = '''' then (case detected of Some ip \<Rightarrow> c\<lparr> cf_SDPContactIP := ip \<rparr> | None \<Rightarrow> c) else c)"

definition Load :: "string option \<Rightarrow> config \<Rightarrow> config checked" where
  "Load detected c =
    and_then (check_targets (detect_ip detected c)) (\<lambda>c. and_then (check_voice c) (\<lambda>c. and_then (check_ranges c)
      (\<lambda>c. and_then (check_callback c) check_prefixes)))"

section \<open>What a loaded configuration guarantees\<close>

lemma upper_char_idem [simp]: "upper_char (upper_char c) = upper_char c"
proof (cases "97 \<le> (of_char c :: nat) \<and> (of_char c :: nat) \<le> 122")
  case True
  then have "(of_char c - 32) mod 256 = (of_char c - 32 :: nat)" by (intro mod_less) linarith
  moreover have "\<not> 97 \<le> (of_char c - 32 :: nat)" using True by linarith
  ultimately show ?thesis using True by (simp add: upper_char_def Let_def)
next
  case False
  then have "upper_char c = c" by (auto simp: upper_char_def Let_def)
  then show ?thesis by simp
qed

lemma to_upper_idem [simp]: "to_upper (to_upper s) = to_upper s"
  by (simp add: to_upper_def)

definition method_ok :: "string \<Rightarrow> bool" where
  "method_ok m \<longleftrightarrow> m = ''POST'' \<or> m = ''GET''"

lemma check_simps:
  "check_targets c = Inr c1 \<longleftrightarrow> c1 = c \<and> (cf_WSTargetURL c \<noteq> '''') \<noteq> (cf_VoiceURL c \<noteq> '''')"
  "check_ranges c = Inr c3 \<longleftrightarrow> c3 = c \<and> cf_RTPPortMin c < cf_RTPPortMax c \<and> cf_AudioMode c \<in> {''twilio'', ''best''} \<and>
     5 \<le> cf_DialRingTimeoutS c \<and> cf_DialRingTimeoutS c \<le> 600 \<and> 1 \<le> cf_DialMaxPerSession c \<and> 1 \<le> cf_DialMaxPerMinute c \<and>
     (\<exists>hp. splitListenAddr (cf_SIPListenAddr c) = Inr hp) \<and> 0 \<le> cf_SIPOutboundTargetPort c \<and> cf_SIPOutboundTargetPort c \<le> 65535"
  "check_callback c = Inr c4 \<longleftrightarrow>
     (if cf_StatusCallbackDefaultURL c = '''' then c4 = c
      else http_url (cf_StatusCallbackDefaultURL c) \<and> http_method (cf_StatusCallbackDefaultMethod c) \<and>
        set (config_events (cf_StatusCallbackDefaultEvents c)) \<subseteq> set validEvents \<and>
        config_events (cf_StatusCallbackDefaultEvents c) \<noteq> [] \<and>
        c4 = c\<lparr> cf_StatusCallbackDefaultMethod := to_upper (cf_StatusCallbackDefaultMethod c) \<rparr>)"
  "check_prefixes c = Inr c5 \<longleftrightarrow> list_all prefix_ok (norm_prefixes (cf_DialAllowedPrefixes c)) \<and>
     c5 = c\<lparr> cf_DialAllowedPrefixes := norm_prefixes (cf_DialAllowedPrefixes c) \<rparr>"
  by (auto simp: check_targets_def check_ranges_def check_callback_def check_prefixes_def norm_prefixes_def Let_def
      list_all_iff subset_iff split: sum.splits)

lemma check_voice_simps:
  "check_voice c = Inr c2 \<longleftrightarrow>
    (if cf_VoiceURL c = '''' then c2 = c
     else http_url (cf_VoiceURL c) \<and> http_method (cf_VoiceMethod c) \<and> 1 \<le> cf_VoiceTimeoutS c \<and> cf_VoiceTimeoutS c \<le> 15 \<and>
       (if cf_VoiceFallbackURL c = '''' then c2 = c\<lparr> cf_VoiceMethod := to_upper (cf_VoiceMethod c) \<rparr>
        else http_url (cf_VoiceFallbackURL c) \<and> http_method (cf_VoiceFallbackMethod c) \<and>
          c2 = c\<lparr> cf_VoiceMethod := to_upper (cf_VoiceMethod c), cf_VoiceFallbackMethod := to_upper (cf_VoiceFallbackMethod c) \<rparr>))"
  by (auto simp: check_voice_def Let_def)

lemma detect_ip_simps [simp]:
  "cf_WSTargetURL (detect_ip d c) = cf_WSTargetURL c" "cf_VoiceURL (detect_ip d c) = cf_VoiceURL c"
  by (simp_all add: detect_ip_def split: option.split)

text \<open>The configuration after each check, as one chain of updates.\<close>

lemma Load_chain:
  "Load d c = Inr c' \<longleftrightarrow> (\<exists>c2 c4. (cf_WSTargetURL c \<noteq> '''') \<noteq> (cf_VoiceURL c \<noteq> '''') \<and> check_voice (detect_ip d c) = Inr c2 \<and>
     check_ranges c2 = Inr c2 \<and> check_callback c2 = Inr c4 \<and> check_prefixes c4 = Inr c')"
  by (auto simp: Load_def check_simps(1,2))

lemma config_events_default: "default_events csv = set (config_events csv)"
  by (simp add: default_events_def config_events_def)

lemma splitListenAddr_port:
  "splitListenAddr a = Inr (h, p) \<Longrightarrow> 1 \<le> p \<and> p \<le> 65535"
  by (auto simp: splitListenAddr_def split: if_splits option.splits)

lemma http_method_upper: "http_method m \<Longrightarrow> method_ok (to_upper m)" "method_ok m \<Longrightarrow> http_method m \<and> to_upper m = m"
  by (auto simp: http_method_def method_ok_def to_upper_def upper_char_def)

text \<open>What the rest of the program takes for granted of a configuration.\<close>

definition usable :: "config \<Rightarrow> bool" where
  "usable c \<longleftrightarrow>
    (cf_WSTargetURL c \<noteq> '''') \<noteq> (cf_VoiceURL c \<noteq> '''') \<and>
    (\<exists>pool. NewPortPool (cf_RTPPortMin c) (cf_RTPPortMax c) = Inr pool) \<and>
    (\<exists>host. splitListenAddr (cf_SIPListenAddr c) = Inr (host, ListenPort c)) \<and> 1 \<le> ListenPort c \<and> ListenPort c \<le> 65535 \<and>
    (cf_VoiceURL c \<noteq> '''' \<longrightarrow> method_ok (cf_VoiceMethod c) \<and> 1 \<le> cf_VoiceTimeoutS c \<and> cf_VoiceTimeoutS c \<le> 15 \<and>
       (cf_VoiceFallbackURL c \<noteq> '''' \<longrightarrow> method_ok (cf_VoiceFallbackMethod c))) \<and>
    (cf_StatusCallbackDefaultURL c \<noteq> '''' \<longrightarrow> method_ok (cf_StatusCallbackDefaultMethod c) \<and>
       default_events (cf_StatusCallbackDefaultEvents c) \<noteq> {} \<and>
       default_events (cf_StatusCallbackDefaultEvents c) \<subseteq> set validEvents) \<and>
    5 \<le> cf_DialRingTimeoutS c \<and> cf_DialRingTimeoutS c \<le> 600 \<and> 1 \<le> cf_DialMaxPerSession c \<and> 1 \<le> cf_DialMaxPerMinute c \<and>
    (\<forall>p \<in> set (cf_DialAllowedPrefixes c). p \<noteq> '''' \<and> prefix_ok p)"


lemma prefix_ok_plain: "prefix_ok p \<Longrightarrow> trim_space (to_lower p) = p"
proof -
  assume "prefix_ok p"
  then have "\<forall>c \<in> set p. c = CHR ''+'' \<or> is_digit c" by (auto simp: prefix_ok_def list_all_iff split: list.splits)
  moreover have "lower_char c = c \<and> \<not> is_space c" if "is_digit c" for c
  proof -
    define n where "n = (of_char c :: nat)"
    have "48 \<le> n" "n \<le> 57" using that by (simp_all add: is_digit_def n_def)
    then show ?thesis unfolding lower_char_def is_space_def n_def[symmetric] by simp
  qed
  moreover have "lower_char (CHR ''+'') = CHR ''+'' \<and> \<not> is_space (CHR ''+'')"
    by code_simp
  ultimately have plain: "\<forall>c \<in> set p. lower_char c = c \<and> \<not> is_space c" by metis
  have low: "to_lower p = p" using plain by (simp add: to_lower_def map_idI)
  have "dropWhile is_space p = p" using plain by (cases p) auto
  moreover have "dropWhile is_space q = q" if "set q \<subseteq> set p" for q using plain that by (cases q) auto
  moreover have "set (rev p) \<subseteq> set p" by simp
  ultimately show ?thesis by (simp add: low trim_space_def trim_left_def trim_right_def)
qed

lemma norm_prefixes_fixed: "\<forall>p \<in> set ps. p \<noteq> '''' \<and> trim_space (to_lower p) = p \<Longrightarrow> norm_prefixes ps = ps"
  by (induction ps) (auto simp: norm_prefixes_def)

text \<open>Loading is a normalisation: a loaded configuration is accepted again and
  stays as it is.\<close>

theorem Load_idempotent:
  assumes "Load d c = Inr c'" "d' = None \<or> cf_SDPContactIP c' \<noteq> ''''"
  shows "Load d' c' = Inr c'"
proof -
  obtain c2 c4 where L: "(cf_WSTargetURL c \<noteq> '''') \<noteq> (cf_VoiceURL c \<noteq> '''')" "check_voice (detect_ip d c) = Inr c2"
    "check_ranges c2 = Inr c2" "check_callback c2 = Inr c4" "check_prefixes c4 = Inr c'"
    using assms(1) by (auto simp: Load_chain)
  have ip: "detect_ip d' c' = c'" using assms(2) by (auto simp: detect_ip_def)
  obtain meth where c4: "c4 = c2\<lparr> cf_StatusCallbackDefaultMethod := meth \<rparr>"
    and meth: "cf_StatusCallbackDefaultURL c2 \<noteq> '''' \<Longrightarrow> http_url (cf_StatusCallbackDefaultURL c2) \<and> http_method meth \<and> to_upper meth = meth \<and>
      set (config_events (cf_StatusCallbackDefaultEvents c2)) \<subseteq> set validEvents \<and> config_events (cf_StatusCallbackDefaultEvents c2) \<noteq> []"
  proof (cases "cf_StatusCallbackDefaultURL c2 = ''''")
    case True
    then show thesis using L(4) that[of "cf_StatusCallbackDefaultMethod c2"] by (simp add: check_simps(3))
  next
    case False
    then show thesis
      using L(4) that[of "to_upper (cf_StatusCallbackDefaultMethod c2)"] by (simp add: check_simps(3) http_method_def)
  qed
  let ?ps = "norm_prefixes (cf_DialAllowedPrefixes c2)"
  have c': "c' = c2\<lparr> cf_StatusCallbackDefaultMethod := meth, cf_DialAllowedPrefixes := ?ps \<rparr>" "list_all prefix_ok ?ps"
    using L(5) by (simp_all add: check_simps(4) c4)
  have "norm_prefixes ?ps = ?ps"
  proof (intro norm_prefixes_fixed ballI conjI)
    fix p assume p: "p \<in> set ?ps"
    then show "p \<noteq> ''''" by (simp add: norm_prefixes_def)
    show "trim_space (to_lower p) = p" using c'(2) p by (intro prefix_ok_plain) (simp add: list_all_iff)
  qed
  then have prefixes: "check_prefixes c' = Inr c'" using c'(2) by (simp add: check_simps(4) c'(1))
  have callback: "check_callback c' = Inr c'" using meth by (simp add: check_simps(3) c'(1))
  have ranges: "check_ranges c' = Inr c'" using L(3) by (simp add: check_simps(2) c'(1))
  have v2: "cf_VoiceURL c2 \<noteq> '''' \<Longrightarrow> http_url (cf_VoiceURL c2) \<and> http_method (cf_VoiceMethod c2) \<and>
      to_upper (cf_VoiceMethod c2) = cf_VoiceMethod c2 \<and> 1 \<le> cf_VoiceTimeoutS c2 \<and> cf_VoiceTimeoutS c2 \<le> 15 \<and>
      (cf_VoiceFallbackURL c2 \<noteq> '''' \<longrightarrow> http_url (cf_VoiceFallbackURL c2) \<and> http_method (cf_VoiceFallbackMethod c2) \<and>
         to_upper (cf_VoiceFallbackMethod c2) = cf_VoiceFallbackMethod c2)"
    using L(2) by (auto simp: check_voice_simps http_method_def split: if_splits)
  then have voice: "check_voice c' = Inr c'" by (simp add: check_voice_simps c'(1))
  have "(cf_WSTargetURL c' \<noteq> '''') \<noteq> (cf_VoiceURL c' \<noteq> '''')"
    using L(1,2) by (auto simp: check_voice_simps c'(1) split: if_splits)
  then show ?thesis unfolding Load_chain ip using voice ranges callback prefixes by blast
qed

section \<open>A concrete configuration\<close>

definition demo_config :: config where
  "demo_config = \<lparr> cf_SIPUser = ''e1'', cf_SIPListenAddr = ''[::]:5062'', cf_SIPOutboundTargetPort = 0,
     cf_StatusCallbackDefaultURL = ''http://op.example.net/cb'', cf_StatusCallbackDefaultMethod = ''post'',
     cf_StatusCallbackDefaultEvents = ''Answered, completed'', cf_WSTargetURL = '''', cf_VoiceURL = ''https://voice.example.net/'',
     cf_VoiceMethod = ''get'', cf_VoiceFallbackURL = '''', cf_VoiceFallbackMethod = ''POST'', cf_VoiceTimeoutS = 5,
     cf_SDPContactIP = '''', cf_RTPPortMin = 10000, cf_RTPPortMax = 10099, cf_SIPExpires = 120, cf_SIPOptionsInterval = 30000000000,
     cf_AudioMode = ''best'', cf_SRTPEnabled = True, cf_AuthToken = ''t'', cf_DialAllowedPrefixes = ['' +49 '', ''''],
     cf_DialDefaultCallerID = '''', cf_DialCallerIDCountryCode = ''49'', cf_DialRingTimeoutS = 30, cf_DialMaxPerSession = 3,
     cf_DialMaxPerMinute = 60 \<rparr>"

definition demo_loaded :: config where
  "demo_loaded = demo_config\<lparr> cf_SDPContactIP := ''192.0.2.1'', cf_StatusCallbackDefaultMethod := ''POST'', cf_VoiceMethod := ''GET'',
     cf_DialAllowedPrefixes := [''+49''] \<rparr>"

lemma demo_load: "Load (Some ''192.0.2.1'') demo_config = Inr demo_loaded"
  by code_simp


theorem Load_idempotent_witness: "Load None demo_loaded = Inr demo_loaded"
  by (rule Load_idempotent[OF demo_load]) simp

section \<open>What loading lets through\<close>

text \<open>An HTTP voice URL is accepted, but no such URL is ever fetched unless its host
  looks like the local one: every call is then refused.\<close>

lemma voice_url_never_fetched:
  "http_url ''http://voice.example.net/'' \<and> \<not> isAllowedVoiceURL ''http://voice.example.net/''"
  by code_simp

text \<open>A lone plus sign is an allow-list entry, and allows every international number;
  an entry with the prefix 00 allows nothing, because targets are normalised to
  a plus sign.\<close>

lemma plus_allows_everything: "prefix_ok ''+'' \<and> matchAllowList (NewGuardrails [''+''] 3 60) (CHR ''+'' # number)"
  by (simp add: prefix_ok_def matchAllowList_def NewGuardrails_def has_prefix_def)

lemma prefix_00_matches_nothing:
  "prefix_ok ''0049'' \<and> \<not> matchAllowList (NewGuardrails [''0049''] 3 60) (normalizeTarget target)"
proof
  show "prefix_ok ''0049''" by code_simp
  show "\<not> matchAllowList (NewGuardrails [''0049''] 3 60) (normalizeTarget target)"
    by (auto simp: matchAllowList_def NewGuardrails_def normalizeTarget_def has_prefix_iff Let_def)
qed

text \<open>A cap beyond 32 bits wraps to one that refuses every dial.\<close>

lemma cap_wraps: "maxPerSession (NewGuardrails ps 4294967296 60) = 0"
  by (simp add: NewGuardrails_def i32_def)

end
