(* ===== verification/Mid_Call.thy ===== *)
theory Mid_Call
  imports Twiml Call_Manager Forwarder Webhook_Client
begin

text \<open>
  The adapter of \<^verbatim>\<open>api/midcall_adapter.go\<close>: a live session as the target of TwiML
  sent during the call.  Preparing a dial closes the stream to the bot, takes
  an RTP port and installs the callee leg; performing it calls the forwarder
  and posts the action callback; releasing gives the port back.  The adapter
  is the provider of the interface \<open>dial_resources\<close> of the dispatcher,
  and is shown to be one.  What the adapter does is kept in \<open>mw_log\<close>, in order.
\<close>

section \<open>The adapter\<close>

text \<open>The action callback as it leaves: signed, through the unsigned client that
  stands in when no signing client is wired, or not at all.\<close>

datatype action_post =
    ActionSigned "sign_error + http_request"
  | ActionLegacy fetch_target
  | ActionUnbuildable string

datatype mid_effect =
    GateClosed
  | PortTaken int
  | Dialled string
  | ActionPosted action_post
  | Ended string
  | PortGiven int

record mid_world =
  mw_manager :: call_manager
  mw_fwd :: fwd
  mw_log :: "mid_effect list"

record dial_handle =
  dh_leg :: leg
  dh_port :: int

text \<open>What the adapter holds, and what the one dial that a document can make meets:
  the clock of the guardrails, the CallSid minted for the leg, the callee, and
  the time at which the call ends.  \<open>me_poster\<close> says whether the signing client
  is wired.\<close>

record mid_env =
  me_session :: session_env
  me_fwd :: fwd_env
  me_cfg :: fwd_cfg
  me_contactIP :: string
  me_newreq :: new_request
  me_token :: string
  me_poster :: bool
  me_clock :: nat
  me_dialCallSid :: string
  me_world :: dial_world
  me_end :: int

definition mw_do :: "mid_effect \<Rightarrow> mid_world \<Rightarrow> mid_world" where
  "mw_do e w = w\<lparr> mw_log := mw_log w @ [e] \<rparr>"

definition mw_session :: "session_ref \<Rightarrow> mid_world \<Rightarrow> call_session" where
  "mw_session r w = cm_heap (mw_manager w) ! r"

definition mw_upd :: "session_ref \<Rightarrow> (call_session \<Rightarrow> call_session) \<Rightarrow> mid_world \<Rightarrow> mid_world" where
  "mw_upd r f w = w\<lparr> mw_manager := upd_session r f (mw_manager w) \<rparr>"

definition mid_terminate :: "mid_env \<Rightarrow> session_ref \<Rightarrow> string \<Rightarrow> mid_world \<Rightarrow> string option \<times> mid_world" where
  "mid_terminate env r reason w =
    (let (e, s) = Terminate (se_rfc1123z (me_session env)) (se_bye_err (me_session env)) (me_end env) reason (mw_session r w)
     in (e, mw_do (Ended reason) (mw_upd r (\<lambda>_. s) w)))"

definition PrepareDial :: "mid_env \<Rightarrow> session_ref \<Rightarrow> dial_opts \<Rightarrow> mid_world \<Rightarrow> (string + dial_handle) \<times> mid_world" where
  "PrepareDial env r opts w =
    (let w1 = mw_do GateClosed (mw_upd r (CloseStream ''dial-forward'') w);
         (res, m) = AcquirePort (mw_manager w1);
         w2 = w1\<lparr> mw_manager := m \<rparr>
     in case res of
          Inl e \<Rightarrow> (Inl ''PrepareDial: AcquirePort'', w2)
        | Inr port \<Rightarrow>
            (let lg = NewCalleeLeg port (me_contactIP env)
             in (Inr \<lparr> dh_leg = lg, dh_port = port \<rparr>,
                 mw_do (PortTaken port) (mw_upd r (SetLeg 1 (Some lg)) w2))))"

definition twilioDialCallStatus :: "string \<Rightarrow> string" where
  "twilioDialCallStatus status =
    (if status = ''answered'' \<or> status = ''hangup-star'' then ''completed''
     else if status = ''busy'' then ''busy''
     else if status = ''no-answer'' then ''no-answer''
     else if status = ''canceled'' then ''canceled''
     else ''failed'')"

definition action_form :: "call_session \<Rightarrow> dial_result \<Rightarrow> url_values" where
  "action_form s r =
    [(''DialCallStatus'', [twilioDialCallStatus (r_Status r)]), (''DialCallSid'', [r_DialCallSid r]),
     (''DialCallDuration'', [itoa (go_seconds (r_Duration r))]), (''Direction'', [''outbound-dial'']),
     (''CallSid'', [s_callSid s]), (''AccountSid'', [s_accountSid s])]"

definition no_result :: dial_result where
  "no_result = \<lparr> r_Status = ''failed'', r_Reason = '''', r_DialCallSid = '''', r_Duration = 0, r_SIPFinalCode = 0,
     r_DialedTarget = '''' \<rparr>"

definition fireActionCallback :: "mid_env \<Rightarrow> call_session \<Rightarrow> string \<Rightarrow> string \<Rightarrow> dial_result option \<Rightarrow> action_post option" where
  "fireActionCallback env s actionURL meth0 res =
    (if actionURL = '''' then None
     else
       let form = action_form s (case res of None \<Rightarrow> no_result | Some r \<Rightarrow> r);
           meth = to_upper (if meth0 = '''' then ''POST'' else meth0);
           post = (meth = ''POST'')
       in if \<not> me_poster env then
            Some (ActionLegacy \<lparr> ft_URL = actionURL, ft_Method = meth, ft_Body = form_encode form \<rparr>)
          else
            (case me_newreq env meth actionURL of
               Inl e \<Rightarrow> Some (ActionUnbuildable e)
             | Inr u \<Rightarrow>
                 Some (ActionSigned (RoundTrip (me_token env)
                   \<lparr> req_method = meth, req_url = u, req_body = (if post then Body (form_encode form) else NoBody),
                     req_raw_url = Some actionURL,
                     req_headers = (if post then [''Content-Type'' \<mapsto> ''application/x-www-form-urlencoded'']
                       else Map.empty) \<rparr>))))"

text \<open>No digit channel is wired, so \<open>so_DTMF\<close> is false.\<close>

definition sip_opts :: "string \<Rightarrow> dial_opts \<Rightarrow> sip_dial_opts" where
  "sip_opts from o0 =
    \<lparr> so_CallerID = o_CallerID o0, so_Timeout = o_Timeout o0, so_TimeLimit = o_TimeLimit o0,
      so_HangupOnStar = o_HangupOnStar o0, so_DTMF = False, so_CallerFrom = from,
      so_StatusCallback = o_StatusCallback o0, so_StatusCallbackMethod = o_StatusCallbackMethod o0,
      so_StatusCallbackEvents = o_StatusCallbackEvents o0 \<rparr>"

text \<open>The forwarder works on the session itself: it is read from the heap before the
  dial and put back after it.\<close>

definition mid_dial :: "mid_env \<Rightarrow> session_ref \<Rightarrow> string \<Rightarrow> dial_opts \<Rightarrow> mid_world \<Rightarrow>
    ((dial_result \<times> string option) \<times> fwd) option" where
  "mid_dial env r target opts w =
    (let s = mw_session r w
     in Dial (me_fwd env) (me_cfg env) (me_clock env)
          \<lparr> dc_callerSid = s_callSid s, dc_target = target, dc_opts = sip_opts (s_from s) opts,
            dc_dialCallSid = me_dialCallSid env \<rparr>
          (me_world env) ((mw_fwd w)\<lparr> fw_session := s \<rparr>))"

definition PerformDial :: "mid_env \<Rightarrow> session_ref \<Rightarrow> string \<Rightarrow> dial_opts \<Rightarrow> dial_handle \<Rightarrow> mid_world \<Rightarrow>
    ((dial_result option \<times> string option) \<times> mid_world) option" where
  "PerformDial env r target opts h w =
    (case mid_dial env r target opts w of
       None \<Rightarrow> None
     | Some ((res, err), f) \<Rightarrow>
        (let w1 = mw_do (Dialled (r_Status res)) (mw_upd r (\<lambda>_. fw_session f) (w\<lparr> mw_fwd := f \<rparr>));
             w2 = (case fireActionCallback env (mw_session r w1) (o_Action opts) (o_Method opts) (Some res) of
                     None \<Rightarrow> w1 | Some a \<Rightarrow> mw_do (ActionPosted a) w1)
         in Some ((Some res, err), w2)))"

definition dial_release :: "dial_handle \<Rightarrow> mid_world \<Rightarrow> mid_world" where
  "dial_release h w = mw_do (PortGiven (dh_port h)) (w\<lparr> mw_manager := ReleasePort (dh_port h) (mw_manager w) \<rparr>)"

definition midCallAdapter :: "mid_env \<Rightarrow> session_ref \<Rightarrow> (mid_world, dial_handle) dial_target" where
  "midCallAdapter env r =
    \<lparr> dt_Terminate = mid_terminate env r, dt_PrepareDial = PrepareDial env r, dt_PerformDial = PerformDial env r,
      dt_Release = dial_release \<rparr>"

section \<open>Statuses\<close>

text \<open>The three translations of a dial status agree: the reason under which the
  caller's call ends, the status in the action callback, and the event of the
  dial leg.\<close>

lemma dial_status_translations:
  "twilioReasonFromDialResult (Some res) = twilioDialCallStatus (r_Status res)"
  "dialTerminalEventName st = twilioDialCallStatus st"
  "twilioReasonFromDialResult None = twilioDialCallStatus (r_Status no_result)"
  "twilioStatusFromTermReason (twilioDialCallStatus st) = twilioDialCallStatus st"
  by (auto simp: twilioReasonFromDialResult_def twilioDialCallStatus_def dialTerminalEventName_def no_result_def
      twilioStatusFromTermReason_def)

lemma twilioDialCallStatus_terminal: "IsTerminalEvent (twilioDialCallStatus st)"
  by (simp add: twilioDialCallStatus_def IsTerminalEvent_def terminalEvents_def)

section \<open>What a dial leaves of the session\<close>

definition dial_keeps :: "call_session \<Rightarrow> call_session \<Rightarrow> bool" where
  "dial_keeps s s' \<longleftrightarrow> untouched s s' \<and> s_streamClosed s' = s_streamClosed s \<and> s_accountSid s' = s_accountSid s"

lemma dial_keeps_refl [simp]: "dial_keeps s s"
  by (simp add: dial_keeps_def)

lemma dial_keeps_trans: "dial_keeps a b \<Longrightarrow> dial_keeps b c \<Longrightarrow> dial_keeps a c"
  by (auto simp: dial_keeps_def intro: untouched_trans)

lemma with_callee_keeps: "dial_keeps (fw_session f) (fw_session (with_callee g f))"
  by (simp add: with_callee_def dial_keeps_def) (simp add: update_leg_def)

lemma OnAnswered_keeps: "OnAnswered ok s = (e, s') \<Longrightarrow> dial_keeps s s'"
  using OnAnswered_untouched[of s ok]
  by (auto simp: dial_keeps_def OnAnswered_def state_cas_def split: option.splits if_splits)

lemma fw_session_frame [simp]:
  "fw_session (on_responses env cfg d rung cs f) = fw_session f"
  "fw_session (snd (recordFailure env cfg d err r f)) = fw_session f"
  "fw_session (drain_leg d f) = fw_session f" "fw_session (ReleaseLegSequence sid f) = fw_session f"
proof -
  show "fw_session (on_responses env cfg d rung cs f) = fw_session f"
    by (induction cs arbitrary: rung f) simp_all
  show drain: "fw_session (drain_leg d f) = fw_session f" and release: "fw_session (ReleaseLegSequence sid f) = fw_session f"
    for d f sid by (simp_all add: drain_leg_def ReleaseLegSequence_def)
  show "fw_session (snd (recordFailure env cfg d err r f)) = fw_session f"
    by (simp add: recordFailure_def Let_def drain release)
qed

lemma fail_dial_keeps: "fail_dial env cfg d err r f = Some (x, f') \<Longrightarrow> fw_session f' = fw_session f"
  using fw_session_frame(2)[of env cfg d err r f] by (cases "recordFailure env cfg d err r f") (simp add: fail_dial_def)

lemma dial_answered_keeps:
  assumes "dial_answered env cfg d w l body r f = Some (x, f')"
  shows "dial_keeps (fw_session f) (fw_session f')"
proof (cases "AcceptSDPAnswer (fe_sdp env) body l")
  case (Pair a l')
  note rf = fw_session_frame(2)[of env cfg d]
  let ?f0 = "fw_do Ack (with_callee (\<lambda>_. l') f)"
  have f0: "dial_keeps (fw_session f) (fw_session ?f0)" by (simp add: with_callee_keeps)
  show ?thesis
  proof (cases a)
    case (Some e)
    then have "fw_session f' = fw_session f"
      using assms Pair by (auto simp: dial_answered_def Let_def split_beta)
    then show ?thesis by simp
  next
    case None
    obtain oe s where on: "OnAnswered (dw_listen_ok w) (fw_session ?f0) = (oe, s)" by fastforce
    have s: "dial_keeps (fw_session f) s" using dial_keeps_trans[OF f0 OnAnswered_keeps[OF on]] .
    have "fw_session f' = fw_session ?f0 \<or> fw_session f' = s"
      using assms Pair None on by (auto simp: dial_answered_def Let_def split_beta split: option.splits if_splits)
    then show ?thesis using f0 s by auto
  qed
qed

lemma map_DialogClosed_keeps:
  assumes "map_option (map_prod id (fw_do DialogClosed)) y = Some (x, f')"
  obtains f1 where "y = Some (x, f1)" "fw_session f' = fw_session f1"
  using assms by (cases y) auto

lemma invite_outcome_keeps:
  assumes "invite_outcome env cfg d w l r f = Some (x, f')"
  shows "dial_keeps (fw_session f) (fw_session f')"
proof -
  have fail: "fw_session f' = fw_session f" if "close_client w (fail_dial env cfg d err r0 f) = Some (x, f')" for err r0
    using that fail_dial_keeps
    by (auto simp: close_client_def split: if_splits elim!: map_DialogClosed_keeps)
  have fail': "fw_session f' = fw_session f"
    if "map_option (map_prod id (fw_do DialogClosed)) (fail_dial env cfg d err r0 f) = Some (x, f')" for err r0
    using that fail_dial_keeps by (auto elim!: map_DialogClosed_keeps)
  show ?thesis
  proof (cases "dw_end w")
    case (Accepted a)
    show ?thesis
    proof (cases a)
      case None
      then show ?thesis using assms Accepted fail' by (simp add: invite_outcome_def)
    next
      case (Some b)
      obtain code reason body where b: "b = (code, reason, body)" by (metis surj_pair)
      show ?thesis
        using assms fail' dial_answered_keeps unfolding invite_outcome_def Accepted Some b
        by (cases "code = 200") (auto simp: Let_def)
    qed
  qed (use assms fail in \<open>auto simp: invite_outcome_def\<close>)
qed

lemma Dial_keeps:
  assumes "Dial env cfg now d w f = Some (x, f')"
  shows "dial_keeps (fw_session f) (fw_session f')"
proof -
  obtain b g where cd: "CheckDial now (fw_guard f) (dc_callerSid d) (dc_target d) = (b, g)" by fastforce
  define f1 where "f1 = emitDialEvent env cfg d ''initiated'' ''queued'' (fw_do Attempt (f\<lparr> fw_guard := g \<rparr>))"
  have f1: "fw_session f1 = fw_session f" by (simp add: f1_def)
  consider "fw_session f' = fw_session f" | err r where "fail_dial env cfg d err r f1 = Some (x, f')"
    | l r rung cs e where "invite_outcome env cfg d w l r (on_responses env cfg d rung cs (fw_do e f1)) = Some (x, f')"
    using assms cd unfolding Dial_def Let_def f1_def[symmetric]
    by (cases b; simp add: f1_def[symmetric] split: option.splits sum.splits prod.splits) auto
  then show ?thesis
  proof cases
    case 2
    then show ?thesis using fail_dial_keeps f1 by simp
  next
    case 3
    then show ?thesis using invite_outcome_keeps[OF 3] f1 by simp
  qed simp
qed

section \<open>The adapter keeps the contract of a dial target\<close>

definition mid_pool :: "mid_world \<Rightarrow> port_pool" where
  "mid_pool w = cm_portPool (mw_manager w)"

lemma mid_pool_frame [simp]:
  "mid_pool (mw_do e w) = mid_pool w" "mid_pool (mw_upd r f w) = mid_pool w" "mid_pool (w\<lparr> mw_fwd := x \<rparr>) = mid_pool w"
  by (simp_all add: mid_pool_def mw_do_def mw_upd_def upd_session_def)

lemma mid_terminate_pool [simp]: "mid_pool (snd (mid_terminate env r reason w)) = mid_pool w"
  by (simp add: mid_terminate_def split_beta)

lemma PerformDial_pool:
  assumes "PerformDial env r target opts h w = Some (x, w')"
  shows "mid_pool w' = mid_pool w"
  using assms by (auto simp: PerformDial_def Let_def split: option.splits)

lemma PrepareDial_cases:
  assumes "PrepareDial env r opts w = (res, w')"
  obtains (exhausted) "free_ports (mid_pool w) = []" "res = Inl ''PrepareDial: AcquirePort''"
      "w' = mw_do GateClosed (mw_upd r (CloseStream ''dial-forward'') w)"
  | (taken) port p' lg where "Acquire (mid_pool w) = (Inr port, p')" "lg = NewCalleeLeg port (me_contactIP env)"
      "res = Inr \<lparr> dh_leg = lg, dh_port = port \<rparr>" "mid_pool w' = p'"
      "w' = mw_do (PortTaken port) (mw_upd r (SetLeg 1 (Some lg))
        ((mw_do GateClosed (mw_upd r (CloseStream ''dial-forward'') w))\<lparr> mw_manager :=
          (mw_manager (mw_upd r (CloseStream ''dial-forward'') w))\<lparr> cm_portPool := p' \<rparr> \<rparr>))"
proof -
  obtain a p' where acq: "Acquire (mid_pool w) = (a, p')" by fastforce
  show ?thesis
  proof (cases a)
    case (Inl e)
    then have "p' = mid_pool w" "free_ports (mid_pool w) = []" using acq pool.acquire_fail by blast+
    then show ?thesis
      using assms acq Inl
      by (intro exhausted) (auto simp: PrepareDial_def AcquirePort_def mid_pool_def mw_do_def mw_upd_def upd_session_def)
  next
    case (Inr port)
    then show ?thesis
      using assms acq
      by (intro taken[OF acq[unfolded Inr] refl])
        (auto simp: PrepareDial_def AcquirePort_def mid_pool_def mw_do_def mw_upd_def upd_session_def Let_def)
  qed
qed

text \<open>Of the ports of the pool \<^verbatim>\<open>[lo, hi)\<close>, those that are held are those that are
  not free.\<close>

definition mid_ok :: "int \<Rightarrow> int \<Rightarrow> mid_world \<Rightarrow> bool" where
  "mid_ok lo hi w \<longleftrightarrow> mset (free_ports (mid_pool w)) \<subseteq># mset [lo..hi - 1] \<and> pool_cap (mid_pool w) = nat (hi - lo)"

definition mid_held :: "int \<Rightarrow> int \<Rightarrow> mid_world \<Rightarrow> int multiset" where
  "mid_held lo hi w = mset [lo..hi - 1] - mset (free_ports (mid_pool w))"

lemma mid_contract_cong: "mid_pool w' = mid_pool w \<Longrightarrow> mid_ok lo hi w' = mid_ok lo hi w \<and> mid_held lo hi w' = mid_held lo hi w"
  by (simp add: mid_ok_def mid_held_def)

lemma mid_ok_iff:
  "mid_ok lo hi w \<and> mid_held lo hi w = H \<longleftrightarrow>
    mset [lo..hi - 1] = mset (free_ports (mid_pool w)) + H \<and> pool_cap (mid_pool w) = nat (hi - lo)"
  by (auto simp: mid_ok_def mid_held_def)

lemma mid_take:
  assumes "mid_ok lo hi w" "Acquire (mid_pool w) = (Inr port, mid_pool w')"
  shows "mid_ok lo hi w' \<and> mid_held lo hi w' = add_mset port (mid_held lo hi w)"
  using assms(1) mid_ok_iff[of lo hi w "mid_held lo hi w"] pool.acquire_ok[OF assms(2)]
  by (simp add: mid_ok_iff)

lemma mid_give:
  assumes "mid_ok lo hi w" "mid_held lo hi w = add_mset (dh_port h) M"
  shows "mid_ok lo hi (dial_release h w) \<and> mid_held lo hi (dial_release h w) = M"
proof -
  have all: "mset [lo..hi - 1] = mset (free_ports (mid_pool w)) + add_mset (dh_port h) M" "pool_cap (mid_pool w) = nat (hi - lo)"
    using mid_ok_iff[of lo hi w] assms by blast+
  then have "size (mset [lo..hi - 1]) = Suc (length (free_ports (mid_pool w)) + size M)" by (simp)
  then have "length (free_ports (mid_pool w)) < pool_cap (mid_pool w)" using all(2) by (simp)
  from pool.release_ok[OF this, of "dh_port h"] all show ?thesis
    unfolding mid_ok_iff by (simp add: dial_release_def ReleasePort_def mw_do_def mid_pool_def)
qed

text \<open>The interface of the dispatcher, discharged by the adapter.\<close>

interpretation adapter: dial_resources "midCallAdapter env r" "mid_held lo hi" dh_port "mid_ok lo hi" for env r lo hi
proof
  fix w opts e w'
  assume "mid_ok lo hi w" "dt_PrepareDial (midCallAdapter env r) opts w = (Inl e, w')"
  then show "mid_ok lo hi w' \<and> mid_held lo hi w' = mid_held lo hi w"
    by (auto simp: midCallAdapter_def mid_ok_def mid_held_def elim!: PrepareDial_cases)
next
  fix w opts h w'
  assume "mid_ok lo hi w" "dt_PrepareDial (midCallAdapter env r) opts w = (Inr h, w')"
  then show "mid_ok lo hi w' \<and> mid_held lo hi w' = add_mset (dh_port h) (mid_held lo hi w)"
    using mid_take by (auto simp: midCallAdapter_def elim!: PrepareDial_cases)
next
  fix w target opts h res w'
  assume "mid_ok lo hi w" "dt_PerformDial (midCallAdapter env r) target opts h w = Some (res, w')"
  then show "mid_ok lo hi w' \<and> mid_held lo hi w' = mid_held lo hi w"
    using PerformDial_pool[of env r target opts h w res w'] mid_contract_cong[of w' w lo hi] by (simp add: midCallAdapter_def)
next
  fix w reason err w'
  assume "mid_ok lo hi w" "dt_Terminate (midCallAdapter env r) reason w = (err, w')"
  then have "mid_pool w' = mid_pool w" using mid_terminate_pool[of env r reason w] by (simp add: midCallAdapter_def)
  then show "mid_ok lo hi w' \<and> mid_held lo hi w' = mid_held lo hi w"
    using mid_contract_cong \<open>mid_ok lo hi w\<close> by blast
next
  fix w M and h :: dial_handle
  assume "mid_ok lo hi w" "mid_held lo hi w = add_mset (dh_port h) M"
  then show "mid_ok lo hi (dt_Release (midCallAdapter env r) h w) \<and> mid_held lo hi (dt_Release (midCallAdapter env r) h w) = M"
    using mid_give by (simp add: midCallAdapter_def)
qed

section \<open>A document sent to a live call\<close>

lemma mw_simps [simp]:
  "mw_log (mw_do e w) = mw_log w @ [e]" "mw_log (mw_upd r f w) = mw_log w" "mw_fwd (mw_do e w) = mw_fwd w"
  "mw_fwd (mw_upd r f w) = mw_fwd w" "cm_heap (mw_manager (mw_do e w)) = cm_heap (mw_manager w)"
  "length (cm_heap (mw_manager (mw_upd r f w))) = length (cm_heap (mw_manager w))"
  "mw_session r (mw_do e w) = mw_session r w"
  "r < length (cm_heap (mw_manager w)) \<Longrightarrow> mw_session r (mw_upd r f w) = f (mw_session r w)"
  by (simp_all add: mw_do_def mw_upd_def mw_session_def upd_session_def)

lemma mw_manager_pool [simp]:
  "cm_heap m = cm_heap (mw_manager w) \<Longrightarrow> mw_session r (w\<lparr> mw_manager := m \<rparr>) = mw_session r w"
  "mw_session r (w\<lparr> mw_fwd := f \<rparr>) = mw_session r w" "cm_heap (ReleasePort p m') = cm_heap m'"
  by (simp_all add: mw_session_def ReleasePort_def)

lemma leg_bye_streamClosed [simp]: "s_streamClosed (snd (leg_bye b i s)) = s_streamClosed s"
  by (simp add: leg_bye_def update_leg_def Let_def split: option.split)

lemma bye_all_streamClosed [simp]: "s_streamClosed (snd (bye_all b is s)) = s_streamClosed s"
  by (induction "is" arbitrary: s) (simp_all add: split_beta Let_def)

lemma Terminate_streamClosed [simp]: "s_streamClosed (snd (Terminate f b t r s)) = s_streamClosed s"
  by (simp add: Terminate_def Let_def)

text \<open>A call that has ended, and the reason that counts: the first one.\<close>

definition ended_for :: "string \<Rightarrow> call_session \<Rightarrow> call_session \<Rightarrow> bool" where
  "ended_for reason s s' \<longleftrightarrow> EndTime s' \<noteq> None \<and>
    (\<not> s_terminateOnce s \<longrightarrow> Status s' = twilioStatusFromTermReason reason)"

lemma Terminate_ends:
  assumes "term_wf s"
  shows "ended_for reason s (snd (Terminate f b t reason s))"
  using assms
  by (auto simp: ended_for_def EndTime_def Status_def Terminate_frame markTerminated_terminal term_wf_def)

lemma mid_terminate_effect:
  assumes "mid_terminate env r reason w = (e, w')" "r < length (cm_heap (mw_manager w))" "term_wf (mw_session r w)"
  shows "mw_log w' = mw_log w @ [Ended reason]" "mw_fwd w' = mw_fwd w"
    "ended_for reason (mw_session r w) (mw_session r w')"
    "s_streamClosed (mw_session r w') = s_streamClosed (mw_session r w)"
  using assms Terminate_ends[OF assms(3)] by (auto simp: mid_terminate_def split_beta)

definition gate_wf :: "call_session \<Rightarrow> bool" where
  "gate_wf s \<longleftrightarrow> (s_closeStreamOnce s \<longrightarrow> s_streamClosed s)"

lemma CloseStream_closes: "gate_wf s \<Longrightarrow> s_streamClosed (CloseStream reason s)"
  by (simp add: gate_wf_def CloseStream_def state_cas_def Let_def)

lemma untouched_term: "untouched s s' \<Longrightarrow> term_wf s' = term_wf s \<and> s_terminateOnce s' = s_terminateOnce s"
  by (simp add: untouched_def term_wf_def)

lemma SetLeg_keeps: "untouched s (SetLeg i l s')= untouched s s'" "s_streamClosed (SetLeg i l s) = s_streamClosed s"
  by (simp_all add: SetLeg_def Let_def)

lemma PrepareDial_effect:
  assumes "PrepareDial env r opts w = (res, w')" "r < length (cm_heap (mw_manager w))" "gate_wf (mw_session r w)"
  shows "untouched (mw_session r w) (mw_session r w')" "s_streamClosed (mw_session r w')"
    "mw_fwd w' = mw_fwd w" "length (cm_heap (mw_manager w')) = length (cm_heap (mw_manager w))"
    "(\<exists>e. res = Inl e) \<and> mw_log w' = mw_log w @ [GateClosed] \<or>
     (\<exists>h. res = Inr h \<and> dh_port h \<in> set (free_ports (mid_pool w)) \<and> mw_log w' = mw_log w @ [GateClosed, PortTaken (dh_port h)])"
proof -
  note keep = CloseStream_untouched[of "mw_session r w" "''dial-forward''"] CloseStream_closes[OF assms(3), of "''dial-forward''"]
  have pick: "port \<in> set (free_ports p)" if "Acquire p = (Inr port, p')" for p p' port
    using pool.acquire_ok[OF that] by (metis set_mset_mset union_single_eq_member set_mset_add_mset_insert insertI1)
  note keep assms(2) pick SetLeg_keeps
  note rules = this
  from assms(1) show "untouched (mw_session r w) (mw_session r w')"
    by (cases rule: PrepareDial_cases) (use rules in simp_all)
  from assms(1) show "s_streamClosed (mw_session r w')"
    by (cases rule: PrepareDial_cases) (use rules in simp_all)
  from assms(1) show "mw_fwd w' = mw_fwd w" "length (cm_heap (mw_manager w')) = length (cm_heap (mw_manager w))"
    by (cases rule: PrepareDial_cases; simp)+
  from assms(1) show "(\<exists>e. res = Inl e) \<and> mw_log w' = mw_log w @ [GateClosed] \<or>
     (\<exists>h. res = Inr h \<and> dh_port h \<in> set (free_ports (mid_pool w)) \<and> mw_log w' = mw_log w @ [GateClosed, PortTaken (dh_port h)])"
    by (cases rule: PrepareDial_cases) (use rules in auto)
qed

lemma PerformDial_effect:
  assumes "PerformDial env r target opts h w = Some ((res, err), w')" "r < length (cm_heap (mw_manager w))"
  obtains d posts where "res = Some d" "mw_log w' = mw_log w @ [Dialled (r_Status d)] @ map ActionPosted posts"
    "length posts = (if o_Action opts = '''' then 0 else 1)" "untouched (mw_session r w) (mw_session r w')"
    "s_streamClosed (mw_session r w') = s_streamClosed (mw_session r w)"
    "length (cm_heap (mw_manager w')) = length (cm_heap (mw_manager w))"
proof -
  obtain d e f where dial: "mid_dial env r target opts w = Some ((d, e), f)"
    using assms(1) by (auto simp: PerformDial_def split: option.splits)
  have keep: "dial_keeps (mw_session r w) (fw_session f)"
    using Dial_keeps[OF dial[unfolded mid_dial_def Let_def]] by simp
  let ?w1 = "mw_do (Dialled (r_Status d)) (mw_upd r (\<lambda>_. fw_session f) (w\<lparr> mw_fwd := f \<rparr>))"
  let ?post = "fireActionCallback env (mw_session r ?w1) (o_Action opts) (o_Method opts) (Some d)"
  have w1: "mw_session r ?w1 = fw_session f" using assms(2) by simp
  have post: "?post = None \<longleftrightarrow> o_Action opts = ''''"
    by (simp add: fireActionCallback_def Let_def split: sum.split)
  have w': "w' = (case ?post of None \<Rightarrow> ?w1 | Some a \<Rightarrow> mw_do (ActionPosted a) ?w1)" "res = Some d"
    using assms(1) dial by (auto simp: PerformDial_def Let_def)
  show ?thesis
    using w' post keep w1
    by (intro that[of d "case ?post of None \<Rightarrow> [] | Some a \<Rightarrow> [a]"]) (auto simp: dial_keeps_def split: option.split)
qed

text \<open>What the log holds after a dial on the given ports.\<close>

definition dial_trace :: "int set \<Rightarrow> bool \<Rightarrow> mid_effect list \<Rightarrow> string \<Rightarrow> bool" where
  "dial_trace ports action es reason \<longleftrightarrow>
    es = [GateClosed, Ended ''failed''] \<and> reason = ''failed'' \<or>
    (\<exists>p st posts. p \<in> ports \<and> reason = twilioDialCallStatus st \<and> length posts = (if action then 1 else 0) \<and>
      es = [GateClosed, PortTaken p, Dialled st] @ map ActionPosted posts @ [Ended reason, PortGiven p])"

lemma dialHandler_trace:
  assumes run: "dialHandler (midCallAdapter env r) d w = Some (e, w')" and r: "r < length (cm_heap (mw_manager w))"
    and log: "mw_log w = []" and wf: "term_wf (mw_session r w)" "gate_wf (mw_session r w)"
    and target: "fst (ResolveDialTarget d) \<noteq> ''''"
  shows "\<exists>reason. dial_trace (set (free_ports (mid_pool w))) (d_Action d \<noteq> '''') (mw_log w') reason \<and>
      ended_for reason (mw_session r w) (mw_session r w')" "s_streamClosed (mw_session r w')"
proof -
  obtain res w1 where prep: "PrepareDial env r (dial_opts_of d) w = (res, w1)" by fastforce
  note eff = PrepareDial_effect[OF prep r wf(2)]
  have r1: "r < length (cm_heap (mw_manager w1))" using r eff(4) by simp
  have wf1: "term_wf (mw_session r w1)" using wf(1) untouched_term[OF eff(1)] by simp
  have ended: "ended_for reason (mw_session r w) s' = ended_for reason (mw_session r w1) s'" for reason s'
    using untouched_term[OF eff(1)] by (simp add: ended_for_def)
  have action: "o_Action (dial_opts_of d) = d_Action d" by (simp add: dial_opts_of_def Let_def)
  have "(\<exists>reason. dial_trace (set (free_ports (mid_pool w))) (d_Action d \<noteq> '''') (mw_log w') reason \<and>
      ended_for reason (mw_session r w) (mw_session r w')) \<and> s_streamClosed (mw_session r w')"
  proof (cases res)
    case (Inl msg)
    then have t: "mid_terminate env r ''failed'' w1 = (e, w')"
      using run target prep by (simp add: dialHandler_def midCallAdapter_def)
    from mid_terminate_effect[OF t r1 wf1] eff(2,5) Inl log show ?thesis
      by (auto simp: dial_trace_def ended)
  next
    case (Inr h)
    then obtain x err w2 where perf: "PerformDial env r (fst (ResolveDialTarget d)) (dial_opts_of d) h w1 = Some ((x, err), w2)"
      using run target prep by (auto simp: dialHandler_def midCallAdapter_def Let_def split: option.splits)
    from PerformDial_effect[OF perf r1] obtain y posts where x: "x = Some y"
      "mw_log w2 = mw_log w1 @ [Dialled (r_Status y)] @ map ActionPosted posts"
      "length posts = (if d_Action d = '''' then 0 else 1)" "untouched (mw_session r w1) (mw_session r w2)"
      "s_streamClosed (mw_session r w2) = s_streamClosed (mw_session r w1)"
      "length (cm_heap (mw_manager w2)) = length (cm_heap (mw_manager w1))"
      unfolding action by blast
    obtain w3 where t: "mid_terminate env r (twilioDialCallStatus (r_Status y)) w2 = (e, w3)" "w' = dial_release h w3"
      using run target prep Inr perf x(1)
      by (auto simp: dialHandler_def midCallAdapter_def dial_status_translations split: prod.splits)
    have "r < length (cm_heap (mw_manager w2))" "term_wf (mw_session r w2)"
      using r1 wf1 x(6) untouched_term[OF x(4)] by simp_all
    note fin = mid_terminate_effect[OF t(1) this]
    have s': "mw_session r w' = mw_session r w3" "mw_log w' = mw_log w3 @ [PortGiven (dh_port h)]"
      by (simp_all add: t(2) dial_release_def)
    have fin_ended: "ended_for (twilioDialCallStatus (r_Status y)) (mw_session r w) (mw_session r w')"
      using fin(3) untouched_term[OF x(4)] untouched_term[OF eff(1)] by (simp add: s' ended_for_def)
    have "dh_port h \<in> set (free_ports (mid_pool w))" "mw_log w1 = [GateClosed, PortTaken (dh_port h)]"
      using eff(5) Inr log by auto
    then have "dial_trace (set (free_ports (mid_pool w))) (d_Action d \<noteq> '''') (mw_log w') (twilioDialCallStatus (r_Status y))"
      unfolding dial_trace_def using s' fin(1) x(2,3)
      by (intro disjI2 exI[of _ "dh_port h"] exI[of _ "r_Status y"] exI[of _ posts]) auto
    with fin_ended show ?thesis
      using s' fin(4) x(5) eff(2) by auto
  qed
  then show "\<exists>reason. dial_trace (set (free_ports (mid_pool w))) (d_Action d \<noteq> '''') (mw_log w') reason \<and>
      ended_for reason (mw_session r w) (mw_session r w')" "s_streamClosed (mw_session r w')" by blast+
qed


text \<open>The forwarder is at work only in a dial, and then only after the stream to the bot
  has been closed.\<close>

lemma mid_terminate_fwd [simp]: "mw_fwd (snd (mid_terminate env r reason w)) = mw_fwd w"
  by (simp add: mid_terminate_def split_beta)

lemma dialHandler_dials:
  assumes run: "dialHandler (midCallAdapter env r) d w = Some (e, w')" and r: "r < length (cm_heap (mw_manager w))"
    and wf: "gate_wf (mw_session r w)"
  shows "mw_fwd w' = mw_fwd w \<or>
    (\<exists>w1 x. fst (ResolveDialTarget d) \<noteq> '''' \<and> mw_fwd w1 = mw_fwd w \<and> s_streamClosed (mw_session r w1) \<and>
       mid_dial env r (fst (ResolveDialTarget d)) (dial_opts_of d) w1 = Some (x, mw_fwd w'))"
proof (cases "fst (ResolveDialTarget d) = ''''")
  case True
  then show ?thesis using run by (simp add: dialHandler_def)
next
  case target: False
  obtain res w1 where prep: "PrepareDial env r (dial_opts_of d) w = (res, w1)" by fastforce
  note eff = PrepareDial_effect[OF prep r wf]
  show ?thesis
  proof (cases res)
    case (Inl msg)
    then have "mid_terminate env r ''failed'' w1 = (e, w')"
      using run target prep by (simp add: dialHandler_def midCallAdapter_def)
    then show ?thesis using mid_terminate_fwd[of env r "''failed''" w1] eff(3) by simp
  next
    case (Inr h)
    then obtain x err w2 where perf: "PerformDial env r (fst (ResolveDialTarget d)) (dial_opts_of d) h w1 = Some ((x, err), w2)"
        "w' = dial_release h (snd (mid_terminate env r (twilioReasonFromDialResult x) w2))"
      using run target prep by (auto simp: dialHandler_def midCallAdapter_def Let_def split: option.splits prod.splits)
    then obtain y f where dial: "mid_dial env r (fst (ResolveDialTarget d)) (dial_opts_of d) w1 = Some (y, f)" "mw_fwd w2 = f"
      by (auto simp: PerformDial_def Let_def split: option.splits)
    have "mw_fwd w' = f" using perf(2) dial(2) by (simp add: dial_release_def)
    with dial(1) target eff(2,3) show ?thesis by blast
  qed
qed

lemma Dispatch_dials:
  assumes "Dispatch True (midCallAdapter env r) vs w = Some (e, w')" "r < length (cm_heap (mw_manager w))"
    and "gate_wf (mw_session r w)" "mw_fwd w' \<noteq> mw_fwd w"
  obtains d w1 x where "first_effect vs = Some (VDial d)" "fst (ResolveDialTarget d) \<noteq> ''''" "mw_fwd w1 = mw_fwd w"
    "s_streamClosed (mw_session r w1)" "mid_dial env r (fst (ResolveDialTarget d)) (dial_opts_of d) w1 = Some (x, mw_fwd w')"
proof (cases "\<exists>d. first_effect vs = Some (VDial d)")
  case True
  then obtain d where d: "first_effect vs = Some (VDial d)" "dialHandler (midCallAdapter env r) d w = Some (e, w')"
    using assms(1) by (auto simp: Dispatch_first_effect)
  from dialHandler_dials[OF d(2) assms(2,3)] assms(4) that[OF d(1)] show thesis by blast
next
  case False
  then have "w' = w \<or> mid_terminate env r ''hangup'' w = (e, w')"
    using assms(1) by (auto simp: Dispatch_first_effect hangupHandler_def midCallAdapter_def split: option.splits verb.splits)
  with assms(4) show thesis by (metis mid_terminate_fwd snd_conv)
qed

text \<open>C2. A TwiML document sent to a live call is carried out safely: it does what its
  first effective verb says and nothing else.  A dial first closes the stream to
  the bot, then takes one port, dials, ends the caller's call and gives the same
  port back, in this order and whatever happens to the dial; it posts one action
  callback if one is asked for; after it the stock of free ports is what it was,
  the call has ended, under the status of the dial unless it had ended before,
  and the forwarder has been at work only if the stream is closed.\<close>

theorem midcall_document:
  assumes run: "Dispatch True (midCallAdapter env r) vs w = Some (e, w')"
    and r: "r < length (cm_heap (mw_manager w))" and log: "mw_log w = []" and ok: "mid_ok lo hi w"
    and wf: "term_wf (mw_session r w)" "gate_wf (mw_session r w)"
  shows "mset (free_ports (mid_pool w')) = mset (free_ports (mid_pool w)) \<and>
    (case first_effect vs of
       Some (VDial d) \<Rightarrow>
         if fst (ResolveDialTarget d) = '''' then w' = w
         else s_streamClosed (mw_session r w') \<and>
           (\<exists>reason. dial_trace (set (free_ports (mid_pool w))) (d_Action d \<noteq> '''') (mw_log w') reason \<and>
              ended_for reason (mw_session r w) (mw_session r w'))
     | Some v \<Rightarrow> mw_log w' = [Ended ''hangup''] \<and> ended_for ''hangup'' (mw_session r w) (mw_session r w') \<and>
         fw_log (mw_fwd w') = fw_log (mw_fwd w)
     | None \<Rightarrow> w' = w)"
proof
  from adapter.Dispatch_no_leak[OF ok run] have "mset [lo..hi - 1] = mset (free_ports (mid_pool w')) + mid_held lo hi w"
    using mid_ok_iff by blast
  moreover have "mset [lo..hi - 1] = mset (free_ports (mid_pool w)) + mid_held lo hi w"
    using ok mid_ok_iff by blast
  ultimately show "mset (free_ports (mid_pool w')) = mset (free_ports (mid_pool w))" by simp
  show "case first_effect vs of
       Some (VDial d) \<Rightarrow>
         if fst (ResolveDialTarget d) = '''' then w' = w
         else s_streamClosed (mw_session r w') \<and>
           (\<exists>reason. dial_trace (set (free_ports (mid_pool w))) (d_Action d \<noteq> '''') (mw_log w') reason \<and>
              ended_for reason (mw_session r w) (mw_session r w'))
     | Some v \<Rightarrow> mw_log w' = [Ended ''hangup''] \<and> ended_for ''hangup'' (mw_session r w) (mw_session r w') \<and>
         fw_log (mw_fwd w') = fw_log (mw_fwd w)
     | None \<Rightarrow> w' = w"
  proof (cases "first_effect vs")
    case None
    then show ?thesis using run by (simp add: Dispatch_first_effect)
  next
    case (Some v)
    show ?thesis
    proof (cases "\<exists>d. v = VDial d")
      case True
      then obtain d where v: "v = VDial d" by blast
      then have d: "dialHandler (midCallAdapter env r) d w = Some (e, w')"
        using run Some by (simp add: Dispatch_first_effect)
      show ?thesis
        using dialHandler_trace[OF d r log wf] d by (auto simp: Some v dialHandler_def)
    next
      case False
      then have "hangupHandler (midCallAdapter env r) w = (e, w')"
        using run Some by (simp add: Dispatch_first_effect split: verb.splits)
      then have "mid_terminate env r ''hangup'' w = (e, w')" by (simp add: hangupHandler_def midCallAdapter_def)
      from mid_terminate_effect[OF this r wf(1)] False log show ?thesis
        by (auto simp: Some split: verb.split)
    qed
  qed
qed

text \<open>A document that dials comes to its end: when the callee or the caller ends the
  dialog, or at the time limit, which is four hours when the document sets none.\<close>

lemma Dispatch_returns:
  assumes "DialogDone \<in> set (dw_events (me_world env)) \<or> CtxDone \<in> set (dw_events (me_world env))"
  shows "\<exists>e w'. Dispatch True (midCallAdapter env r) vs w = Some (e, w')"
proof -
  have dial: "mid_dial env r target opts w \<noteq> None" for target opts w
    using Dial_returns[of "me_world env"] assms unfolding mid_dial_def Let_def by (metis option.distinct(1))
  have perf: "PerformDial env r target opts h w \<noteq> None" for target opts h w
    using dial[of target opts w] by (auto simp: PerformDial_def Let_def split: option.split)
  have "dialHandler (midCallAdapter env r) d w \<noteq> None" for d
    using perf
    by (auto simp: dialHandler_def midCallAdapter_def Let_def simp del: not_None_eq split: sum.split option.split prod.split)
  then have "Dispatch True (midCallAdapter env r) vs w \<noteq> None"
    by (simp add: Dispatch_first_effect split: option.split verb.split)
  then show ?thesis by auto
qed

section \<open>A concrete document\<close>

definition demo_mid :: mid_env where
  "demo_mid = \<lparr> me_session = demo_senv, me_fwd = demo_fenv, me_cfg = demo_fcfg, me_contactIP = ''10.0.0.1'',
     me_newreq = (\<lambda>m u. Inr u), me_token = ''tok'', me_poster = True, me_clock = 100, me_dialCallSid = ''CA2'',
     me_world = demo_busy, me_end = 9 \<rparr>"

definition demo_live :: mid_world where
  "demo_live = \<lparr> mw_manager = demo_manager\<lparr> cm_heap := [(new_session ''id'' ''CA1'' ''AC1'' ''a'' ''b'' 0 True demo_leg)
        \<lparr> s_state := StateStreaming \<rparr>] \<rparr>, mw_fwd = demo_fwd\<lparr> fw_statusWC := None \<rparr>, mw_log = [] \<rparr>"

definition demo_document :: "verb list" where
  "demo_document = [VUnknown ''Say'', VDial (empty_dial\<lparr> d_NumberText := ''+49301'' \<rparr>), VHangup]"

lemma demo_document_run:
  "map_option (\<lambda>(e, w). (length (mw_log w), Status (mw_session 0 w))) (Dispatch True (midCallAdapter demo_mid 0) demo_document demo_live) =
    Some (5, ''busy'')"
  by code_simp

theorem midcall_document_witness:
  "\<exists>e w'. Dispatch True (midCallAdapter demo_mid 0) demo_document demo_live = Some (e, w') \<and>
    mset (free_ports (mid_pool w')) = {#10000, 10001#} \<and> s_streamClosed (mw_session 0 w') \<and> Status (mw_session 0 w') = ''busy''"
proof -
  from demo_document_run obtain e w' where D: "Dispatch True (midCallAdapter demo_mid 0) demo_document demo_live = Some (e, w')"
    "Status (mw_session 0 w') = ''busy''" by auto
  have h: "0 < length (cm_heap (mw_manager demo_live))" "mw_log demo_live = []" "mid_ok 10000 10002 demo_live"
    "term_wf (mw_session 0 demo_live)" "gate_wf (mw_session 0 demo_live)" "free_ports (mid_pool demo_live) = [10000, 10001]"
    by (simp_all add: demo_live_def demo_manager_def NewCallManager_def mid_ok_def mid_pool_def free_ports_def pool_cap_def
        mw_session_def term_wf_def gate_wf_def new_session_def upto.simps)
  have "first_effect demo_document = Some (VDial (empty_dial\<lparr> d_NumberText := ''+49301'' \<rparr>))"
    "fst (ResolveDialTarget (empty_dial\<lparr> d_NumberText := ''+49301'' \<rparr>)) \<noteq> ''''"
    by (simp add: demo_document_def) code_simp
  with midcall_document[OF D(1) h(1-5)] D h(6) show ?thesis by auto
qed

end
