(* ===== verification/Rest_Json.thy ===== *)
theory Rest_Json
  imports Call_Manager
begin

text \<open>
  What the REST API sends: the Twilio-shaped errors of \<^verbatim>\<open>api/errors.go\<close>, and the
  call resource and the page envelope of \<^verbatim>\<open>api/json.go\<close>.  A resource is the Go
  struct before \<^verbatim>\<open>encoding/json\<close> renders it; a nil pointer, which is rendered as
  an explicit null, is \<^const>\<open>None\<close>.  Page arithmetic is in \<^verbatim>\<open>int\<close> of 64 bits.
\<close>

section \<open>Errors\<close>

record api_error =
  ae_Code :: int
  ae_Message :: string
  ae_MoreInfo :: string
  ae_Status :: int

definition newError :: "int \<Rightarrow> string \<Rightarrow> int \<Rightarrow> api_error" where
  "newError code message status =
    \<lparr> ae_Code = code, ae_Message = message, ae_MoreInfo = ''https://www.twilio.com/docs/errors/'' @ itoa code,
      ae_Status = status \<rparr>"

definition ErrAuthRequired :: api_error where
  "ErrAuthRequired = newError 20003 ''Authentication Error - No credentials provided'' 401"

definition ErrNotFound :: "string \<Rightarrow> api_error" where
  "ErrNotFound resource = newError 20404 (''The requested resource '' @ resource @ '' was not found'') 404"

definition ErrInvalidParams :: "string \<Rightarrow> api_error" where
  "ErrInvalidParams detail = newError 21218 (''Invalid parameters: '' @ detail) 400"

definition ErrCallNotInProgress :: api_error where
  "ErrCallNotInProgress = newError 21220 ''Invalid call state for the requested operation'' 400"

definition ErrTwimlParseFailure :: api_error where
  "ErrTwimlParseFailure = newError 12100 ''Document parse failure'' 400"

definition ErrTooManyRequests :: api_error where
  "ErrTooManyRequests = newError 20429 ''Too Many Requests'' 429"

definition ErrHTTPRetrievalFailure :: "string \<Rightarrow> api_error" where
  "ErrHTTPRetrievalFailure detail = newError 11200 (''HTTP retrieval failure: '' @ detail) 400"

definition ErrPayloadTooLarge :: api_error where
  "ErrPayloadTooLarge = newError 21617 ''Request body exceeds 64KB limit'' 413"

lemmas api_error_defs = newError_def ErrAuthRequired_def ErrNotFound_def ErrInvalidParams_def
  ErrCallNotInProgress_def ErrTwimlParseFailure_def ErrTooManyRequests_def ErrHTTPRetrievalFailure_def
  ErrPayloadTooLarge_def

section \<open>The call resource\<close>

text \<open>The getters of the REST API on a call, live or ended.  Times are nanoseconds
  since the epoch; Go's zero time is the first of January of the year 1.  Both
  kinds of call give the empty string for who answered and for the parent call.\<close>

definition zero_time :: int where "zero_time = - 62135596800000000000"

fun view_endTime :: "bridge_call \<Rightarrow> int option" where
  "view_endTime (LiveCall s) = EndTime s"
| "view_endTime (EndedCall t) = tc_endTime t"

fun view_status :: "bridge_call \<Rightarrow> string" where
  "view_status (LiveCall s) = Status s"
| "view_status (EndedCall t) = tc_status t"

fun view_duration :: "bridge_call \<Rightarrow> int" where
  "view_duration (LiveCall s) = Duration s"
| "view_duration (EndedCall t) = tc_duration t"

fun view_parties :: "bridge_call \<Rightarrow> string \<times> string \<times> string \<times> string" where
  "view_parties (LiveCall s) = (s_accountSid s, s_from s, s_to s, ''inbound'')"
| "view_parties (EndedCall t) = (tc_accountSid t, tc_from t, tc_to t, tc_direction t)"

record call_json =
  cj_Sid :: string
  cj_AccountSid :: string
  cj_From :: string
  cj_To :: string
  cj_Status :: string
  cj_StartTime :: "string option"
  cj_EndTime :: "string option"
  cj_Duration :: "int option"
  cj_Direction :: string
  cj_AnsweredBy :: "string option"
  cj_ParentCallSid :: "string option"
  cj_APIVersion :: string
  cj_URI :: string
  cj_SubresourceURIs :: "(string \<times> string) list"

definition RFC2822 :: "(int \<Rightarrow> string) \<Rightarrow> int \<Rightarrow> string" where
  "RFC2822 rfc1123z t = (if t = zero_time then '''' else rfc1123z t)"

definition pathPrefix :: "string \<Rightarrow> string" where
  "pathPrefix accountSid = ''/2010-04-01/Accounts/'' @ accountSid"

definition SerializeCall :: "(int \<Rightarrow> string) \<Rightarrow> string \<Rightarrow> bridge_call \<Rightarrow> call_json" where
  "SerializeCall rfc1123z prefix c =
    (let sid = bc_callSid c; (acc, from, to, direction) = view_parties c;
         sub = (\<lambda>n. prefix @ ''/Calls/'' @ sid @ ''/'' @ n @ ''.json'')
     in \<lparr> cj_Sid = sid, cj_AccountSid = acc, cj_From = from, cj_To = to, cj_Status = view_status c,
          cj_StartTime = (if bc_startTime c = zero_time then None else Some (RFC2822 rfc1123z (bc_startTime c))),
          cj_EndTime = map_option (RFC2822 rfc1123z) (view_endTime c),
          cj_Duration = map_option (\<lambda>_. view_duration c) (view_endTime c),
          cj_Direction = direction, cj_AnsweredBy = None, cj_ParentCallSid = None, cj_APIVersion = ''2010-04-01'',
          cj_URI = prefix @ ''/Calls/'' @ sid @ ''.json'',
          cj_SubresourceURIs = [(''notifications'', sub ''Notifications''), (''recordings'', sub ''Recordings''),
            (''events'', sub ''Events''), (''siprec'', sub ''Siprec'')] \<rparr>)"

text \<open>End time and duration are given together, and only of a call that has ended.\<close>

lemma SerializeCall_ended:
  "cj_EndTime (SerializeCall f p c) = None \<longleftrightarrow> view_endTime c = None"
  "cj_Duration (SerializeCall f p c) = None \<longleftrightarrow> view_endTime c = None"
  "cj_EndTime (SerializeCall f p (LiveCall s)) \<noteq> None \<Longrightarrow> cj_Status (SerializeCall f p (LiveCall s)) \<noteq> ''in-progress''"
  by (simp_all add: SerializeCall_def split_beta Let_def)
    (auto simp: EndTime_def Status_def twilioStatusFromTermReason_def split: if_splits)

text \<open>The snapshot of an ended call reads as the live call did.\<close>

lemma SerializeCall_snapshot: "SerializeCall f p (EndedCall (snapshot s)) = SerializeCall f p (LiveCall s)"
  by (simp add: SerializeCall_def snapshot_def Let_def)

section \<open>Pages\<close>

record page_json =
  pj_Page :: int
  pj_PageSize :: int
  pj_Start :: int
  pj_End :: int
  pj_URI :: string
  pj_NextPageURI :: "string option"
  pj_PreviousPageURI :: "string option"
  pj_FirstPageURI :: string
  pj_Calls :: "call_json list"

definition clamp_size :: "int \<Rightarrow> int" where
  "clamp_size pageSize = (if pageSize < 1 then 50 else if pageSize > 1000 then 1000 else pageSize)"

definition page_uri :: "string \<Rightarrow> int \<Rightarrow> int \<Rightarrow> string" where
  "page_uri prefix page n = prefix @ ''/Calls.json?Page='' @ itoa page @ ''&PageSize='' @ itoa n"

text \<open>\<^const>\<open>None\<close> is the panic of a slice expression whose bounds are out of order.\<close>

definition go_slice :: "'a list \<Rightarrow> int \<Rightarrow> int \<Rightarrow> 'a list option" where
  "go_slice xs a b = (if 0 \<le> a \<and> a \<le> b \<and> b \<le> int (length xs) then Some (take (nat (b - a)) (drop (nat a) xs)) else None)"

definition SerializePage :: "(int \<Rightarrow> string) \<Rightarrow> bridge_call list \<Rightarrow> string \<Rightarrow> int \<Rightarrow> int \<Rightarrow> page_json option" where
  "SerializePage rfc1123z items prefix page0 pageSize0 =
    (let pageSize = clamp_size pageSize0; page = max 0 page0; total = int (length items);
         start0 = i64 (page * pageSize); end0 = i64 (start0 + pageSize);
         start = min start0 total; fin = min end0 total
     in map_option (\<lambda>sl.
          \<lparr> pj_Page = page, pj_PageSize = pageSize, pj_Start = start, pj_End = fin,
            pj_URI = page_uri prefix page pageSize,
            pj_NextPageURI = (if fin < total then Some (page_uri prefix (i64 (page + 1)) pageSize) else None),
            pj_PreviousPageURI = (if page > 0 then Some (page_uri prefix (page - 1) pageSize) else None),
            pj_FirstPageURI = page_uri prefix 0 pageSize,
            pj_Calls = map (SerializeCall rfc1123z prefix) sl \<rparr>)
        (go_slice items start fin))"

lemma clamp_size_range: "1 \<le> clamp_size n \<and> clamp_size n \<le> 1000"
  by (simp add: clamp_size_def)

lemma go_slice_page:
  assumes "0 \<le> a" "0 < s"
  shows "go_slice xs (min a (int (length xs))) (min (a + s) (int (length xs))) = Some (take (nat s) (drop (nat a) xs))"
proof (cases "a \<le> int (length xs)")
  case True
  then show ?thesis
    using assms by (cases "a + s \<le> int (length xs)") (auto simp: go_slice_def nat_add_distrib)
next
  case False
  then show ?thesis using assms by (simp add: go_slice_def)
qed

text \<open>The pages of which the start fits an \<^verbatim>\<open>int\<close>.\<close>

definition page_fits :: "int \<Rightarrow> int \<Rightarrow> bool" where
  "page_fits page n \<longleftrightarrow> 0 \<le> page \<and> page * n + n < 2 ^ 63"

lemma SerializePage_eq:
  assumes "page_fits page (clamp_size n)"
  shows "\<exists>pj. SerializePage f items prefix page n = Some pj \<and>
    pj_Calls pj = map (SerializeCall f prefix) (take (nat (clamp_size n)) (drop (nat (page * clamp_size n)) items)) \<and>
    (pj_NextPageURI pj = None \<longleftrightarrow> int (length items) \<le> (page + 1) * clamp_size n) \<and>
    (pj_NextPageURI pj \<noteq> None \<longrightarrow> pj_NextPageURI pj = Some (page_uri prefix (page + 1) (clamp_size n))) \<and>
    (pj_PreviousPageURI pj = None \<longleftrightarrow> page = 0)"
proof -
  let ?s = "clamp_size n"
  have s: "1 \<le> ?s" "?s \<le> 1000" using clamp_size_range by auto
  have p: "0 \<le> page" "0 \<le> page * ?s" "page * ?s + ?s < 2 ^ 63" using assms s by (auto simp: page_fits_def)
  have "page \<le> page * ?s" using p s by (simp add: mult_le_cancel_left1)
  then have i: "i64 (page * ?s) = page * ?s" "i64 (page * ?s + ?s) = page * ?s + ?s" "i64 (page + 1) = page + 1"
    using p s by (auto intro!: i64_id)
  have d: "(page + 1) * ?s = page * ?s + ?s" by (simp add: algebra_simps)
  show ?thesis
    using p s i go_slice_page[of "page * ?s" ?s items] by (auto simp: SerializePage_def Let_def d)
qed

lemma concat_pages:
  assumes "0 < s" "length xs \<le> k * s"
  shows "concat (map (\<lambda>p. take s (drop (p * s) xs)) [0..<k]) = xs"
proof -
  have "concat (map (\<lambda>p. take s (drop (p * s) xs)) [0..<k]) = take (k * s) xs" for k
    by (induction k) (simp_all add: take_add[symmetric] add.commute)
  then show ?thesis using assms by simp
qed

text \<open>C37. Walking the pages gives every call exactly once and in order: as long as the
  page index fits the machine integer, every page is served, holds at most a
  thousand calls, links to the next page exactly if calls remain, and the pages
  together are the whole list.\<close>

theorem SerializePage_pages:
  assumes "page_fits (int k) (clamp_size n)" "int (length items) \<le> int k * clamp_size n"
  shows "\<exists>pages. map (\<lambda>p. SerializePage f items prefix (int p) n) [0..<k] = map Some pages \<and>
    concat (map pj_Calls pages) = map (SerializeCall f prefix) items \<and>
    (\<forall>p < k. length (pj_Calls (pages ! p)) \<le> 1000 \<and>
       pj_NextPageURI (pages ! p) = (if int (length items) \<le> (int p + 1) * clamp_size n then None
         else Some (page_uri prefix (int p + 1) (clamp_size n))))"
proof -
  let ?s = "clamp_size n"
  have s: "1 \<le> ?s" "?s \<le> 1000" using clamp_size_range by auto
  have fits: "page_fits (int p) ?s" if "p < k" for p
  proof -
    have "int p * ?s \<le> int k * ?s" using that s by (intro mult_right_mono) auto
    then show ?thesis using assms(1) by (simp add: page_fits_def)
  qed
  define pages where "pages = map (\<lambda>p. the (SerializePage f items prefix (int p) n)) [0..<k]"
  have page: "SerializePage f items prefix (int p) n = Some (pages ! p)" "p < k \<Longrightarrow> pj_Calls (pages ! p) =
      map (SerializeCall f prefix) (take (nat ?s) (drop (p * nat ?s) items))"
    "pj_NextPageURI (pages ! p) = (if int (length items) \<le> (int p + 1) * ?s then None else Some (page_uri prefix (int p + 1) ?s))"
    if "p < k" for p
    using SerializePage_eq[OF fits[OF that], of f items prefix] that s
    by (auto simp: pages_def nat_mult_distrib)
  have "concat (map pj_Calls pages) = map (SerializeCall f prefix) (concat (map (\<lambda>p. take (nat ?s) (drop (p * nat ?s) items)) [0..<k]))"
  proof -
    have "map pj_Calls pages = map (\<lambda>p. map (SerializeCall f prefix) (take (nat ?s) (drop (p * nat ?s) items))) [0..<k]"
      using page(2) by (intro nth_equalityI) (simp_all add: pages_def)
    then show ?thesis by (simp add: map_concat o_def)
  qed
  moreover have "int (length items) \<le> int (k * nat ?s)" using assms(2) s by simp
  then have "length items \<le> k * nat ?s" by linarith
  ultimately have "concat (map pj_Calls pages) = map (SerializeCall f prefix) items"
    using concat_pages[of "nat ?s" items k] s by simp
  moreover have "map (\<lambda>p. SerializePage f items prefix (int p) n) [0..<k] = map Some pages"
    using page(1) by (intro nth_equalityI) (simp_all add: pages_def)
  ultimately show ?thesis using page(2,3) s by (intro exI[of _ pages]) auto
qed

text \<open>A page index whose start does not fit is not caught: the product wraps to a
  negative start, and the slice expression panics.\<close>

lemma SerializePage_overflow:
  "SerializePage f items prefix (2 ^ 62) 2 = None"
  by (simp add: SerializePage_def clamp_size_def i64_def go_slice_def Let_def)

definition demo_calls :: "bridge_call list" where
  "demo_calls = map (\<lambda>t. EndedCall \<lparr> tc_callSid = [CHR ''C'', char_of (65 + t)], tc_accountSid = ''AC1'', tc_from = ''a'', tc_to = ''b'',
     tc_direction = ''inbound'', tc_status = ''completed'', tc_startTime = int t, tc_endTime = Some (int t + 5), tc_duration = 0 \<rparr>)
     [0..<5]"

theorem SerializePage_pages_witness:
  "\<exists>pages. map (\<lambda>p. SerializePage (\<lambda>t. ''x'') demo_calls ''/p'' (int p) 2) [0..<3] = map Some pages \<and>
    map cj_Sid (concat (map pj_Calls pages)) = [''CA'', ''CB'', ''CC'', ''CD'', ''CE'']"
proof -
  have h: "page_fits (int 3) (clamp_size 2)" "int (length demo_calls) \<le> int 3 * clamp_size 2"
    by (simp_all add: page_fits_def clamp_size_def demo_calls_def)
  have "map cj_Sid (map (SerializeCall (\<lambda>t. ''x'') ''/p'') demo_calls) = [''CA'', ''CB'', ''CC'', ''CD'', ''CE'']"
    by code_simp
  with SerializePage_pages[OF h, of "\<lambda>t. ''x''" "''/p''"] show ?thesis by (metis of_nat_numeral)
qed

end
