(* ===== verification/Rest_Api.thy ===== *)
theory Rest_Api
  imports Rest_Json Mid_Call Identity Observability
begin

text \<open>
  The Twilio-compatible REST API: the middleware of \<^verbatim>\<open>api/security.go\<close> and
  \<^verbatim>\<open>api/auth.go\<close>, the handlers of \<^verbatim>\<open>api/calls.go\<close> and their mounting in
  \<^verbatim>\<open>api/server.go\<close>.  A request is what \<^verbatim>\<open>net/http\<close> hands to the router; the
  state is the call manager together with the list of effects outside it
  (metrics, the warning of a rejected callback, fetches, and the TwiML that is
  handed to the dispatcher in the background, which \<open>Mid_Call\<close> carries out).
\<close>

section \<open>Requests, replies and state\<close>

datatype content_kind = UrlEncoded | OtherContent | BadContentType

text \<open>\<open>hi_contentLength\<close> is the declared length, -1 when unknown; \<open>hi_query\<close> is what
  \<^verbatim>\<open>URL.Query\<close> keeps of the raw query.\<close>

record http_in =
  hi_method :: string
  hi_contentLength :: int
  hi_content :: content_kind
  hi_body :: string
  hi_rawQuery :: string
  hi_query :: url_values
  hi_auth :: "(string \<times> string) option"

datatype api_body = ErrorBody api_error | CallBody call_json | PageBody page_json

record http_out =
  ho_status :: int
  ho_headers :: "(string \<times> string) list"
  ho_body :: api_body

datatype rest_effect =
    SsrfWarned string
  | ModifyCounted string string
  | RequestCounted string string string
  | Fetched "http_request list"
  | DispatchSpawned session_ref "verb list"

record rest =
  rs_manager :: call_manager
  rs_effects :: "rest_effect list"

definition rs_do :: "rest_effect list \<Rightarrow> rest \<Rightarrow> rest" where
  "rs_do es s = s\<lparr> rs_effects := rs_effects s @ es \<rparr>"

text \<open>What the API uses of other code: the adapter's environment, \<^verbatim>\<open>url.Parse\<close> (scheme
  and host name; host with port), \<^verbatim>\<open>net.ParseIP\<close>, the text of errors, \<^verbatim>\<open>%q\<close>, the XML
  decoder, the transport of the two fetch attempts and the rendering of times.\<close>

record api_env =
  ap_mid :: mid_env
  ap_url_parse :: "string \<Rightarrow> (string \<times> string) option"
  ap_url_host :: "string \<Rightarrow> string option"
  ap_parse_ip :: "string \<Rightarrow> ip option"
  ap_ssrf_msg :: "string \<Rightarrow> ssrf_error \<Rightarrow> string"
  ap_quote :: "string \<Rightarrow> string"
  ap_xml :: "string \<Rightarrow> xml_tok list \<times> xml_end"
  ap_send1 :: "http_request \<Rightarrow> string + http_reply"
  ap_send2 :: "http_request \<Rightarrow> string + http_reply"
  ap_fetch_msg :: "fetch_error \<Rightarrow> string"
  ap_rfc1123z :: "int \<Rightarrow> string"

record api_cfg =
  ac_accountSid :: string
  ac_authToken :: string

definition json_out :: "int \<Rightarrow> api_body \<Rightarrow> http_out" where
  "json_out status body = \<lparr> ho_status = status, ho_headers = [(''Content-Type'', ''application/json'')], ho_body = body \<rparr>"

definition WriteJSON :: "api_error \<Rightarrow> http_out" where
  "WriteJSON e = json_out (ae_Status e) (ErrorBody e)"

section \<open>Middleware\<close>

definition SecurityHeaders :: "(string \<times> string) list" where
  "SecurityHeaders =
    [(''Strict-Transport-Security'', ''max-age=63072000; includeSubDomains''),
     (''Content-Security-Policy'', ''default-src 'none'; frame-ancestors 'none'' @ [CHR 0x27]),
     (''X-Content-Type-Options'', ''nosniff'')]"

definition unauth :: http_out where
  "unauth = (let o1 = WriteJSON ErrAuthRequired in
     o1\<lparr> ho_headers := (''WWW-Authenticate'', ''Basic realm=\"Twilio API\"'') # ho_headers o1 \<rparr>)"

text \<open>\<^const>\<open>None\<close> lets the request pass.\<close>

definition BasicAuth :: "string \<Rightarrow> string \<Rightarrow> (string \<times> string) option \<Rightarrow> string \<Rightarrow> http_out option" where
  "BasicAuth accountSid authToken creds pathSid =
    (case creds of
       None \<Rightarrow> Some unauth
     | Some (user, pass) \<Rightarrow>
        (let userOK = (user = accountSid); passOK = (pass = authToken) in
         if \<not> userOK \<or> \<not> passOK then Some unauth
         else if pathSid \<noteq> '''' \<and> pathSid \<noteq> accountSid then Some unauth
         else None))"

text \<open>The first tier refuses by the declared length; the second lets a reader of the
  body fail once more than \<open>limit\<close> bytes have come.\<close>

definition MaxBytesReader :: "int \<Rightarrow> http_in \<Rightarrow> http_out option" where
  "MaxBytesReader limit req = (if hi_contentLength req > limit then Some (WriteJSON ErrPayloadTooLarge) else None)"

definition maxBody :: int where "maxBody = 65536"

section \<open>The body of a modification\<close>

record modify_opts =
  mo_Twiml :: string
  mo_URL :: string
  mo_Method :: string
  mo_Status :: string
  mo_FallbackURL :: string
  mo_FallbackMethod :: string
  mo_StatusCallback :: string
  mo_StatusCallbackMethod :: string
  mo_StatusCallbackEvent :: "string list"

definition twimlMaxLen :: nat where "twimlMaxLen = 4000"

text \<open>\<^verbatim>\<open>ParseForm\<close> of a POST behind the bounded reader: a body that is not
  URL-encoded gives an empty form, an unreadable media type, an overlong body
  or a malformed body or query is an error.\<close>

definition ParseForm :: "int \<Rightarrow> http_in \<Rightarrow> url_values option" where
  "ParseForm limit req =
    (case parse_query (hi_rawQuery req) of
       None \<Rightarrow> None
     | Some _ \<Rightarrow>
        (case hi_content req of
           BadContentType \<Rightarrow> None
         | OtherContent \<Rightarrow> Some []
         | UrlEncoded \<Rightarrow> if int (length (hi_body req)) > limit then None else parse_query (hi_body req)))"

definition PostFormValue :: "url_values \<Rightarrow> string \<Rightarrow> string" where
  "PostFormValue form k = (case form_values form k of [] \<Rightarrow> '''' | v # _ \<Rightarrow> v)"

fun parse_events :: "string list \<Rightarrow> string + string list" where
  "parse_events [] = Inr []"
| "parse_events (v # vs) =
    (case ParseStatusCallbackEvents v of
       Inl bad \<Rightarrow> Inl bad
     | Inr tok \<Rightarrow> map_sum id (\<lambda>evs. tok @ evs) (parse_events vs))"

definition urlHostMasked :: "api_env \<Rightarrow> string \<Rightarrow> string" where
  "urlHostMasked env rawURL =
    (if rawURL = '''' then ''<empty>''
     else case ap_url_host env rawURL of None \<Rightarrow> ''<unparseable>'' | Some h \<Rightarrow> if h = '''' then ''<unparseable>'' else h)"

definition check_callback_opts :: "api_env \<Rightarrow> modify_opts \<Rightarrow> (api_error + modify_opts) \<times> rest_effect list" where
  "check_callback_opts env opts =
    (let u = mo_StatusCallback opts in
     if u = '''' then (Inr opts, [])
     else case ValidateCallbackURL (ap_url_parse env) (ap_parse_ip env) u of
       Some e \<Rightarrow> (Inl (ErrInvalidParams (''StatusCallback: '' @ ap_ssrf_msg env u e)), [SsrfWarned (urlHostMasked env u)])
     | None \<Rightarrow>
        (let meth = to_upper (if mo_StatusCallbackMethod opts = '''' then ''POST'' else mo_StatusCallbackMethod opts) in
         if meth \<noteq> ''POST'' \<and> meth \<noteq> ''GET'' then (Inl (ErrInvalidParams ''StatusCallbackMethod must be POST or GET''), [])
         else (Inr (opts\<lparr> mo_StatusCallbackMethod := meth \<rparr>), [])))"

definition check_exclusive :: "modify_opts \<Rightarrow> api_error + modify_opts" where
  "check_exclusive opts =
    (let count = length (filter (\<lambda>v. v \<noteq> []) [mo_Twiml opts, mo_URL opts, mo_Status opts]) in
     if count > 1 then Inl (ErrInvalidParams ''at most one of {Twiml, Url, Status} may be set'')
     else if count = 0 \<and> mo_StatusCallback opts = '''' then
       Inl (ErrInvalidParams ''at least one of {Twiml, Url, Status, StatusCallback} required'')
     else if length (mo_Twiml opts) > twimlMaxLen then Inl ErrTwimlParseFailure
     else if mo_Status opts \<noteq> '''' \<and> mo_Status opts \<noteq> ''completed'' then
       Inl (ErrInvalidParams ''Status must be 'completed' (only this terminal value is supported)'')
     else Inr (if mo_Method opts = '''' then opts\<lparr> mo_Method := ''POST'' \<rparr> else opts))"

definition parseModifyOpts :: "api_env \<Rightarrow> int \<Rightarrow> http_in \<Rightarrow> (api_error + modify_opts) \<times> rest_effect list" where
  "parseModifyOpts env limit req =
    (case ParseForm limit req of
       None \<Rightarrow> (Inl (ErrInvalidParams ''malformed body''), [])
     | Some form \<Rightarrow>
        (let v = PostFormValue form in
         case parse_events (form_values form ''StatusCallbackEvent'') of
           Inl bad \<Rightarrow> (Inl (ErrInvalidParams (''StatusCallbackEvent: StatusCallbackEvent: unknown value '' @ ap_quote env bad @
             '' (Twilio code 21218)'')), [])
         | Inr events \<Rightarrow>
            (case check_callback_opts env
                \<lparr> mo_Twiml = v ''Twiml'', mo_URL = v ''Url'', mo_Method = v ''Method'', mo_Status = v ''Status'',
                  mo_FallbackURL = v ''FallbackUrl'', mo_FallbackMethod = v ''FallbackMethod'',
                  mo_StatusCallback = v ''StatusCallback'', mo_StatusCallbackMethod = v ''StatusCallbackMethod'',
                  mo_StatusCallbackEvent = events \<rparr> of
               (Inl e, fx) \<Rightarrow> (Inl e, fx)
             | (Inr opts, fx) \<Rightarrow> (check_exclusive opts, fx))))"

definition modifyKind :: "modify_opts option \<Rightarrow> string" where
  "modifyKind opts =
    (case opts of
       None \<Rightarrow> ''twiml''
     | Some o1 \<Rightarrow> if mo_Status o1 \<noteq> '''' then ''status_completed'' else if mo_URL o1 \<noteq> '''' then ''url'' else ''twiml'')"

section \<open>The handlers\<close>

definition call_not_found :: "string \<Rightarrow> http_out" where
  "call_not_found callSid = WriteJSON (ErrNotFound (''CallSid '' @ callSid))"

definition writeCallJSON :: "api_env \<Rightarrow> api_cfg \<Rightarrow> string \<Rightarrow> call_manager \<Rightarrow> http_out" where
  "writeCallJSON env cfg callSid m =
    (case GetByCallSid m callSid of
       None \<Rightarrow> call_not_found callSid
     | Some call \<Rightarrow> json_out 200 (CallBody (SerializeCall (ap_rfc1123z env) (pathPrefix (ac_accountSid cfg)) call)))"

text \<open>The session behind a CallSid that is live and active.\<close>

definition active_ref :: "call_manager \<Rightarrow> string \<Rightarrow> session_ref option" where
  "active_ref m callSid =
    (case sm_load (cm_callSidIdx m) callSid of
       Some r \<Rightarrow> if IsActive (cm_heap m ! r) then Some r else None
     | None \<Rightarrow> None)"

definition rs_session :: "session_ref \<Rightarrow> (call_session \<Rightarrow> call_session) \<Rightarrow> rest \<Rightarrow> rest" where
  "rs_session r f s = s\<lparr> rs_manager := upd_session r f (rs_manager s) \<rparr>"

definition callback_config :: "modify_opts \<Rightarrow> status_callback_config" where
  "callback_config opts =
    \<lparr> scb_URL = mo_StatusCallback opts, scb_Method = mo_StatusCallbackMethod opts,
      scb_Events = (if mo_StatusCallbackEvent opts = [] then set [''completed'', ''busy'', ''failed'', ''no-answer'', ''canceled'']
        else set (mo_StatusCallbackEvent opts)),
      scb_Trusted = False \<rparr>"

definition install_callback :: "modify_opts \<Rightarrow> session_ref option \<Rightarrow> rest \<Rightarrow> rest" where
  "install_callback opts live s =
    (if mo_StatusCallback opts = '''' then s
     else case live of None \<Rightarrow> s | Some r \<Rightarrow> rs_session r (SetStatusCallback (Some (callback_config opts))) s)"

text \<open>The document: inline, or fetched.\<close>

definition raw_twiml :: "api_env \<Rightarrow> modify_opts \<Rightarrow> (fetch_error + string) \<times> rest_effect list" where
  "raw_twiml env opts =
    (if mo_Twiml opts \<noteq> '''' then (Inr (mo_Twiml opts), [])
     else if mo_URL opts \<noteq> '''' then
       (let (res, reqs) = FetchWithFallback (me_newreq (ap_mid env)) (ap_send1 env) (ap_send2 env)
              \<lparr> ft_URL = mo_URL opts, ft_Method = mo_Method opts, ft_Body = '''' \<rparr>
              \<lparr> ft_URL = mo_FallbackURL opts,
                ft_Method = (if mo_FallbackMethod opts = '''' then ''POST'' else mo_FallbackMethod opts), ft_Body = '''' \<rparr>
        in (map_sum id (\<lambda>x. string_of (fr_Body x)) res, [Fetched reqs]))
     else (Inr '''', []))"

text \<open>The reply shows the call as it is before the dispatcher, in the background, has
  done anything.\<close>

definition modify_twiml :: "api_env \<Rightarrow> api_cfg \<Rightarrow> string \<Rightarrow> modify_opts \<Rightarrow> session_ref \<Rightarrow> rest \<Rightarrow> http_out \<times> rest" where
  "modify_twiml env cfg callSid opts r s =
    (let (raw, fx) = raw_twiml env opts; s1 = rs_do fx s; kind = modifyKind (Some opts) in
     case raw of
       Inl e \<Rightarrow> (WriteJSON (ErrHTTPRetrievalFailure (ap_fetch_msg env e)), rs_do [ModifyCounted ''url'' ''fetch_error''] s1)
     | Inr body \<Rightarrow>
        (case Parse (ap_xml env) body of
           Inl e \<Rightarrow> (WriteJSON ErrTwimlParseFailure, rs_do [ModifyCounted kind ''parse_error''] s1)
         | Inr verbs \<Rightarrow>
            (writeCallJSON env cfg callSid (rs_manager s1),
             rs_do [DispatchSpawned r verbs, ModifyCounted kind ''ok''] s1)))"

definition modifyCallHandler :: "api_env \<Rightarrow> api_cfg \<Rightarrow> string \<Rightarrow> http_in \<Rightarrow> rest \<Rightarrow> http_out \<times> rest" where
  "modifyCallHandler env cfg callSid req s0 =
    (let (parsed, fx) = parseModifyOpts env maxBody req; s = rs_do fx s0 in
     case parsed of
       Inl e \<Rightarrow> (WriteJSON e, rs_do [ModifyCounted (modifyKind None) ''invalid_params''] s)
     | Inr opts \<Rightarrow>
        (if \<not> CallSidRE callSid then (call_not_found callSid, s)
         else case GetByCallSid (rs_manager s) callSid of
           None \<Rightarrow> (call_not_found callSid, s)
         | Some call \<Rightarrow>
            (let live = active_ref (rs_manager s) callSid; s1 = install_callback opts live s;
                 shown = (\<lambda>s. writeCallJSON env cfg callSid (rs_manager s))
             in if mo_StatusCallback opts \<noteq> '''' \<and> mo_Twiml opts = '''' \<and> mo_URL opts = '''' \<and> mo_Status opts = '''' then
                  (shown s1, rs_do [ModifyCounted ''status_callback'' ''ok''] s1)
                else if mo_Status opts = ''completed'' then
                  (case live of
                     None \<Rightarrow> (shown s1, rs_do [ModifyCounted ''status_completed'' ''ok''] s1)
                   | Some r \<Rightarrow>
                      (let senv = me_session (ap_mid env);
                           s2 = rs_session r (\<lambda>x. snd (Terminate (se_rfc1123z senv) (se_bye_err senv) (me_end (ap_mid env))
                                  ''completed'' x)) s1
                       in (shown s2, rs_do [ModifyCounted ''status_completed'' ''terminated''] s2)))
                else
                  (case live of
                     None \<Rightarrow> (WriteJSON ErrCallNotInProgress, rs_do [ModifyCounted (modifyKind (Some opts)) ''invalid_params''] s1)
                   | Some r \<Rightarrow> modify_twiml env cfg callSid opts r s1))))"

definition parseIntDefault :: "string \<Rightarrow> int \<Rightarrow> int" where
  "parseIntDefault s dflt = (if s = '''' then dflt else case atoi s of Some n \<Rightarrow> n | None \<Rightarrow> dflt)"

text \<open>\<^const>\<open>None\<close> is a panic in the handler.\<close>

definition listCallsHandler :: "api_env \<Rightarrow> api_cfg \<Rightarrow> http_in \<Rightarrow> call_manager \<Rightarrow> http_out option" where
  "listCallsHandler env cfg req m =
    map_option (\<lambda>pj. json_out 200 (PageBody pj))
      (SerializePage (ap_rfc1123z env) (CallList m) (pathPrefix (ac_accountSid cfg))
        (parseIntDefault (PostFormValue (hi_query req) ''Page'') 0) (parseIntDefault (PostFormValue (hi_query req) ''PageSize'') 50))"

definition getCallHandler :: "api_env \<Rightarrow> api_cfg \<Rightarrow> string \<Rightarrow> call_manager \<Rightarrow> http_out" where
  "getCallHandler env cfg callSid m =
    (if \<not> CallSidRE callSid then call_not_found callSid
     else case GetByCallSid m callSid of
       None \<Rightarrow> call_not_found callSid
     | Some call \<Rightarrow> json_out 200 (CallBody (SerializeCall (ap_rfc1123z env) (pathPrefix (ac_accountSid cfg)) call)))"

section \<open>Routes\<close>

datatype api_route = ListCalls string | GetCall string string | ModifyCall string string

fun route_sid :: "api_route \<Rightarrow> string" where
  "route_sid (ListCalls a) = a"
| "route_sid (GetCall a c) = a"
| "route_sid (ModifyCall a c) = a"

definition metricsMiddleware :: "string \<Rightarrow> http_in \<Rightarrow> http_out \<times> rest \<Rightarrow> http_out \<times> rest" where
  "metricsMiddleware route req x =
    (fst x, rs_do [RequestCounted route (hi_method req) (BucketStatus (ho_status (fst x)))] (snd x))"

fun handle_route :: "api_env \<Rightarrow> api_cfg \<Rightarrow> api_route \<Rightarrow> http_in \<Rightarrow> rest \<Rightarrow> (http_out \<times> rest) option" where
  "handle_route env cfg (ListCalls a) req s =
    map_option (\<lambda>o1. metricsMiddleware ''list_calls'' req (o1, s)) (listCallsHandler env cfg req (rs_manager s))"
| "handle_route env cfg (GetCall a c) req s =
    Some (metricsMiddleware ''get_call'' req (getCallHandler env cfg c (rs_manager s), s))"
| "handle_route env cfg (ModifyCall a c) req s =
    Some (metricsMiddleware ''modify_call'' req (modifyCallHandler env cfg c req s))"

text \<open>The chain of \<^verbatim>\<open>Mount\<close>: security headers, body limit, authentication, metrics,
  handler.\<close>

definition Mount :: "api_env \<Rightarrow> api_cfg \<Rightarrow> api_route \<Rightarrow> http_in \<Rightarrow> rest \<Rightarrow> (http_out \<times> rest) option" where
  "Mount env cfg rt req s =
    map_option (\<lambda>(o1, s1). (o1\<lparr> ho_headers := SecurityHeaders @ ho_headers o1 \<rparr>, s1))
      (case MaxBytesReader maxBody req of
         Some o1 \<Rightarrow> Some (o1, s)
       | None \<Rightarrow>
          (case BasicAuth (ac_accountSid cfg) (ac_authToken cfg) (hi_auth req) (route_sid rt) of
             Some o1 \<Rightarrow> Some (o1, s)
           | None \<Rightarrow> handle_route env cfg rt req s))"

section \<open>Who gets in\<close>

lemma BasicAuth_None:
  "BasicAuth acc tok creds pathSid = None \<longleftrightarrow> creds = Some (acc, tok) \<and> pathSid \<in> {'''', acc}"
  by (auto simp: BasicAuth_def Let_def split: option.split)

lemma BasicAuth_Some: "BasicAuth acc tok creds pathSid = Some o1 \<Longrightarrow> o1 = unauth"
  by (auto simp: BasicAuth_def Let_def split: option.splits if_splits)

lemma handle_route_reads:
  assumes "handle_route env cfg rt req s = Some (out, s')" "\<forall>a c. rt \<noteq> ModifyCall a c"
  shows "rs_manager s' = rs_manager s"
  using assms by (cases rt) (auto simp: metricsMiddleware_def rs_do_def)

lemma Mount_cases:
  assumes "Mount env cfg rt req s = Some (out, s')"
  obtains (large) "hi_contentLength req > maxBody" "out = (WriteJSON ErrPayloadTooLarge)\<lparr> ho_headers :=
        SecurityHeaders @ ho_headers (WriteJSON ErrPayloadTooLarge) \<rparr>" "s' = s"
  | (unauthorised) "hi_contentLength req \<le> maxBody" "\<not> (hi_auth req = Some (ac_accountSid cfg, ac_authToken cfg) \<and>
        route_sid rt \<in> {'''', ac_accountSid cfg})" "out = unauth\<lparr> ho_headers := SecurityHeaders @ ho_headers unauth \<rparr>" "s' = s"
  | (handled) o1 where "hi_contentLength req \<le> maxBody" "hi_auth req = Some (ac_accountSid cfg, ac_authToken cfg)"
        "route_sid rt \<in> {'''', ac_accountSid cfg}" "handle_route env cfg rt req s = Some (o1, s')"
        "out = o1\<lparr> ho_headers := SecurityHeaders @ ho_headers o1 \<rparr>"
proof (cases "hi_contentLength req > maxBody")
  case True
  then show ?thesis using assms by (intro large) (auto simp: Mount_def MaxBytesReader_def)
next
  case False
  then have M: "Mount env cfg rt req s = map_option (\<lambda>(o1, s1). (o1\<lparr> ho_headers := SecurityHeaders @ ho_headers o1 \<rparr>, s1))
      (case BasicAuth (ac_accountSid cfg) (ac_authToken cfg) (hi_auth req) (route_sid rt) of
         Some o1 \<Rightarrow> Some (o1, s) | None \<Rightarrow> handle_route env cfg rt req s)"
    by (simp add: Mount_def MaxBytesReader_def)
  show ?thesis
  proof (cases "BasicAuth (ac_accountSid cfg) (ac_authToken cfg) (hi_auth req) (route_sid rt)")
    case None
    then obtain o1 where "handle_route env cfg rt req s = Some (o1, s')" "out = o1\<lparr> ho_headers := SecurityHeaders @ ho_headers o1 \<rparr>"
      using assms M by auto
    then show ?thesis using False None by (intro handled) (simp_all add: BasicAuth_None)
  next
    case (Some o1)
    then have "\<not> (hi_auth req = Some (ac_accountSid cfg, ac_authToken cfg) \<and> route_sid rt \<in> {'''', ac_accountSid cfg})"
      using BasicAuth_None[of "ac_accountSid cfg" "ac_authToken cfg" "hi_auth req" "route_sid rt"] by auto
    with Some False assms M BasicAuth_Some[OF Some] show ?thesis by (intro unauthorised) auto
  qed
qed

lemma response_status_simps [simp]:
  "ho_status (WriteJSON e) = ae_Status e" "ho_status (json_out n b) = n"
  "ho_status unauth = 401" "ho_status (call_not_found sid) = 404"
  "ae_Status ErrPayloadTooLarge = 413" "ae_Status ErrAuthRequired = 401" "ae_Status ErrCallNotInProgress = 400" "ae_Status ErrTwimlParseFailure = 400"
  "ae_Status (ErrInvalidParams d) = 400" "ae_Status (ErrHTTPRetrievalFailure d) = 400"
  by (simp_all add: WriteJSON_def json_out_def unauth_def call_not_found_def api_error_defs Let_def)

text \<open>C9. Nobody without the credentials of the account gets anything done: a request
  declared larger than 64 KB is refused with 413 before its credentials are
  looked at; any other request without the exact AccountSid and token, or for
  another account's path, is refused with 401 and a challenge; both leave the
  whole state as it was.  Only a modification changes the calls, and every reply,
  refusals included, carries the three security headers.\<close>

theorem rest_access_control:
  assumes "Mount env cfg rt req s = Some (out, s')"
  shows "set SecurityHeaders \<subseteq> set (ho_headers out) \<and>
    (hi_contentLength req > 65536 \<longrightarrow> ho_status out = 413 \<and> s' = s) \<and>
    (hi_contentLength req \<le> 65536 \<and>
       (hi_auth req \<noteq> Some (ac_accountSid cfg, ac_authToken cfg) \<or> route_sid rt \<notin> {'''', ac_accountSid cfg}) \<longrightarrow>
       ho_status out = 401 \<and> ''WWW-Authenticate'' \<in> fst ` set (ho_headers out) \<and> s' = s) \<and>
    (rs_manager s' \<noteq> rs_manager s \<longrightarrow> (\<exists>a c. rt = ModifyCall a c))"
  using assms
proof (cases rule: Mount_cases)
  case (handled o1)
  then show ?thesis using handle_route_reads[OF handled(4)] by (auto simp: maxBody_def)
next
  case unauthorised
  then show ?thesis by (auto simp: maxBody_def unauth_def Let_def)
next
  case large
  then show ?thesis by (auto simp: maxBody_def)
qed

section \<open>What a modification does\<close>

text \<open>The registry, the other sessions and the ports are out of reach of a
  modification.\<close>

definition only_session :: "session_ref option \<Rightarrow> call_manager \<Rightarrow> call_manager \<Rightarrow> bool" where
  "only_session live m m' \<longleftrightarrow> m' = m\<lparr> cm_heap := cm_heap m' \<rparr> \<and> length (cm_heap m') = length (cm_heap m) \<and>
    (\<forall>r. live \<noteq> Some r \<longrightarrow> cm_heap m' ! r = cm_heap m ! r)"

lemma only_session_refl [simp]: "only_session live m m"
  by (simp add: only_session_def)

lemma only_session_trans: "only_session live a b \<Longrightarrow> only_session live b c \<Longrightarrow> only_session live a c"
  by (cases a; cases b; cases c) (auto simp: only_session_def)

lemma only_session_upd: "only_session (Some r) m (upd_session r f m)"
  by (auto simp: only_session_def upd_session_def)

lemma rs_do_simps [simp]:
  "rs_manager (rs_do es s) = rs_manager s" "rs_effects (rs_do es s) = rs_effects s @ es"
  "rs_manager (rs_session r f s) = upd_session r f (rs_manager s)" "rs_effects (rs_session r f s) = rs_effects s"
  by (simp_all add: rs_do_def rs_session_def)

lemma install_callback_simps [simp]:
  "rs_effects (install_callback opts live s) = rs_effects s"
  "only_session live (rs_manager s) (rs_manager (install_callback opts live s))"
  by (auto simp: install_callback_def only_session_upd split: option.split)

lemma parseModifyOpts_effects:
  assumes "parseModifyOpts env limit req = (p, fx)"
  shows "DispatchSpawned r vs \<notin> set fx" "\<And>e. p = Inl e \<Longrightarrow> ae_Status e = 400"
proof -
  have ce: "check_exclusive opts = Inl e \<Longrightarrow> ae_Status e = 400" for opts e
    by (auto simp: check_exclusive_def Let_def split: if_splits)
  have cc: "check_callback_opts env opts = (q, fx') \<Longrightarrow> DispatchSpawned r vs \<notin> set fx' \<and> (\<forall>e. q = Inl e \<longrightarrow> ae_Status e = 400)"
    for opts q fx' by (auto simp: check_callback_opts_def Let_def split: if_splits option.splits)
  show "DispatchSpawned r vs \<notin> set fx" "\<And>e. p = Inl e \<Longrightarrow> ae_Status e = 400"
    using assms by (auto simp: parseModifyOpts_def Let_def split: option.splits sum.splits prod.splits dest: ce cc)
qed

lemma GetByCallSid_heap:
  "cm_callSidIdx m' = cm_callSidIdx m \<Longrightarrow> cm_recentlyTerminated m' = cm_recentlyTerminated m \<Longrightarrow>
    GetByCallSid m' sid = None \<longleftrightarrow> GetByCallSid m sid = None"
  by (auto simp: GetByCallSid_def split: option.split)

lemma only_session_lookup:
  assumes "only_session live m m'" "GetByCallSid m sid \<noteq> None"
  shows "ho_status (writeCallJSON env cfg sid m') = 200"
proof -
  have "cm_callSidIdx m' = cm_callSidIdx m" "cm_recentlyTerminated m' = cm_recentlyTerminated m"
    using assms(1) by (cases m; cases m'; simp add: only_session_def)+
  from GetByCallSid_heap[OF this, of sid] assms(2) show ?thesis by (auto simp: writeCallJSON_def split: option.split)
qed

text \<open>What the handler may leave, in one predicate: the reply, the effects and the
  manager, given the session that is live and active.\<close>

definition modified :: "api_env \<Rightarrow> session_ref option \<Rightarrow> call_manager \<Rightarrow> rest_effect list \<Rightarrow> http_out \<Rightarrow> call_manager \<Rightarrow> bool" where
  "modified env live m es out m' \<longleftrightarrow>
    ho_status out \<in> {200, 400, 404} \<and> only_session live m m' \<and>
    (\<forall>r vs. DispatchSpawned r vs \<in> set es \<longrightarrow>
       live = Some r \<and> ho_status out = 200 \<and> (\<exists>raw. Parse (ap_xml env) raw = Inr vs)) \<and>
    (ho_status out \<noteq> 200 \<longrightarrow> (\<forall>r. live = Some r \<longrightarrow> cm_heap m' ! r = cm_heap m ! r \<or>
       (\<exists>c. cm_heap m' ! r = SetStatusCallback c (cm_heap m ! r))))"

lemma modified_no_spawn:
  assumes "ho_status out \<in> {200, 400, 404}" "\<forall>r vs. DispatchSpawned r vs \<notin> set es" "only_session live m m'"
    and "ho_status out \<noteq> 200 \<Longrightarrow> m' = m"
  shows "modified env live m es out m'"
  using assms by (auto simp: modified_def)

lemma install_callback_heap:
  "cm_heap (rs_manager (install_callback opts live s)) ! r = cm_heap (rs_manager s) ! r \<or>
    (\<exists>c. cm_heap (rs_manager (install_callback opts live s)) ! r = SetStatusCallback c (cm_heap (rs_manager s) ! r))"
proof (cases "mo_StatusCallback opts = '''' \<or> live \<noteq> Some r \<or> length (cm_heap (rs_manager s)) \<le> r")
  case True
  have "xs[q := v] ! r = xs ! r" if "q \<noteq> r \<or> length xs \<le> r" for xs :: "call_session list" and q v
    using that by (cases "q = r") (auto simp: list_update_beyond)
  with True show ?thesis by (auto simp: install_callback_def upd_session_def split: option.split)
next
  case False
  then show ?thesis
    by (intro disjI2 exI[of _ "Some (callback_config opts)"]) (simp add: install_callback_def upd_session_def)
qed

lemma raw_twiml_effects: "raw_twiml env opts = (raw, fx) \<Longrightarrow> DispatchSpawned r vs \<notin> set fx"
  by (auto simp: raw_twiml_def split: if_splits prod.splits)

lemma modify_twiml_modified:
  assumes "modify_twiml env cfg sid opts r s1 = (out, s')" "s1 = install_callback opts (Some r) s"
    and "GetByCallSid (rs_manager s) sid \<noteq> None"
  shows "\<exists>es. rs_effects s' = rs_effects s @ es \<and> modified env (Some r) (rs_manager s) es out (rs_manager s')"
proof -
  obtain raw fx where raw: "raw_twiml env opts = (raw, fx)" by fastforce
  note fx = raw_twiml_effects[OF raw]
  have only: "only_session (Some r) (rs_manager s) (rs_manager s1)" by (simp add: assms(2))
  note shown = only_session_lookup[OF only assms(3)]
  note heap = install_callback_heap[of opts "Some r" s r, folded assms(2)]
  show ?thesis
  proof (cases raw)
    case (Inl e)
    then show ?thesis
      using assms(1) raw fx only heap
      by (intro exI[of _ "fx @ [ModifyCounted ''url'' ''fetch_error'']"]) (auto simp: modify_twiml_def modified_def assms(2))
  next
    case (Inr body)
    show ?thesis
    proof (cases "Parse (ap_xml env) body")
      case (Inl e)
      then show ?thesis
        using assms(1) raw fx only heap \<open>raw = _\<close>
        by (intro exI[of _ "fx @ [ModifyCounted (modifyKind (Some opts)) ''parse_error'']"])
          (auto simp: modify_twiml_def modified_def assms(2))
    next
      case (Inr vs)
      then show ?thesis
        using assms(1) raw fx only shown \<open>raw = _\<close>
        by (intro exI[of _ "fx @ [DispatchSpawned r vs, ModifyCounted (modifyKind (Some opts)) ''ok'']"])
          (auto simp: modify_twiml_def modified_def assms(2))
    qed
  qed
qed

lemma GetByCallSid_active: "active_ref m sid = Some r \<Longrightarrow> GetByCallSid m sid \<noteq> None"
  by (auto simp: active_ref_def GetByCallSid_def split: option.splits)

text \<open>The five ways through the handler once the body is parsed and the call is known.\<close>

lemma modifyCallHandler_cases:
  assumes run: "modifyCallHandler env cfg sid req s = (out, s')"
    and parse: "parseModifyOpts env maxBody req = (Inr opts, fx)"
    and sid: "CallSidRE sid" and call: "GetByCallSid (rs_manager s) sid = Some call"
    and live: "active_ref (rs_manager s) sid = live" and s1: "install_callback opts live (rs_do fx s) = s1"
  obtains (callback) "out = writeCallJSON env cfg sid (rs_manager s1)" "s' = rs_do [ModifyCounted ''status_callback'' ''ok''] s1"
  | (ended) "live = None" "out = writeCallJSON env cfg sid (rs_manager s1)" "s' = rs_do [ModifyCounted ''status_completed'' ''ok''] s1"
  | (completed) r f where "live = Some r" "out = writeCallJSON env cfg sid (rs_manager (rs_session r f s1))"
      "s' = rs_do [ModifyCounted ''status_completed'' ''terminated''] (rs_session r f s1)"
  | (idle) "live = None" "out = WriteJSON ErrCallNotInProgress"
      "s' = rs_do [ModifyCounted (modifyKind (Some opts)) ''invalid_params''] s1"
  | (twiml) r where "live = Some r" "modify_twiml env cfg sid opts r s1 = (out, s')"
proof -
  note H = run[unfolded modifyCallHandler_def parse Let_def]
  consider (cb) "mo_StatusCallback opts \<noteq> '''' \<and> mo_Twiml opts = '''' \<and> mo_URL opts = '''' \<and> mo_Status opts = ''''"
    | (st) "\<not> (mo_StatusCallback opts \<noteq> '''' \<and> mo_Twiml opts = '''' \<and> mo_URL opts = '''' \<and> mo_Status opts = '''')"
      "mo_Status opts = ''completed''"
    | (doc) "\<not> (mo_StatusCallback opts \<noteq> '''' \<and> mo_Twiml opts = '''' \<and> mo_URL opts = '''' \<and> mo_Status opts = '''')"
      "mo_Status opts \<noteq> ''completed''" by blast
  then show thesis
  proof cases
    case cb
    then show thesis using H sid call live s1 by (intro callback) simp_all
  next
    case st
    let ?senv = "me_session (ap_mid env)"
    show thesis
    proof (cases live)
      case None
      then show thesis using H sid call live s1 st by (intro ended) simp_all
    next
      case (Some r)
      show thesis
        by (rule completed[OF Some, of "\<lambda>x. snd (Terminate (se_rfc1123z ?senv) (se_bye_err ?senv)
            (me_end (ap_mid env)) ''completed'' x)"]) (use H sid call live s1 st Some in simp_all)
    qed
  next
    case doc
    show thesis
    proof (cases live)
      case None
      then show thesis using H sid call live s1 doc by (intro idle) (simp_all split: if_splits)
    next
      case (Some r)
      then show thesis using H sid call live s1 doc by (intro twiml) (simp_all split: if_splits)
    qed
  qed
qed

lemma modify_found_modified:
  assumes run: "modifyCallHandler env cfg sid req s = (out, s')" and parse: "parseModifyOpts env maxBody req = (Inr opts, fx)"
    and sid: "CallSidRE sid" and call: "GetByCallSid (rs_manager s) sid = Some call"
    and live: "active_ref (rs_manager s) sid = live"
  shows "\<exists>es. rs_effects s' = rs_effects s @ es \<and> modified env live (rs_manager s) es out (rs_manager s') \<and>
    (live = None \<longrightarrow> rs_manager s' = rs_manager s)"
proof -
  note fx = parseModifyOpts_effects(1)[OF parse]
  define s1 where "s1 = install_callback opts live (rs_do fx s)"
  have only: "only_session live (rs_manager s) (rs_manager s1)"
    using install_callback_simps(2)[of live "rs_do fx s" opts] by (simp add: s1_def)
  have none: "live = None \<Longrightarrow> s1 = rs_do fx s" by (simp add: s1_def install_callback_def)
  have es: "rs_effects s1 = rs_effects s @ fx" by (simp add: s1_def)
  have shown: "only_session live (rs_manager s) m' \<Longrightarrow> ho_status (writeCallJSON env cfg sid m') = 200" for m'
    using only_session_lookup call by simp
  from run parse sid call live s1_def[symmetric] show ?thesis
  proof (cases rule: modifyCallHandler_cases)
    case (completed r f)
    have "only_session live (rs_manager s) (rs_manager (rs_session r f s1))"
      using only_session_trans[OF only] completed(1) only_session_upd by simp
    then show ?thesis using completed fx es shown by (auto intro!: modified_no_spawn)
  next
    case (twiml r)
    have "GetByCallSid (rs_manager (rs_do fx s)) sid \<noteq> None" using call by simp
    from modify_twiml_modified[OF twiml(2) _ this] twiml(1) obtain es where
      "rs_effects s' = rs_effects (rs_do fx s) @ es" "modified env (Some r) (rs_manager (rs_do fx s)) es out (rs_manager s')"
      by (auto simp: s1_def)
    then show ?thesis using twiml(1) fx by (intro exI[of _ "fx @ es"]) (auto simp: modified_def)
  qed (use fx es only shown none in \<open>auto intro!: modified_no_spawn\<close>)
qed

lemma modify_modified:
  assumes run: "modifyCallHandler env cfg sid req s = (out, s')" and live: "active_ref (rs_manager s) sid = live"
  shows "\<exists>es. rs_effects s' = rs_effects s @ es \<and> modified env live (rs_manager s) es out (rs_manager s') \<and>
    (live = None \<longrightarrow> rs_manager s' = rs_manager s)"
proof -
  obtain p fx where parse: "parseModifyOpts env maxBody req = (p, fx)" by fastforce
  note fx = parseModifyOpts_effects[OF parse]
  show ?thesis
  proof (cases p)
    case (Inl e)
    then have "out = WriteJSON e" "s' = rs_do [ModifyCounted (modifyKind None) ''invalid_params''] (rs_do fx s)"
      using run parse by (simp_all add: modifyCallHandler_def)
    then show ?thesis using fx(1) fx(2)[OF Inl] by (auto intro!: modified_no_spawn)
  next
    case (Inr opts)
    show ?thesis
    proof (cases "CallSidRE sid \<and> GetByCallSid (rs_manager s) sid \<noteq> None")
      case False
      then have "out = call_not_found sid" "s' = rs_do fx s"
        using run parse Inr by (auto simp: modifyCallHandler_def Let_def split: option.splits if_splits)
      then show ?thesis using fx(1) by (auto intro!: modified_no_spawn)
    next
      case True
      then show ?thesis using modify_found_modified[OF run parse[unfolded Inr] _ _ live] by auto
    qed
  qed
qed

text \<open>C10. A modification touches the call it names and no other, and only while that
  call is active: no other session, no index and no port changes, and nothing
  changes at all for a call that has ended.  TwiML is handed to the dispatcher
  only for an active call, only after it has parsed, and then the reply is 200;
  a request that is refused changes at most the callback subscription of the
  call; and the reply is 200, 400 or 404.\<close>

theorem modify_call_contract:
  assumes "modifyCallHandler env cfg sid req s = (out, s')"
  shows "\<exists>es. rs_effects s' = rs_effects s @ es \<and>
    modified env (active_ref (rs_manager s) sid) (rs_manager s) es out (rs_manager s') \<and>
    (active_ref (rs_manager s) sid = None \<longrightarrow> rs_manager s' = rs_manager s)"
  using modify_modified[OF assms refl] .

text \<open>Who can have a document dispatched, and to which call.\<close>

lemma Mount_spawns:
  assumes "Mount env cfg rt req s = Some (out, s')" "rs_effects s' = rs_effects s @ es" "DispatchSpawned r vs \<in> set es"
  obtains a c raw where "rt = ModifyCall a c" "hi_auth req = Some (ac_accountSid cfg, ac_authToken cfg)"
    "hi_contentLength req \<le> maxBody" "active_ref (rs_manager s) c = Some r" "ho_status out = 200"
    "Parse (ap_xml env) raw = Inr vs"
  using assms(1)
proof (cases rule: Mount_cases)
  case (handled o1)
  show thesis
  proof (cases rt)
    case (ModifyCall a c)
    obtain o2 s2 where m: "modifyCallHandler env cfg c req s = (o2, s2)" by fastforce
    with handled(4) ModifyCall have h: "o1 = o2" "s' = rs_do [RequestCounted ''modify_call'' (hi_method req) (BucketStatus (ho_status o2))] s2"
      by (auto simp: metricsMiddleware_def)
    from modify_modified[OF m refl] obtain es2 where es2: "rs_effects s2 = rs_effects s @ es2"
      "modified env (active_ref (rs_manager s) c) (rs_manager s) es2 o2 (rs_manager s2)" by blast
    with h(2) assms(2,3) have "DispatchSpawned r vs \<in> set es2" by auto
    with es2(2) obtain raw where "active_ref (rs_manager s) c = Some r" "ho_status o2 = 200" "Parse (ap_xml env) raw = Inr vs"
      unfolding modified_def by blast
    with that[OF ModifyCall handled(2,1)] handled(5) h(1) show thesis by simp
  qed (use handled(4) assms(2,3) in \<open>auto simp: metricsMiddleware_def\<close>)
qed (use assms(2,3) in auto)

section \<open>Concrete requests\<close>

definition demo_api :: api_env where
  "demo_api = \<lparr> ap_mid = demo_mid, ap_url_parse = (\<lambda>u. Some (''https'', u)), ap_url_host = Some, ap_parse_ip = (\<lambda>h. None),
     ap_ssrf_msg = (\<lambda>u e. ''ssrf''), ap_quote = id, ap_xml = (\<lambda>b. ([StartEl ''Response'' [], StartEl ''Hangup'' [], EndEl ''Hangup'', EndEl ''Response''], XmlEOF)),
     ap_send1 = (\<lambda>r. Inl ''down''), ap_send2 = (\<lambda>r. Inl ''down''), ap_fetch_msg = (\<lambda>e. ''failed''), ap_rfc1123z = (\<lambda>t. ''Mon'') \<rparr>"

definition demo_acfg :: api_cfg where
  "demo_acfg = \<lparr> ac_accountSid = ''AC1'', ac_authToken = ''tok'' \<rparr>"

definition demo_sid :: string where "demo_sid = ''CA'' @ replicate 32 (CHR ''0'')"

definition demo_rest :: rest where
  "demo_rest = \<lparr> rs_manager = demo_manager\<lparr> cm_heap := [(new_session ''id'' demo_sid ''AC1'' ''a'' ''b'' 0 True demo_leg)
        \<lparr> s_state := StateStreaming \<rparr>], cm_callSidIdx := [(demo_sid, 0)] \<rparr>, rs_effects = [] \<rparr>"

definition demo_post :: "string \<Rightarrow> http_in" where
  "demo_post b = \<lparr> hi_method = ''POST'', hi_contentLength = int (length b), hi_content = UrlEncoded, hi_body = b, hi_rawQuery = '''',
     hi_query = [], hi_auth = Some (''AC1'', ''tok'') \<rparr>"

fun spawned :: "rest_effect \<Rightarrow> session_ref option" where
  "spawned (DispatchSpawned r vs) = Some r"
| "spawned _ = None"

lemma spawned_iff: "spawned e = Some r \<longleftrightarrow> (\<exists>vs. e = DispatchSpawned r vs)"
  by (cases e) auto

lemma demo_hangup_document:
  "ho_status (fst (modifyCallHandler demo_api demo_acfg demo_sid (demo_post ''Twiml=x'') demo_rest)) = 200"
  "list_ex (\<lambda>e. spawned e = Some 0)
    (rs_effects (snd (modifyCallHandler demo_api demo_acfg demo_sid (demo_post ''Twiml=x'') demo_rest)))"
  "active_ref (rs_manager demo_rest) demo_sid = Some 0"
  by code_simp+

theorem rest_access_control_witness:
  "\<exists>out s'. Mount demo_api demo_acfg (ModifyCall ''AC2'' demo_sid) (demo_post ''Status=completed'') demo_rest = Some (out, s') \<and>
    ho_status out = 401 \<and> s' = demo_rest"
proof -
  obtain out s' where
    M: "Mount demo_api demo_acfg (ModifyCall ''AC2'' demo_sid) (demo_post ''Status=completed'') demo_rest = Some (out, s')"
    by (simp add: Mount_def MaxBytesReader_def maxBody_def BasicAuth_def demo_post_def demo_acfg_def)
  from rest_access_control[OF M] M show ?thesis by (simp add: demo_post_def demo_acfg_def)
qed

theorem modify_call_contract_witness:
  "\<exists>out s' es vs. modifyCallHandler demo_api demo_acfg demo_sid (demo_post ''Twiml=x'') demo_rest = (out, s') \<and>
    rs_effects s' = rs_effects demo_rest @ es \<and> DispatchSpawned 0 vs \<in> set es \<and>
    only_session (Some 0) (rs_manager demo_rest) (rs_manager s')"
proof -
  obtain out s' where H: "modifyCallHandler demo_api demo_acfg demo_sid (demo_post ''Twiml=x'') demo_rest = (out, s')" by fastforce
  from modify_call_contract[OF H] demo_hangup_document(3) obtain es where es: "rs_effects s' = rs_effects demo_rest @ es"
    "modified demo_api (Some 0) (rs_manager demo_rest) es out (rs_manager s')" by auto
  moreover from demo_hangup_document(2) obtain vs where "DispatchSpawned 0 vs \<in> set (rs_effects s')"
    by (auto simp: H list_ex_iff spawned_iff)
  ultimately show ?thesis using H by (auto simp: modified_def demo_rest_def)
qed

text \<open>At most one of the three modifications is accepted in one request.\<close>

lemma parseModifyOpts_exclusive:
  assumes "parseModifyOpts env limit req = (Inr opts, fx)"
  shows "length (filter (\<lambda>v. v \<noteq> []) [mo_Twiml opts, mo_URL opts, mo_Status opts]) \<le> 1 \<and> length (mo_Twiml opts) \<le> twimlMaxLen \<and>
    mo_Status opts \<in> {'''', ''completed''} \<and> (mo_StatusCallback opts \<noteq> '''' \<longrightarrow> mo_StatusCallbackMethod opts \<in> {''POST'', ''GET''})"
proof -
  have ex: "length (filter (\<lambda>v. v \<noteq> []) [mo_Twiml x, mo_URL x, mo_Status x]) \<le> 1 \<and> length (mo_Twiml x) \<le> twimlMaxLen \<and>
      mo_Status x \<in> {'''', ''completed''} \<and> mo_StatusCallback x = mo_StatusCallback o1 \<and>
      mo_StatusCallbackMethod x = mo_StatusCallbackMethod o1" if "check_exclusive o1 = Inr x" for o1 x
    using that by (auto simp: check_exclusive_def Let_def not_less split: if_splits)
  have cb: "mo_StatusCallback x \<noteq> '''' \<longrightarrow> mo_StatusCallbackMethod x \<in> {''POST'', ''GET''}"
    if "check_callback_opts env o1 = (Inr x, fx')" for o1 x fx'
    using that by (auto simp: check_callback_opts_def Let_def split: option.splits if_splits)
  obtain o0 o1 fx' where o1: "check_callback_opts env o0 = (Inr o1, fx')" "check_exclusive o1 = Inr opts"
    using assms by (auto simp: parseModifyOpts_def Let_def split: option.splits sum.splits prod.splits)
  from ex[OF o1(2)] cb[OF o1(1)] show ?thesis by simp
qed

text \<open>A refused request can still leave its callback subscription behind: the
  subscription is installed before the document is looked at.\<close>

lemma refused_request_subscribes:
  assumes "parseModifyOpts env maxBody req = (Inr opts, fx)" "CallSidRE sid" "active_ref (rs_manager s) sid = Some r"
    and "r < length (cm_heap (rs_manager s))" "mo_StatusCallback opts \<noteq> ''''" "mo_Twiml opts \<noteq> ''''" "mo_Status opts = ''''"
    and "Parse (ap_xml env) (mo_Twiml opts) = Inl e" "modifyCallHandler env cfg sid req s = (out, s')"
  shows "ho_status out = 400 \<and> s_statusCallback (cm_heap (rs_manager s') ! r) = Some (callback_config opts)"
proof -
  obtain call where "GetByCallSid (rs_manager s) sid = Some call" using GetByCallSid_active[OF assms(3)] by auto
  then show ?thesis
    using assms by (auto simp: modifyCallHandler_def modify_twiml_def raw_twiml_def install_callback_def upd_session_def
        SetStatusCallback_def)
qed

end
