(* ===== verification/Ws_Wire.thy ===== *)
theory Ws_Wire
  imports Media
begin

text \<open>
  The Media Streams events of \<^verbatim>\<open>bridge/ws.go\<close> (and the media event that \<^verbatim>\<open>wsPacer\<close>
  builds in \<^verbatim>\<open>bridge/session.go\<close>): the frames that \<open>Media\<close> keeps in the log of
  a session, as the JSON objects that go over the WebSocket.  The rendering of
  an object as text is \<^verbatim>\<open>encoding/json\<close>.  A consumer that follows the published
  schema reads every frame back.
\<close>

section \<open>Events\<close>

datatype jval = JvStr string | JvInt int | JvStrs "string list" | JvObj "(string \<times> jval) list"

text \<open>What a session puts into its events; \<open>wi_custom\<close> are the parameters of the
  \<^verbatim>\<open><Stream>\<close> element.\<close>

record ws_ids =
  wi_streamSid :: string
  wi_callSid :: string
  wi_accountSid :: string
  wi_callID :: string
  wi_from :: string
  wi_to :: string
  wi_encoding :: string
  wi_sampleRate :: int
  wi_custom :: "(string \<times> string) list"

subsection \<open>The structs and their JSON\<close>

record ConnectedEvent =
  ce_Event :: string
  ce_Protocol :: string
  ce_Version :: string

record MediaFormat =
  mf_Encoding :: string
  mf_SampleRate :: int
  mf_Channels :: int

record StartEventBody =
  sb_StreamSid :: string
  sb_AccountSid :: string
  sb_CallSid :: string
  sb_Tracks :: "string list"
  sb_CustomParameters :: "(string \<times> string) list"
  sb_MediaFormat :: MediaFormat

record StartEvent =
  se_Event :: string
  se_SequenceNumber :: string
  se_StreamSid :: string
  se_Start :: StartEventBody

record MediaBody =
  mb_Track :: string
  mb_Chunk :: string
  mb_Timestamp :: string
  mb_Payload :: string

record MediaEvent =
  me_Event :: string
  me_SequenceNumber :: string
  me_StreamSid :: string
  me_Media :: MediaBody

record StopBody =
  tb_AccountSid :: string
  tb_CallSid :: string

record StopEvent =
  te_Event :: string
  te_SequenceNumber :: string
  te_StreamSid :: string
  te_Stop :: StopBody

record DtmfBody =
  db_Track :: string
  db_Digit :: string

record DtmfEvent =
  de_Event :: string
  de_StreamSid :: string
  de_SequenceNumber :: string
  de_Dtmf :: DtmfBody

record MarkBody =
  kb_Name :: string

record MarkEvent =
  ke_Event :: string
  ke_SequenceNumber :: string
  ke_StreamSid :: string
  ke_Mark :: MarkBody

text \<open>\<^verbatim>\<open>encoding/json\<close> writes the fields of a struct in their order, under the names of
  their tags, and the keys of a map sorted.\<close>

definition json_ConnectedEvent :: "ConnectedEvent \<Rightarrow> jval" where
  "json_ConnectedEvent e =
    JvObj [(''event'', JvStr (ce_Event e)), (''protocol'', JvStr (ce_Protocol e)), (''version'', JvStr (ce_Version e))]"

definition json_MediaFormat :: "MediaFormat \<Rightarrow> jval" where
  "json_MediaFormat f =
    JvObj [(''encoding'', JvStr (mf_Encoding f)), (''sampleRate'', JvInt (mf_SampleRate f)), (''channels'', JvInt (mf_Channels f))]"

definition json_StartEventBody :: "StartEventBody \<Rightarrow> jval" where
  "json_StartEventBody b =
    JvObj [(''streamSid'', JvStr (sb_StreamSid b)), (''accountSid'', JvStr (sb_AccountSid b)), (''callSid'', JvStr (sb_CallSid b)),
      (''tracks'', JvStrs (sb_Tracks b)),
      (''customParameters'', JvObj (map (map_prod id JvStr) (sort_key fst (sb_CustomParameters b)))),
      (''mediaFormat'', json_MediaFormat (sb_MediaFormat b))]"

definition json_StartEvent :: "StartEvent \<Rightarrow> jval" where
  "json_StartEvent e =
    JvObj [(''event'', JvStr (se_Event e)), (''sequenceNumber'', JvStr (se_SequenceNumber e)), (''streamSid'', JvStr (se_StreamSid e)),
      (''start'', json_StartEventBody (se_Start e))]"

definition json_MediaBody :: "MediaBody \<Rightarrow> jval" where
  "json_MediaBody b =
    JvObj [(''track'', JvStr (mb_Track b)), (''chunk'', JvStr (mb_Chunk b)), (''timestamp'', JvStr (mb_Timestamp b)),
      (''payload'', JvStr (mb_Payload b))]"

definition json_MediaEvent :: "MediaEvent \<Rightarrow> jval" where
  "json_MediaEvent e =
    JvObj [(''event'', JvStr (me_Event e)), (''sequenceNumber'', JvStr (me_SequenceNumber e)), (''streamSid'', JvStr (me_StreamSid e)),
      (''media'', json_MediaBody (me_Media e))]"

definition json_StopBody :: "StopBody \<Rightarrow> jval" where
  "json_StopBody b = JvObj [(''accountSid'', JvStr (tb_AccountSid b)), (''callSid'', JvStr (tb_CallSid b))]"

definition json_StopEvent :: "StopEvent \<Rightarrow> jval" where
  "json_StopEvent e =
    JvObj [(''event'', JvStr (te_Event e)), (''sequenceNumber'', JvStr (te_SequenceNumber e)), (''streamSid'', JvStr (te_StreamSid e)),
      (''stop'', json_StopBody (te_Stop e))]"

definition json_DtmfBody :: "DtmfBody \<Rightarrow> jval" where
  "json_DtmfBody b = JvObj [(''track'', JvStr (db_Track b)), (''digit'', JvStr (db_Digit b))]"

definition json_DtmfEvent :: "DtmfEvent \<Rightarrow> jval" where
  "json_DtmfEvent e =
    JvObj [(''event'', JvStr (de_Event e)), (''streamSid'', JvStr (de_StreamSid e)), (''sequenceNumber'', JvStr (de_SequenceNumber e)),
      (''dtmf'', json_DtmfBody (de_Dtmf e))]"

definition json_MarkBody :: "MarkBody \<Rightarrow> jval" where
  "json_MarkBody b = JvObj [(''name'', JvStr (kb_Name b))]"

definition json_MarkEvent :: "MarkEvent \<Rightarrow> jval" where
  "json_MarkEvent e =
    JvObj [(''event'', JvStr (ke_Event e)), (''sequenceNumber'', JvStr (ke_SequenceNumber e)), (''streamSid'', JvStr (ke_StreamSid e)),
      (''mark'', json_MarkBody (ke_Mark e))]"

subsection \<open>What is sent\<close>

definition sendConnected :: jval where
  "sendConnected = json_ConnectedEvent \<lparr> ce_Event = ''connected'', ce_Protocol = ''Call'', ce_Version = ''1.0.0'' \<rparr>"

definition identity_params :: "ws_ids \<Rightarrow> (string \<times> string) list" where
  "identity_params ids =
    [(''sipCallId'', wi_callID ids), (''From'', wi_from ids), (''To'', wi_to ids), (''CallSid'', wi_callSid ids),
     (''AccountSid'', wi_accountSid ids)]"

definition merge_params :: "(string \<times> string) list \<Rightarrow> (string \<times> string) list \<Rightarrow> (string \<times> string) list" where
  "merge_params params extra =
    foldl (\<lambda>ps (k, v). if k \<in> fst ` set ps then ps else ps @ [(k, v)]) params extra"

definition sendStart :: "ws_ids \<Rightarrow> jval" where
  "sendStart ids =
    json_StartEvent \<lparr> se_Event = ''start'', se_SequenceNumber = ''1'', se_StreamSid = wi_streamSid ids,
      se_Start = \<lparr> sb_StreamSid = wi_streamSid ids, sb_AccountSid = wi_accountSid ids, sb_CallSid = wi_callSid ids,
        sb_Tracks = [''inbound'', ''outbound''], sb_CustomParameters = merge_params (identity_params ids) (wi_custom ids),
        sb_MediaFormat = \<lparr> mf_Encoding = wi_encoding ids, mf_SampleRate = wi_sampleRate ids, mf_Channels = 1 \<rparr> \<rparr> \<rparr>"

definition seq_text :: "32 word \<Rightarrow> string" where
  "seq_text n = nat_digits (unat n)"

text \<open>\<open>ms\<close> is the time since the pacer started, in milliseconds.\<close>

definition send_media :: "ws_ids \<Rightarrow> int \<Rightarrow> byte list \<Rightarrow> 32 word \<Rightarrow> jval" where
  "send_media ids ms payload seq =
    json_MediaEvent \<lparr> me_Event = ''media'', me_SequenceNumber = seq_text seq, me_StreamSid = wi_streamSid ids,
      me_Media = \<lparr> mb_Track = ''inbound'', mb_Chunk = seq_text seq, mb_Timestamp = itoa ms, mb_Payload = b64_encode payload \<rparr> \<rparr>"

definition sendStop :: "ws_ids \<Rightarrow> jval" where
  "sendStop ids =
    json_StopEvent \<lparr> te_Event = ''stop'', te_SequenceNumber = '''', te_StreamSid = wi_streamSid ids,
      te_Stop = \<lparr> tb_AccountSid = wi_accountSid ids, tb_CallSid = wi_callSid ids \<rparr> \<rparr>"

definition sendDTMF :: "ws_ids \<Rightarrow> string \<Rightarrow> 32 word \<Rightarrow> jval" where
  "sendDTMF ids digit seq =
    json_DtmfEvent \<lparr> de_Event = ''dtmf'', de_StreamSid = wi_streamSid ids, de_SequenceNumber = seq_text seq,
      de_Dtmf = \<lparr> db_Track = ''inbound_track'', db_Digit = digit \<rparr> \<rparr>"

definition sendMarkEcho :: "ws_ids \<Rightarrow> string \<Rightarrow> 32 word \<Rightarrow> jval" where
  "sendMarkEcho ids name seq =
    json_MarkEvent \<lparr> ke_Event = ''mark'', ke_SequenceNumber = seq_text seq, ke_StreamSid = wi_streamSid ids,
      ke_Mark = \<lparr> kb_Name = name \<rparr> \<rparr>"

text \<open>The event of a frame of the log.\<close>

fun wire :: "ws_ids \<Rightarrow> int \<Rightarrow> ws_frame \<Rightarrow> jval" where
  "wire ids ms WsConnected = sendConnected"
| "wire ids ms WsStart = sendStart ids"
| "wire ids ms WsStop = sendStop ids"
| "wire ids ms (WsMedia p n) = send_media ids ms p n"
| "wire ids ms (WsDtmf d n) = sendDTMF ids d n"
| "wire ids ms (WsMark m n) = sendMarkEcho ids m n"

lemmas event_defs = sendConnected_def sendStart_def send_media_def sendStop_def sendDTMF_def sendMarkEcho_def
  json_ConnectedEvent_def json_StartEvent_def json_StartEventBody_def json_MediaFormat_def json_MediaEvent_def json_MediaBody_def
  json_StopEvent_def json_StopBody_def json_DtmfEvent_def json_DtmfBody_def json_MarkEvent_def json_MarkBody_def

section \<open>The consumer\<close>

fun jv_get :: "string \<Rightarrow> jval \<Rightarrow> jval option" where
  "jv_get k (JvObj fs) = map_of fs k"
| "jv_get k _ = None"

fun jv_path :: "string list \<Rightarrow> jval \<Rightarrow> jval option" where
  "jv_path [] v = Some v"
| "jv_path (k # ks) v = (case jv_get k v of None \<Rightarrow> None | Some w \<Rightarrow> jv_path ks w)"

definition jv_str :: "string list \<Rightarrow> jval \<Rightarrow> string option" where
  "jv_str ks v = (case jv_path ks v of Some (JvStr x) \<Rightarrow> Some x | _ \<Rightarrow> None)"

definition jv_seq :: "jval \<Rightarrow> 32 word option" where
  "jv_seq v = (case jv_str [''sequenceNumber''] v of None \<Rightarrow> None | Some x \<Rightarrow> map_option word_of_int (atoi x))"

definition with_seq :: "('a \<Rightarrow> 32 word \<Rightarrow> ws_frame) \<Rightarrow> 'a option \<Rightarrow> jval \<Rightarrow> ws_frame option" where
  "with_seq f x v = (case (x, jv_seq v) of (Some y, Some n) \<Rightarrow> Some (f y n) | _ \<Rightarrow> None)"

text \<open>What a consumer of the published schema understands.\<close>

definition view :: "jval \<Rightarrow> ws_frame option" where
  "view v =
    (let e = jv_str [''event''] v in
     if e = Some ''connected'' then Some WsConnected
     else if e = Some ''start'' then Some WsStart
     else if e = Some ''stop'' then Some WsStop
     else if e = Some ''media'' then
       with_seq WsMedia (case jv_str [''media'', ''payload''] v of None \<Rightarrow> None | Some x \<Rightarrow> b64_decode x) v
     else if e = Some ''dtmf'' then with_seq WsDtmf (jv_str [''dtmf'', ''digit''] v) v
     else if e = Some ''mark'' then with_seq WsMark (jv_str [''mark'', ''name''] v) v
     else None)"

lemma atoi_seq_text [simp]: "map_option word_of_int (atoi (seq_text n)) = Some (n :: 32 word)"
proof -
  have "unat n < 4294967296" using unsigned_less[of n] by simp
  moreover have "int64_ok (int m)" if "m < 4294967296" for m
    using that by (simp add: int64_ok_def)
  ultimately have "atoi (itoa (int (unat n))) = Some (int (unat n))" by (intro atoi_itoa)
  then show ?thesis by (simp add: seq_text_def itoa_def)
qed

lemma view_wire: "view (wire ids ms f) = Some f"
  by (cases f) (simp_all add: view_def jv_str_def jv_seq_def with_seq_def event_defs Let_def)

section \<open>The identity of the call\<close>

lemma merge_params_Cons:
  "merge_params ps ((k, v) # extra) = merge_params (if map_of ps k \<noteq> None then ps else ps @ [(k, v)]) extra"
  by (simp add: merge_params_def map_of_eq_None_iff)

lemma map_of_snoc: "map_of (ps @ [(k, v)]) x = (case map_of ps x of Some y \<Rightarrow> Some y | None \<Rightarrow> if x = k then Some v else None)"
  by (simp add: map_add_def split: option.split)

lemma merge_params_map_of:
  "map_of (merge_params ps extra) x = (case map_of ps x of Some v \<Rightarrow> Some v | None \<Rightarrow> map_of extra x)"
proof (induction extra arbitrary: ps)
  case Nil
  then show ?case by (simp add: merge_params_def split: option.split)
next
  case (Cons e extra)
  then show ?case
    by (cases e) (auto simp del: map_of_append simp: merge_params_Cons map_of_snoc split: option.split)
qed

lemma merge_params_distinct: "distinct (map fst ps) \<Longrightarrow> distinct (map fst (merge_params ps extra))"
proof (induction extra arbitrary: ps)
  case Nil
  then show ?case by (simp add: merge_params_def)
next
  case (Cons e extra)
  then show ?case by (cases e) (simp add: merge_params_Cons map_of_eq_None_iff)
qed

lemma map_of_sort_key: "distinct (map fst xs) \<Longrightarrow> map_of (sort_key fst xs) = map_of xs"
proof -
  assume d: "distinct (map fst xs)"
  have "distinct (map fst (sort_key fst xs))"
    using d by (metis mset_eq_imp_distinct_iff mset_map mset_sort)
  with d show ?thesis by (intro map_of_inject_set[THEN iffD2]) simp_all
qed

lemma start_param:
  "jv_str [''start'', ''customParameters'', k] (sendStart ids) =
    (case map_of (identity_params ids) k of Some v \<Rightarrow> Some v | None \<Rightarrow> map_of (wi_custom ids) k)"
proof -
  have d: "distinct (map fst (identity_params ids))" by (simp add: identity_params_def)
  have m: "map_of (map (map_prod id JvStr) xs) k = map_option JvStr (map_of xs k)" for xs :: "(string \<times> string) list"
    by (induction xs) auto
  show ?thesis
    using merge_params_map_of[of "identity_params ids" "wi_custom ids" k]
    by (auto simp: jv_str_def sendStart_def event_defs m map_of_sort_key[OF merge_params_distinct[OF d]] split: option.splits)
qed

text \<open>C38. The events on the wire say what the session logged, and whose call it is: a
  consumer of the published schema reads every frame back exactly, its audio,
  digit or mark and its sequence number; every event but the first carries the
  stream's identifier; and in the start event the identity of the call, at the
  top level and among the custom parameters, is the session's own whatever the
  document's parameters are, while every other parameter of the document
  arrives.\<close>

theorem wire_refines_frames:
  "map (\<lambda>(ms, f). view (wire ids ms f)) frames = map (Some \<circ> snd) frames \<and>
   jv_str [''streamSid''] (wire ids ms f) = (if f = WsConnected then None else Some (wi_streamSid ids)) \<and>
   jv_str [''start'', ''callSid''] (sendStart ids) = Some (wi_callSid ids) \<and>
   jv_str [''start'', ''customParameters'', ''CallSid''] (sendStart ids) = Some (wi_callSid ids) \<and>
   jv_str [''start'', ''customParameters'', ''AccountSid''] (sendStart ids) = Some (wi_accountSid ids) \<and>
   jv_str [''start'', ''customParameters'', ''From''] (sendStart ids) = Some (wi_from ids) \<and>
   jv_str [''start'', ''customParameters'', ''To''] (sendStart ids) = Some (wi_to ids) \<and>
   jv_str [''start'', ''customParameters'', ''sipCallId''] (sendStart ids) = Some (wi_callID ids) \<and>
   jv_str [''start'', ''customParameters'', k] (sendStart ids) =
     (if k \<in> fst ` set (identity_params ids) then map_of (identity_params ids) k else map_of (wi_custom ids) k)"
proof (intro conjI)
  show "map (\<lambda>(ms, f). view (wire ids ms f)) frames = map (Some \<circ> snd) frames" by (auto simp: view_wire)
  show "jv_str [''streamSid''] (wire ids ms f) = (if f = WsConnected then None else Some (wi_streamSid ids))"
    by (cases f) (simp_all add: jv_str_def event_defs)
  show "jv_str [''start'', ''callSid''] (sendStart ids) = Some (wi_callSid ids)"
    by (simp add: jv_str_def event_defs)
  show "jv_str [''start'', ''customParameters'', k] (sendStart ids) =
     (if k \<in> fst ` set (identity_params ids) then map_of (identity_params ids) k else map_of (wi_custom ids) k)"
    by (auto simp: start_param map_of_eq_None_iff dest!: map_of_SomeD split: option.split) (metis fst_conv image_eqI)
qed (simp_all add: start_param identity_params_def)

end
