(* ===== verification/Metric_Lint.thy ===== *)
theory Metric_Lint
  imports Prelude "HOL-Library.AList"
begin

text \<open>
  The metric-label linter, \<^verbatim>\<open>cmd/lint-metrics\<close>: four passes over the syntax trees of
  the packages.  Pass 0 collects the annotated bucketers and the string constants,
  pass 1 the metric vectors with their allow-lists, pass 2 classifies every label
  argument, pass 3 checks the fields of log chains.  The trees are those of the
  standard library's \<^verbatim>\<open>go/ast\<close>, with the constructors the passes tell apart and one
  constructor for every other node; what \<^verbatim>\<open>go/types\<close> knows of an identifier is stored
  at the identifier.  A run that ends the process, by a nil dereference or by
  exhausting the stack, is \<^const>\<open>None\<close>.
\<close>

section \<open>Syntax trees\<close>

record position =
  p_file :: string
  p_line :: int
  p_column :: int

record comment =
  c_line :: int
  c_text :: string

record comment_group =
  cg_list :: "comment list"
  cg_end :: int

datatype basic_kind = KString | KUntypedString | KOtherBasic

datatype const_value = StringValue string | OtherValue

text \<open>An object of \<^verbatim>\<open>go/types\<close>; variables are compared by identity.  The package of a
  function is missing for the methods of the universe, \<^verbatim>\<open>error.Error\<close> is one.  A
  result or constant type is \<^const>\<open>None\<close> when its underlying type is not basic.\<close>

datatype object =
    Var nat
  | Const "basic_kind option" const_value
  | Func "string option" string "basic_kind option list"
  | PkgName string
  | OtherObject

datatype lit_kind = STRING | OTHER_LIT
datatype assign_tok = DEFINE | ASSIGN | OP_ASSIGN
datatype gen_tok = TOK_CONST | TOK_VAR | OTHER_GEN

datatype node =
    BasicLit position lit_kind string
  | Ident position string "object option" "object option"
  | SelectorExpr node node
  | CallExpr node "node list" int
  | CompositeLit position "node option" "node list"
  | AssignStmt position assign_tok "node list" "node list"
  | RangeStmt position "node option" "node option" node node
  | ValueSpec position "comment_group option" "node list" "node option" "node list"
  | GenDecl position gen_tok "comment_group option" "node list"
  | FuncDecl position "comment_group option" node "node list" "node list" "node option"
  | OtherNode position "node list"

text \<open>The fields are, in order: of an identifier its definition and its use; of a call
  the line of its parenthesis; of a function its name, the names of its parameters,
  the rest of its receiver and type, and its body.\<close>

record go_file =
  f_decls :: "node list"
  f_comments :: "comment_group list"

record package =
  pk_path :: string
  pk_syntax :: "go_file list option"

definition files_of :: "package \<Rightarrow> go_file list" where
  "files_of p = (case pk_syntax p of None \<Rightarrow> [] | Some fs \<Rightarrow> fs)"

text \<open>\<^verbatim>\<open>ast.Inspect\<close> with a visitor that never prunes: all nodes in depth-first order.\<close>

fun inspect :: "node \<Rightarrow> node list" where
  "inspect (BasicLit p k t) = [BasicLit p k t]"
| "inspect (Ident p n d u) = [Ident p n d u]"
| "inspect (SelectorExpr x s) = SelectorExpr x s # inspect x @ inspect s"
| "inspect (CallExpr f as l) = CallExpr f as l # inspect f @ concat (map inspect as)"
| "inspect (CompositeLit p t es) =
    CompositeLit p t es # (case t of None \<Rightarrow> [] | Some x \<Rightarrow> inspect x) @ concat (map inspect es)"
| "inspect (AssignStmt p k ls rs) = AssignStmt p k ls rs # concat (map inspect ls) @ concat (map inspect rs)"
| "inspect (RangeStmt p k v x b) =
    RangeStmt p k v x b # (case k of None \<Rightarrow> [] | Some n \<Rightarrow> inspect n)
      @ (case v of None \<Rightarrow> [] | Some n \<Rightarrow> inspect n) @ inspect x @ inspect b"
| "inspect (ValueSpec p d ns t vs) =
    ValueSpec p d ns t vs # concat (map inspect ns)
      @ (case t of None \<Rightarrow> [] | Some x \<Rightarrow> inspect x) @ concat (map inspect vs)"
| "inspect (GenDecl p k d ss) = GenDecl p k d ss # concat (map inspect ss)"
| "inspect (FuncDecl p d n ps hs b) =
    FuncDecl p d n ps hs b # inspect n @ concat (map inspect ps) @ concat (map inspect hs)
      @ (case b of None \<Rightarrow> [] | Some x \<Rightarrow> inspect x)"
| "inspect (OtherNode p cs) = OtherNode p cs # concat (map inspect cs)"

fun node_pos :: "node \<Rightarrow> position" where
  "node_pos (SelectorExpr x s) = node_pos x"
| "node_pos (CallExpr f as l) = node_pos f"
| "node_pos (BasicLit p k t) = p"
| "node_pos (Ident p n d u) = p"
| "node_pos (CompositeLit p t es) = p"
| "node_pos (AssignStmt p k ls rs) = p"
| "node_pos (RangeStmt p k v x b) = p"
| "node_pos (ValueSpec p d ns t vs) = p"
| "node_pos (GenDecl p k d ss) = p"
| "node_pos (FuncDecl p d n ps hs b) = p"
| "node_pos (OtherNode p cs) = p"

fun id_name :: "node \<Rightarrow> string" where
  "id_name (Ident p n d u) = n"
| "id_name _ = []"

fun Defs :: "node \<Rightarrow> object option" where
  "Defs (Ident p n d u) = d"
| "Defs _ = None"

fun ObjectOf :: "node \<Rightarrow> object option" where
  "ObjectOf (Ident p n d u) = (case d of Some obj \<Rightarrow> Some obj | None \<Rightarrow> u)"
| "ObjectOf _ = None"

fun as_var :: "object option \<Rightarrow> nat option" where
  "as_var (Some (Var v)) = Some v"
| "as_var _ = None"

section \<open>Comments and texts\<close>

text \<open>\<^verbatim>\<open>strings.Trim(s, q)\<close> for the quote: all leading and trailing quotes go.\<close>

definition trim_quotes :: "string \<Rightarrow> string" where
  "trim_quotes = trim_left (\<lambda>c. c = CHR 0x22) \<circ> trim_right (\<lambda>c. c = CHR 0x22)"

definition is_word :: "char \<Rightarrow> bool" where
  "is_word c \<longleftrightarrow> is_digit c \<or> (let n = of_char c :: nat in 65 \<le> n \<and> n \<le> 90 \<or> 97 \<le> n \<and> n \<le> 122 \<or> n = 95)"

text \<open>The annotations \<^verbatim>\<open>^//\s*metrics:NAME\b\<close>, on a comment whose outer blanks are gone.\<close>

definition annotation_rest :: "string \<Rightarrow> string \<Rightarrow> string option" where
  "annotation_rest name text =
    (let body = trim_left is_space (drop 2 text); word = ''metrics:'' @ name in
     if has_prefix text ''//'' \<and> has_prefix body word then Some (drop (length word) body) else None)"

definition annotated :: "string \<Rightarrow> string \<Rightarrow> bool" where
  "annotated name text \<longleftrightarrow> (case annotation_rest name (trim_space text) of None \<Rightarrow> False
     | Some r \<Rightarrow> r = [] \<or> \<not> is_word (hd r))"

abbreviation "bucketerRe \<equiv> annotated ''bucketer''"
abbreviation "dynAllowedRe \<equiv> annotated ''dynamic-allowed''"
abbreviation "urlAllowedRe \<equiv> annotated ''url-allowed''"

text \<open>\<^verbatim>\<open>^//\s*metrics:allowlist\s+(.+)$\<close>: the body is what follows the blanks.\<close>

definition allowlist_body :: "string \<Rightarrow> string option" where
  "allowlist_body text = (case annotation_rest ''allowlist'' (trim_space text) of
      Some (c # r) \<Rightarrow> if is_space c then Some (trim_left is_space r) else None
    | _ \<Rightarrow> None)"

definition parse_allow_token :: "string \<Rightarrow> (string \<times> string list) option" where
  "parse_allow_token tok = (case index_of tok ''='' of
      None \<Rightarrow> None
    | Some eq \<Rightarrow> if eq = 0 then None else Some (take eq tok, split_on CHR ''|'' (drop (Suc eq) tok)))"

definition add_values :: "(string \<Rightarrow> string list) \<Rightarrow> string \<times> string list \<Rightarrow> string \<Rightarrow> string list" where
  "add_values out lv = out(fst lv := out (fst lv) @ snd lv)"

definition parseAllowlistDoc :: "comment_group option \<Rightarrow> string \<Rightarrow> string list" where
  "parseAllowlistDoc cg = (case cg of None \<Rightarrow> (\<lambda>_. [])
    | Some g \<Rightarrow> foldl add_values (\<lambda>_. [])
        (concat (map (\<lambda>c. case allowlist_body (c_text c) of None \<Rightarrow> []
           | Some body \<Rightarrow> List.map_filter parse_allow_token (str_fields body)) (cg_list g))))"

definition docHasComment :: "comment_group option \<Rightarrow> (string \<Rightarrow> bool) \<Rightarrow> bool" where
  "docHasComment cg re \<longleftrightarrow> (case cg of None \<Rightarrow> False | Some g \<Rightarrow> \<exists>c \<in> set (cg_list g). re (c_text c))"

definition findAdjacentDocAbove :: "go_file \<Rightarrow> int \<Rightarrow> comment_group option" where
  "findAdjacentDocAbove file target = find (\<lambda>cg. cg_end cg = target - 1) (f_comments file)"

definition lineHasOptOut :: "go_file \<Rightarrow> int \<Rightarrow> (string \<Rightarrow> bool) \<Rightarrow> bool" where
  "lineHasOptOut file target re \<longleftrightarrow> (\<exists>cg \<in> set (f_comments file). \<exists>c \<in> set (cg_list cg).
     (c_line c = target \<or> cg_end cg = target - 1) \<and> re (c_text c))"

text \<open>The leak patterns.\<close>

definition lower_hex :: "char \<Rightarrow> bool" where
  "lower_hex c \<longleftrightarrow> is_digit c \<or> (let n = of_char c :: nat in 97 \<le> n \<and> n \<le> 102)"

definition sid_pattern :: "string \<Rightarrow> string \<Rightarrow> bool" where
  "sid_pattern prefix s \<longleftrightarrow> has_prefix s prefix \<and> length s = length prefix + 32 \<and> list_all lower_hex (drop (length prefix) s)"

definition e164Re :: "string \<Rightarrow> bool" where
  "e164Re s \<longleftrightarrow> (let d = trim_prefix s ''+'' in 8 \<le> length d \<and> list_all is_digit d)"

definition urlRe :: "string \<Rightarrow> bool" where
  "urlRe s \<longleftrightarrow> has_prefix s ''http://'' \<or> has_prefix s ''https://''"

definition rawStatusRe :: "string \<Rightarrow> bool" where
  "rawStatusRe s \<longleftrightarrow> length s = 3 \<and> list_all is_digit s \<and> hd s \<in> set ''12345''"

datatype reason =
    BadBucketer
  | RawStatus | AccountSidPattern | CallSidPattern | UrlPattern | PhonePattern
  | NotInAllowlist string string string
  | NonStringLiteral | UnresolvableCall | NotABucketer string
  | FuncParam | Untraceable | AssignedFrom reason
  | NonConstSelector | NonLiteral
  | LeakField string

definition literalLeakReason :: "string \<Rightarrow> reason option" where
  "literalLeakReason s =
    (if rawStatusRe s then Some RawStatus
     else if sid_pattern ''AC'' s then Some AccountSidPattern
     else if sid_pattern ''CA'' s then Some CallSidPattern
     else if urlRe s then Some UrlPattern
     else if e164Re s then Some PhonePattern
     else None)"

record diagnostic =
  d_position :: position
  d_vector :: string
  d_label :: string
  d_value :: string
  d_reason :: reason

section \<open>The walker: passes 0 and 1\<close>

text \<open>The maps keyed by variables are keyed by their identities; the names of the vectors
  are an association list, because a lookup ranges over them.\<close>

record walker =
  w_pkgs :: "package list"
  w_finalized :: bool
  w_diagnostics :: "diagnostic list"
  w_bucketers :: "string set"
  w_enumConsts :: "string \<rightharpoonup> string"
  w_allowlists :: "nat \<rightharpoonup> (string \<Rightarrow> string list)"
  w_labelOrder :: "nat \<Rightarrow> string list"
  w_vectorName :: "(nat \<times> string) list"

definition NewWalker :: walker where
  "NewWalker = \<lparr> w_pkgs = [], w_finalized = False, w_diagnostics = [], w_bucketers = {},
    w_enumConsts = Map.empty, w_allowlists = Map.empty, w_labelOrder = (\<lambda>_. []), w_vectorName = [] \<rparr>"

definition WalkPackage :: "package option \<Rightarrow> walker \<Rightarrow> walker" where
  "WalkPackage pkg w = (case pkg of None \<Rightarrow> w
    | Some p \<Rightarrow> if pk_syntax p = None then w else w\<lparr>w_pkgs := w_pkgs w @ [p]\<rparr>)"

definition report :: "diagnostic list \<Rightarrow> walker \<Rightarrow> walker" where
  "report ds w = w\<lparr>w_diagnostics := w_diagnostics w @ ds\<rparr>"

definition decls_of :: "package \<Rightarrow> node list" where
  "decls_of p = concat (map f_decls (files_of p))"

fun collect_bucketer :: "package \<Rightarrow> walker \<Rightarrow> node \<Rightarrow> walker" where
  "collect_bucketer p w (FuncDecl pos doc name params hs body) =
    (if \<not> docHasComment doc bucketerRe then w
     else case Defs name of
        Some (Func pkg n results) \<Rightarrow>
          if results = [Some KString] then w\<lparr>w_bucketers := insert (pk_path p @ ''.'' @ n) (w_bucketers w)\<rparr>
          else report [\<lparr> d_position = pos, d_vector = n, d_label = '''', d_value = '''', d_reason = BadBucketer \<rparr>] w
      | _ \<Rightarrow> w)"
| "collect_bucketer p w _ = w"

definition collectBucketers :: "package \<Rightarrow> walker \<Rightarrow> walker" where
  "collectBucketers p w = foldl (collect_bucketer p) w (decls_of p)"

definition enumConstString :: "object option \<Rightarrow> string option" where
  "enumConstString obj = (case obj of
      Some (Const kind v) \<Rightarrow>
        if kind \<noteq> Some KString \<and> kind \<noteq> Some KUntypedString then None
        else (case v of StringValue s \<Rightarrow> Some s | OtherValue \<Rightarrow> None)
    | _ \<Rightarrow> None)"

definition collect_const :: "package \<Rightarrow> walker \<Rightarrow> node \<Rightarrow> walker" where
  "collect_const p w name = (case enumConstString (Defs name) of None \<Rightarrow> w
    | Some v \<Rightarrow> w\<lparr>w_enumConsts := (w_enumConsts w)(pk_path p @ ''.'' @ id_name name \<mapsto> v)\<rparr>)"

fun spec_names :: "node \<Rightarrow> node list" where
  "spec_names (ValueSpec p d names t values) = names"
| "spec_names _ = []"

fun const_names :: "node \<Rightarrow> node list" where
  "const_names (GenDecl p TOK_CONST d specs) = concat (map spec_names specs)"
| "const_names _ = []"

definition collectEnumConsts :: "package \<Rightarrow> walker \<Rightarrow> walker" where
  "collectEnumConsts p w = foldl (collect_const p) w (concat (map const_names (decls_of p)))"

fun string_elements :: "node list \<Rightarrow> string list" where
  "string_elements [] = []"
| "string_elements (BasicLit p STRING t # es) = trim_quotes t # string_elements es"
| "string_elements (e # es) = string_elements es"

fun composite_labels :: "node \<Rightarrow> string list" where
  "composite_labels (CompositeLit p t es) = string_elements es"
| "composite_labels _ = []"

text \<open>The labels and the kind of a vector constructor; no match is the empty kind.\<close>

fun matchPromVecConstructor :: "node \<Rightarrow> string list \<times> string" where
  "matchPromVecConstructor (CallExpr (SelectorExpr (Ident p n d u) sel) args l) =
    (if ObjectOf (Ident p n d u) \<noteq> Some (PkgName ''github.com/prometheus/client_golang/prometheus'') then ([], '''')
     else if id_name sel \<noteq> ''NewCounterVec'' \<and> id_name sel \<noteq> ''NewHistogramVec'' then ([], '''')
     else if length args < 2 then ([], id_name sel)
     else (composite_labels (args ! 1), id_name sel))"
| "matchPromVecConstructor _ = ([], '''')"

definition record_vector :: "nat \<Rightarrow> string \<Rightarrow> string list \<Rightarrow> comment_group option \<Rightarrow> walker \<Rightarrow> walker" where
  "record_vector v name labels doc w = w\<lparr>w_vectorName := AList.update v name (w_vectorName w),
     w_labelOrder := (w_labelOrder w)(v := labels),
     w_allowlists := (w_allowlists w)(v \<mapsto> parseAllowlistDoc doc)\<rparr>"

definition collect_vector :: "nat option \<Rightarrow> string \<Rightarrow> node \<Rightarrow> comment_group option \<Rightarrow> walker \<Rightarrow> walker" where
  "collect_vector vobj name call doc w =
    (let (labels, kind) = matchPromVecConstructor call in
     if kind = '''' then w else case vobj of None \<Rightarrow> w | Some v \<Rightarrow> record_vector v name labels doc w)"

fun collect_spec :: "comment_group option \<Rightarrow> walker \<Rightarrow> node \<Rightarrow> walker" where
  "collect_spec gdoc w (ValueSpec p d names t values) =
    foldl (\<lambda>w (name, value). collect_vector (as_var (Defs name)) (id_name name) value (if d \<noteq> None then d else gdoc) w)
      w (zip names values)"
| "collect_spec gdoc w _ = w"

fun collect_var_decl :: "walker \<Rightarrow> node \<Rightarrow> walker" where
  "collect_var_decl w (GenDecl p TOK_VAR doc specs) = foldl (collect_spec doc) w specs"
| "collect_var_decl w _ = w"

fun collect_assign :: "go_file \<Rightarrow> walker \<Rightarrow> node \<Rightarrow> walker" where
  "collect_assign file w (AssignStmt p tok lhs rhs) =
    (if tok = OP_ASSIGN then w
     else foldl (\<lambda>w (l, r). case l of
          Ident q n d u \<Rightarrow> collect_vector (as_var (if tok = DEFINE then Defs l else ObjectOf l)) n r
            (findAdjacentDocAbove file (p_line p)) w
        | _ \<Rightarrow> w) w (zip lhs rhs))"
| "collect_assign file w _ = w"

definition file_nodes :: "go_file \<Rightarrow> node list" where
  "file_nodes file = concat (map inspect (f_decls file))"

definition collectVectorAssignsInFuncs :: "go_file \<Rightarrow> walker \<Rightarrow> walker" where
  "collectVectorAssignsInFuncs file w = foldl (collect_assign file) w (file_nodes file)"

definition collectVectorDeclarations :: "package \<Rightarrow> walker \<Rightarrow> walker" where
  "collectVectorDeclarations p w =
    foldl (\<lambda>w file. collectVectorAssignsInFuncs file (foldl collect_var_decl w (f_decls file))) w (files_of p)"

section \<open>Pass 2: the values a label may take\<close>

fun resolveCallTarget :: "node \<Rightarrow> (string option \<times> string) option" where
  "resolveCallTarget fn = (case (case fn of SelectorExpr x s \<Rightarrow> ObjectOf s | _ \<Rightarrow> ObjectOf fn) of
      Some (Func pkg n results) \<Rightarrow> Some (pkg, n) | _ \<Rightarrow> None)"

text \<open>\<^verbatim>\<open>obj.Pkg().Path()\<close> dereferences nil for a method of the universe.\<close>

definition qualified_name :: "string option \<times> string \<Rightarrow> string option" where
  "qualified_name f = (case fst f of None \<Rightarrow> None | Some pkg \<Rightarrow> Some (pkg @ ''.'' @ snd f))"

fun fn_params :: "node \<Rightarrow> node list" where
  "fn_params (FuncDecl p d n ps hs b) = ps"
| "fn_params _ = []"

fun fn_body :: "node \<Rightarrow> node option" where
  "fn_body (FuncDecl p d n ps hs b) = b"
| "fn_body _ = None"

definition isFuncParam :: "node \<Rightarrow> node option \<Rightarrow> bool" where
  "isFuncParam ident fn \<longleftrightarrow> (case fn of None \<Rightarrow> False | Some f \<Rightarrow>
     (case as_var (ObjectOf ident) of None \<Rightarrow> False
      | Some v \<Rightarrow> \<exists>n \<in> set (fn_params f). Defs n = Some (Var v)))"

definition assigned_sources :: "nat \<Rightarrow> node list \<Rightarrow> node list \<Rightarrow> node list" where
  "assigned_sources v lhs rhs = concat (map (\<lambda>(i, l).
     if ObjectOf l \<noteq> Some (Var v) then []
     else if i < length rhs then [rhs ! i]
     else if length rhs = 1 then [rhs ! 0]
     else []) (enumerate 0 lhs))"

definition binds :: "nat \<Rightarrow> node option \<Rightarrow> bool" where
  "binds v ident \<longleftrightarrow> (case ident of None \<Rightarrow> False | Some n \<Rightarrow> Defs n = Some (Var v))"

fun sources_at :: "nat \<Rightarrow> node \<Rightarrow> node list" where
  "sources_at v (AssignStmt p tok lhs rhs) = assigned_sources v lhs rhs"
| "sources_at v (RangeStmt p k val x b) = (if binds v val then [x] else []) @ (if binds v k then [x] else [])"
| "sources_at v _ = []"

definition body_nodes :: "node option \<Rightarrow> node list" where
  "body_nodes fn = (case fn of None \<Rightarrow> [] | Some f \<Rightarrow> (case fn_body f of None \<Rightarrow> [] | Some b \<Rightarrow> inspect b))"

definition traceLocalVarSources :: "node \<Rightarrow> node option \<Rightarrow> node list" where
  "traceLocalVarSources ident fn = (case as_var (ObjectOf ident) of None \<Rightarrow> []
     | Some v \<Rightarrow> concat (map (sources_at v) (body_nodes fn)))"

text \<open>The result of the classifier, with the text of a literal or constant, which is empty
  for the other accepted forms.\<close>

datatype classification = Accepted string | Rejected reason

text \<open>The classifier is recursive through the sources of local variables.  What it decides
  without looking at them is one definition, the loop over the sources another.  Of the
  walker it reads the set of bucketers.\<close>

datatype class_step = Decided "classification option" | FromSources "node list"

fun classify_arg :: "string set \<Rightarrow> node option \<Rightarrow> node \<Rightarrow> class_step" where
  "classify_arg bucketers fn (BasicLit p k t) =
    Decided (Some (if k \<noteq> STRING then Rejected NonStringLiteral else Accepted (trim_quotes t)))"
| "classify_arg bucketers fn (CallExpr f args l) = Decided (case resolveCallTarget f of
      None \<Rightarrow> Some (Rejected UnresolvableCall)
    | Some obj \<Rightarrow> (case qualified_name obj of None \<Rightarrow> None
        | Some q \<Rightarrow> Some (if q \<in> bucketers then Accepted '''' else Rejected (NotABucketer q))))"
| "classify_arg bucketers fn (Ident p n d u) =
    (case enumConstString (ObjectOf (Ident p n d u)) of
       Some v \<Rightarrow> Decided (Some (Accepted v))
     | None \<Rightarrow>
        if isFuncParam (Ident p n d u) fn then Decided (Some (Rejected FuncParam))
        else (case traceLocalVarSources (Ident p n d u) fn of
            [] \<Rightarrow> Decided (Some (Rejected Untraceable))
          | s # ss \<Rightarrow> FromSources (s # ss)))"
| "classify_arg bucketers fn (SelectorExpr x s) = Decided (Some (case enumConstString (ObjectOf s) of
      Some v \<Rightarrow> Accepted v | None \<Rightarrow> Rejected NonConstSelector))"
| "classify_arg bucketers fn _ = Decided (Some (Rejected NonLiteral))"

definition from_sources :: "reason option \<Rightarrow> classification" where
  "from_sources r = (case r of None \<Rightarrow> Accepted '''' | Some why \<Rightarrow> Rejected (AssignedFrom why))"

text \<open>The reason of the first source that is not accepted.\<close>

partial_function (option) classify_sources :: "string set \<Rightarrow> node option \<Rightarrow> node list \<Rightarrow> reason option option" where
  "classify_sources bucketers fn srcs = (case srcs of
      [] \<Rightarrow> Some None
    | src # rest \<Rightarrow> Option.bind
        (case classify_arg bucketers fn src of
           Decided c \<Rightarrow> c
         | FromSources ss \<Rightarrow> Option.bind (classify_sources bucketers fn ss) (\<lambda>r. Some (from_sources r)))
        (\<lambda>c. case c of Rejected why \<Rightarrow> Some (Some why) | Accepted _ \<Rightarrow> classify_sources bucketers fn rest))"

declare classify_sources.simps [code]

definition classifyLabelArg :: "string set \<Rightarrow> node option \<Rightarrow> node \<Rightarrow> classification option" where
  "classifyLabelArg bucketers fn arg = (case classify_arg bucketers fn arg of
      Decided c \<Rightarrow> c
    | FromSources ss \<Rightarrow> Option.bind (classify_sources bucketers fn ss) (\<lambda>r. Some (from_sources r)))"

lemma classify_sources_Nil [simp]: "classify_sources bucketers fn [] = Some None"
  by (simp add: classify_sources.simps)

lemma classify_sources_Cons: "classify_sources bucketers fn (src # rest) =
    Option.bind (classifyLabelArg bucketers fn src)
      (\<lambda>c. case c of Rejected why \<Rightarrow> Some (Some why) | Accepted _ \<Rightarrow> classify_sources bucketers fn rest)"
  by (subst classify_sources.simps) (simp add: classifyLabelArg_def)

text \<open>The iteration over the map of vector names has no fixed order: \<open>order\<close> is the one the
  runtime takes at a receiver.\<close>

type_synonym map_order = "node \<Rightarrow> (nat \<times> string) list \<Rightarrow> (nat \<times> string) list"

definition equal_fold :: "string \<Rightarrow> string \<Rightarrow> bool" where
  "equal_fold s t \<longleftrightarrow> to_lower s = to_lower t"

definition tracked :: "walker \<Rightarrow> nat option \<Rightarrow> nat option" where
  "tracked w vobj = (case vobj of None \<Rightarrow> None | Some v \<Rightarrow> if w_allowlists w v = None then None else Some v)"

fun resolveReceiverVar :: "map_order \<Rightarrow> walker \<Rightarrow> node \<Rightarrow> nat option" where
  "resolveReceiverVar order w (Ident p n d u) = tracked w (as_var (ObjectOf (Ident p n d u)))"
| "resolveReceiverVar order w (SelectorExpr x s) = (case tracked w (as_var (ObjectOf s)) of
      Some v \<Rightarrow> Some v
    | None \<Rightarrow> map_option fst (find (\<lambda>(v, name). equal_fold name (id_name s))
        (order (SelectorExpr x s) (w_vectorName w))))"
| "resolveReceiverVar order w _ = None"

definition label_name :: "string list \<Rightarrow> nat \<Rightarrow> string" where
  "label_name labels i = (if i < length labels then labels ! i else '''')"

definition check_label :: "walker \<Rightarrow> nat \<Rightarrow> (string \<Rightarrow> string list) \<Rightarrow> bool \<Rightarrow> node option \<Rightarrow> nat \<times> node \<Rightarrow> diagnostic list option" where
  "check_label w v allow dynamicAllowed fn iarg =
    (let arg = snd iarg; labelName = label_name (w_labelOrder w v) (fst iarg);
         vname = (case map_of (w_vectorName w) v of None \<Rightarrow> '''' | Some n \<Rightarrow> n);
         diag = (\<lambda>value why. [\<lparr> d_position = node_pos arg, d_vector = vname, d_label = labelName, d_value = value, d_reason = why \<rparr>]) in
     map_option (\<lambda>c. case c of
         Accepted s \<Rightarrow>
           if s \<noteq> '''' \<and> s \<notin> set (allow labelName) then
             (case literalLeakReason s of Some why \<Rightarrow> diag s why | None \<Rightarrow> diag s (NotInAllowlist s labelName vname))
           else []
       | Rejected why \<Rightarrow> if dynamicAllowed then [] else diag '''' why)
     (classifyLabelArg (w_bucketers w) fn arg))"

fun checkWithLabelValuesCall :: "map_order \<Rightarrow> walker \<Rightarrow> go_file \<Rightarrow> node option \<Rightarrow> node \<Rightarrow> diagnostic list option" where
  "checkWithLabelValuesCall order w file fn (CallExpr (SelectorExpr x sel) args l) =
    (if id_name sel \<noteq> ''WithLabelValues'' then Some []
     else case resolveReceiverVar order w x of None \<Rightarrow> Some []
       | Some v \<Rightarrow> (case w_allowlists w v of None \<Rightarrow> Some []
          | Some allow \<Rightarrow> map_option concat (those (map
              (check_label w v allow (lineHasOptOut file l dynAllowedRe) fn) (enumerate 0 args)))))"
| "checkWithLabelValuesCall order w file fn _ = Some []"

text \<open>The calls of a file with the function declaration that was entered last.\<close>

fun call_sites :: "node option \<Rightarrow> node list \<Rightarrow> (node option \<times> node) list" where
  "call_sites cur [] = []"
| "call_sites cur (d # ds) =
    (let cur' = (case d of FuncDecl p doc n ps hs b \<Rightarrow> Some d | _ \<Rightarrow> cur) in
     map (Pair cur') (inspect d) @ call_sites cur' ds)"

definition check_file :: "map_order \<Rightarrow> walker \<Rightarrow> go_file \<Rightarrow> diagnostic list option" where
  "check_file order w file = map_option concat (those (map
     (\<lambda>(fn, call). checkWithLabelValuesCall order w file fn call) (call_sites None (f_decls file))))"

definition checkMetricCallSites :: "map_order \<Rightarrow> package \<Rightarrow> walker \<Rightarrow> walker option" where
  "checkMetricCallSites order p w =
    map_option (\<lambda>ds. report (concat ds) w) (those (map (check_file order w) (files_of p)))"

section \<open>Pass 3: log chains\<close>

definition logLeakFieldNames :: "string list" where
  "logLeakFieldNames = [''from'', ''to'', ''url'', ''caller'', ''callee'', ''to_uri'', ''from_uri'', ''target_url'', ''callback_url'']"

definition zerologInfoPlusLevels :: "string list" where
  "zerologInfoPlusLevels = [''Info'', ''Warn'', ''Error'', ''Fatal'', ''Panic'']"

definition zerologAllLevels :: "string list" where
  "zerologAllLevels = [''Trace'', ''Debug'', ''Info'', ''Warn'', ''Error'', ''Fatal'', ''Panic'']"

text \<open>The walk back from the receiver of the last call: the level and the \<^verbatim>\<open>Str\<close> calls, or
  the empty level when there is none.  The list is returned with the last call first.\<close>

fun walk_chain :: "node \<Rightarrow> node list \<Rightarrow> string \<times> node list" where
  "walk_chain (CallExpr (SelectorExpr x sel) args l) strCalls =
    (let name = id_name sel in
     if name = ''Str'' then walk_chain x (strCalls @ [CallExpr (SelectorExpr x sel) args l])
     else if name = ''Stringer'' then walk_chain x strCalls
     else if name \<in> set zerologAllLevels \<and> args = [] then (name, strCalls)
     else walk_chain x strCalls)"
| "walk_chain _ strCalls = ('''', [])"

definition walkZerologChain :: "node \<Rightarrow> string \<times> node list" where
  "walkZerologChain receiver = walk_chain receiver []"

fun zerologFieldName :: "node \<Rightarrow> string" where
  "zerologFieldName (CallExpr f args l) = (case args of
      [] \<Rightarrow> ''''
    | BasicLit p k t # _ \<Rightarrow> if k \<noteq> STRING then '''' else trim_quotes t
    | Ident p n d u # _ \<Rightarrow> (case enumConstString (ObjectOf (Ident p n d u)) of Some v \<Rightarrow> v | None \<Rightarrow> '''')
    | SelectorExpr x s # _ \<Rightarrow> (case enumConstString (ObjectOf s) of Some v \<Rightarrow> v | None \<Rightarrow> '''')
    | _ \<Rightarrow> '''')"
| "zerologFieldName _ = ''''"

definition leak_diagnostic :: "node \<Rightarrow> diagnostic list" where
  "leak_diagnostic sc =
    (if zerologFieldName sc \<in> set logLeakFieldNames
     then [\<lparr> d_position = node_pos sc, d_vector = '''', d_label = zerologFieldName sc, d_value = '''', d_reason = LeakField (zerologFieldName sc) \<rparr>]
     else [])"

fun check_chain :: "go_file \<Rightarrow> node \<Rightarrow> diagnostic list" where
  "check_chain file (CallExpr (SelectorExpr x sel) args l) =
    (if id_name sel \<notin> {''Msg'', ''Msgf'', ''Send''} then []
     else let (level, strCalls) = walkZerologChain x in
       if level = '''' then []
       else if level \<notin> set zerologInfoPlusLevels then []
       else if lineHasOptOut file l urlAllowedRe then []
       else concat (map leak_diagnostic strCalls))"
| "check_chain file _ = []"

definition checkLogChains :: "package \<Rightarrow> walker \<Rightarrow> walker" where
  "checkLogChains p w =
    foldl (\<lambda>w file. report (concat (map (check_chain file) (file_nodes file))) w) w (files_of p)"

section \<open>The pipeline\<close>

fun run_sites :: "map_order \<Rightarrow> package list \<Rightarrow> walker \<Rightarrow> walker option" where
  "run_sites order [] w = Some w"
| "run_sites order (p # ps) w = Option.bind (checkMetricCallSites order p w) (run_sites order ps)"

definition finalize :: "map_order \<Rightarrow> walker \<Rightarrow> walker option" where
  "finalize order w =
    (if w_finalized w then Some w
     else let w0 = foldl (\<lambda>w p. collectEnumConsts p (collectBucketers p w)) (w\<lparr>w_finalized := True\<rparr>) (w_pkgs w);
              w1 = foldl (\<lambda>w p. collectVectorDeclarations p w) w0 (w_pkgs w) in
       map_option (\<lambda>w2. foldl (\<lambda>w p. checkLogChains p w) w2 (w_pkgs w)) (run_sites order (w_pkgs w) w1))"

definition HasErrors :: "map_order \<Rightarrow> walker \<Rightarrow> (bool \<times> walker) option" where
  "HasErrors order w = map_option (\<lambda>w. (w_diagnostics w \<noteq> [], w)) (finalize order w)"

text \<open>The order of the output: by file, line and column, stably.\<close>

definition position_less :: "position \<Rightarrow> position \<Rightarrow> bool" where
  "position_less a b \<longleftrightarrow>
    (if p_file a \<noteq> p_file b then ord_class.lexordp (p_file a) (p_file b)
     else if p_line a \<noteq> p_line b then p_line a < p_line b
     else p_column a < p_column b)"

text \<open>\<^verbatim>\<open>sort.SliceStable\<close> under a strict order, as an insertion sort.\<close>

fun insert_stable :: "diagnostic \<Rightarrow> diagnostic list \<Rightarrow> diagnostic list" where
  "insert_stable d [] = [d]"
| "insert_stable d (e # es) =
    (if position_less (d_position e) (d_position d) then e # insert_stable d es else d # e # es)"

definition sort_diagnostics :: "diagnostic list \<Rightarrow> diagnostic list" where
  "sort_diagnostics ds = foldr insert_stable ds []"

definition PrintDiagnostics :: "map_order \<Rightarrow> walker \<Rightarrow> (diagnostic list \<times> walker) option" where
  "PrintDiagnostics order w = map_option (\<lambda>w. let ds = sort_diagnostics (w_diagnostics w) in (ds, w\<lparr>w_diagnostics := ds\<rparr>)) (finalize order w)"

text \<open>\<^verbatim>\<open>main\<close> after the packages are loaded: the exit code and what is printed.\<close>

definition lint_main :: "map_order \<Rightarrow> package list \<Rightarrow> (int \<times> diagnostic list) option" where
  "lint_main order pkgs =
    Option.bind (HasErrors order (foldl (\<lambda>w p. WalkPackage (Some p) w) NewWalker pkgs))
      (\<lambda>(bad, w). if bad then map_option (\<lambda>(ds, w). (1, ds)) (PrintDiagnostics order w) else Some (0, []))"

section \<open>What a run accumulates\<close>

lemma report_simps [simp]:
  "w_diagnostics (report ds w) = w_diagnostics w @ ds" "w_bucketers (report ds w) = w_bucketers w"
  "w_allowlists (report ds w) = w_allowlists w" "w_labelOrder (report ds w) = w_labelOrder w"
  "w_vectorName (report ds w) = w_vectorName w" "w_pkgs (report ds w) = w_pkgs w"
  "w_finalized (report ds w) = w_finalized w"
  "report ds' (report ds w) = report (ds @ ds') w"
  by (simp_all add: report_def)

lemma tracked_report [simp]: "tracked (report ds w) = tracked w"
  by (rule ext) (simp add: tracked_def cong: option.case_cong)

lemma resolveReceiverVar_report [simp]: "resolveReceiverVar order (report ds w) x = resolveReceiverVar order w x"
  by (cases x) (simp_all cong: option.case_cong)

lemma check_label_report [simp]: "check_label (report ds w) = check_label w"
  by (intro ext) (simp add: check_label_def Let_def)

lemma checkWithLabelValuesCall_report [simp]:
  "checkWithLabelValuesCall order (report ds w) file fn call = checkWithLabelValuesCall order w file fn call"
proof (cases "\<exists>x sel args l. call = CallExpr (SelectorExpr x sel) args l")
  case False
  then show ?thesis by (cases "(order, w, file, fn, call)" rule: checkWithLabelValuesCall.cases) auto
qed (auto cong: option.case_cong)

lemma check_file_report [simp]: "check_file order (report ds w) = check_file order w"
  by (rule ext) (simp add: check_file_def)

lemma foldl_report: "foldl (\<lambda>w x. report (f x) w) w xs = report (concat (map f xs)) w"
proof (induction xs arbitrary: w)
  case Nil
  then show ?case by (simp add: report_def)
qed simp

definition log_diagnostics :: "package \<Rightarrow> diagnostic list" where
  "log_diagnostics p = concat (map (\<lambda>file. concat (map (check_chain file) (file_nodes file))) (files_of p))"

lemma checkLogChains_eq: "checkLogChains p = report (log_diagnostics p)"
  by (rule ext) (simp add: checkLogChains_def log_diagnostics_def foldl_report)

lemma those_Some_iff: "those xs = Some ys \<longleftrightarrow> xs = map Some ys"
proof (induction xs arbitrary: ys)
  case (Cons x xs)
  then show ?case by (cases ys; cases x) auto
qed auto

lemma those_map_Some: "those (map f xs) = Some ys \<Longrightarrow> x \<in> set xs \<Longrightarrow> \<exists>y \<in> set ys. f x = Some y"
  by (auto simp: those_Some_iff map_eq_conv dest!: arg_cong[of _ _ set] intro: imageI)
    (metis imageE imageI)

lemma concat_those_empty:
  assumes "map_option concat (those (map f xs)) = Some ds" "set ds = {}" "x \<in> set xs"
  shows "f x = Some []"
proof -
  obtain yss where y: "those (map f xs) = Some yss" "concat yss = []" using assms(1,2) by auto
  from those_map_Some[OF y(1) assms(3)] y(2) show ?thesis by auto
qed

lemma run_sites_clean:
  assumes "run_sites order ps w = Some w'"
  shows "\<exists>ds. w' = report ds w \<and> (ds = [] \<longrightarrow> (\<forall>p \<in> set ps. \<forall>file \<in> set (files_of p). check_file order w file = Some []))"
  using assms
proof (induction ps arbitrary: w)
  case Nil
  then show ?case by (auto simp: report_def intro: exI[of _ "[]"])
next
  case (Cons p ps)
  then obtain yss where y: "those (map (check_file order w) (files_of p)) = Some yss"
      and r: "run_sites order ps (report (concat yss) w) = Some w'"
    by (auto simp: checkMetricCallSites_def bind_eq_Some_conv)
  from Cons.IH[OF r] obtain ds where ds: "w' = report ds (report (concat yss) w)"
      "ds = [] \<longrightarrow> (\<forall>p \<in> set ps. \<forall>file \<in> set (files_of p). check_file order w file = Some [])"
    by auto
  have "check_file order w fl = Some []" if "concat yss = []" "fl \<in> set (files_of p)" for fl
    using those_map_Some[OF y that(2)] that(1) by auto
  with ds show ?case by (auto intro!: exI[of _ "concat yss @ ds"])
qed

definition collected :: "walker \<Rightarrow> walker" where
  "collected w = foldl (\<lambda>w p. collectVectorDeclarations p w)
     (foldl (\<lambda>w p. collectEnumConsts p (collectBucketers p w)) (w\<lparr>w_finalized := True\<rparr>) (w_pkgs w)) (w_pkgs w)"

lemma finalize_shape:
  assumes "finalize order w = Some w'" "\<not> w_finalized w"
  shows "\<exists>ds. w' = report (ds @ concat (map log_diagnostics (w_pkgs w))) (collected w) \<and>
      (ds = [] \<longrightarrow> (\<forall>p \<in> set (w_pkgs w). \<forall>file \<in> set (files_of p). check_file order (collected w) file = Some []))"
proof -
  from assms obtain w2 where w2: "run_sites order (w_pkgs w) (collected w) = Some w2"
      "w' = foldl (\<lambda>w p. checkLogChains p w) w2 (w_pkgs w)"
    by (auto simp: finalize_def collected_def)
  from run_sites_clean[OF w2(1)] obtain ds where "w2 = report ds (collected w)"
      "ds = [] \<longrightarrow> (\<forall>p \<in> set (w_pkgs w). \<forall>file \<in> set (files_of p). check_file order (collected w) file = Some [])"
    by blast
  with w2(2) show ?thesis by (auto simp: checkLogChains_eq foldl_report)
qed

text \<open>A run that reports nothing has found nothing at any call site and in any chain.\<close>

lemma clean_run:
  assumes "finalize order w = Some w'" "\<not> w_finalized w" "w_diagnostics w' = []"
    and "p \<in> set (w_pkgs w)" "fl \<in> set (files_of p)"
  shows "check_file order w' fl = Some []" "\<forall>call \<in> set (file_nodes fl). check_chain fl call = []"
proof -
  from finalize_shape[OF assms(1,2)] obtain ds where ds:
      "w' = report (ds @ concat (map log_diagnostics (w_pkgs w))) (collected w)"
      "ds = [] \<longrightarrow> (\<forall>p \<in> set (w_pkgs w). \<forall>file \<in> set (files_of p). check_file order (collected w) file = Some [])"
    by blast
  with assms(3) have e: "ds = []" "log_diagnostics p = []" using assms(4) by auto
  from e(1) ds assms(4,5) show "check_file order w' fl = Some []" by simp
  from e(2) assms(5) show "\<forall>call \<in> set (file_nodes fl). check_chain fl call = []"
    by (auto simp: log_diagnostics_def)
qed

section \<open>The values behind an argument\<close>

text \<open>The values an expression may take, collected over the assignments of its function:
  \<open>results\<close> gives the values a function may return, by its qualified name.  A value that
  enters through a pointer or through an assignment in another function is not a value
  of this relation.\<close>

inductive may_take :: "(string \<Rightarrow> string set) \<Rightarrow> node option \<Rightarrow> node \<Rightarrow> string \<Rightarrow> bool"
  for results fn where
  literal: "may_take results fn (BasicLit p STRING t) (trim_quotes t)"
| const_ident: "enumConstString (ObjectOf (Ident p n d u)) = Some s \<Longrightarrow> may_take results fn (Ident p n d u) s"
| const_selector: "enumConstString (ObjectOf sel) = Some s \<Longrightarrow> may_take results fn (SelectorExpr x sel) s"
| returned: "resolveCallTarget f = Some obj \<Longrightarrow> qualified_name obj = Some q \<Longrightarrow> s \<in> results q
    \<Longrightarrow> may_take results fn (CallExpr f args l) s"
| assigned: "src \<in> set (traceLocalVarSources (Ident p n d u) fn) \<Longrightarrow> may_take results fn src s
    \<Longrightarrow> may_take results fn (Ident p n d u) s"

fun node_text :: "node \<Rightarrow> string option" where
  "node_text (BasicLit p k t) = (if k = STRING then Some (trim_quotes t) else None)"
| "node_text (Ident p n d u) = enumConstString (ObjectOf (Ident p n d u))"
| "node_text (SelectorExpr x s) = enumConstString (ObjectOf s)"
| "node_text _ = None"

lemma inspect_self [simp]: "n \<in> set (inspect n)"
  by (cases n) auto

lemma inspect_trans: "n \<in> set (inspect b) \<Longrightarrow> m \<in> set (inspect n) \<Longrightarrow> m \<in> set (inspect b)"
  by (induction b rule: inspect.induct) (auto split: option.splits, blast+)

lemma sources_below: "src \<in> set (sources_at v n) \<Longrightarrow> src \<in> set (inspect n)"
proof (induction v n rule: sources_at.induct)
  case (1 v p tok lhs rhs)
  then have "src \<in> set rhs"
    by (auto simp: assigned_sources_def split: if_splits)
  then show ?case by (auto intro: bexI[of _ src])
qed (auto split: if_splits)

lemma traced_in_body: "src \<in> set (traceLocalVarSources a fn) \<Longrightarrow> src \<in> set (body_nodes fn)"
proof -
  assume "src \<in> set (traceLocalVarSources a fn)"
  then obtain v n where "n \<in> set (body_nodes fn)" "src \<in> set (sources_at v n)"
    by (auto simp: traceLocalVarSources_def split: option.splits)
  then show ?thesis
    by (auto simp: body_nodes_def split: option.splits intro: inspect_trans dest: sources_below)
qed

lemma const_not_var [simp]: "enumConstString obj = Some s \<Longrightarrow> as_var obj = None"
  by (auto simp: enumConstString_def split: option.splits object.splits)

lemma sources_accepted:
  assumes "classify_sources B fn srcs = Some None" "src \<in> set srcs"
  shows "\<exists>s. classifyLabelArg B fn src = Some (Accepted s)"
  using assms
proof (induction srcs)
  case (Cons a srcs)
  from Cons.prems(1) obtain c where "classifyLabelArg B fn a = Some c"
    by (auto simp: classify_sources_Cons bind_eq_Some_conv)
  with Cons show ?case by (cases c) (auto simp: classify_sources_Cons)
qed simp

lemma from_sources_Accepted: "from_sources r = Accepted s \<longleftrightarrow> r = None \<and> s = ''''"
  by (auto simp: from_sources_def split: option.splits)

text \<open>An accepted variable has only accepted sources.\<close>

lemma accepted_sources:
  assumes "classifyLabelArg B fn (Ident p n d u) = Some (Accepted t)"
    and "src \<in> set (traceLocalVarSources (Ident p n d u) fn)"
  shows "\<exists>s. classifyLabelArg B fn src = Some (Accepted s)"
proof -
  let ?a = "Ident p n d u"
  from assms(2) have "enumConstString (ObjectOf ?a) = None"
    by (cases "enumConstString (ObjectOf ?a)") (auto simp: traceLocalVarSources_def simp del: ObjectOf.simps)
  with assms have "classify_sources B fn (traceLocalVarSources ?a fn) = Some None"
    by (cases "traceLocalVarSources ?a fn")
      (auto simp: classifyLabelArg_def from_sources_Accepted bind_eq_Some_conv simp del: ObjectOf.simps split: if_splits)
  from sources_accepted[OF this assms(2)] show ?thesis .
qed

lemma accepted_values:
  assumes "may_take results fn a s" "classifyLabelArg B fn a = Some (Accepted t)"
  shows "(\<exists>n \<in> set (a # body_nodes fn). node_text n = Some s) \<or> (\<exists>q \<in> B. s \<in> results q)"
  using assms
proof (induction arbitrary: t rule: may_take.induct)
  case (returned f obj q s args l)
  then show ?case by (auto simp: classifyLabelArg_def split: if_splits)
next
  case (assigned src p n d u s)
  from accepted_sources[OF assigned.prems assigned.hyps(1)] assigned.IH traced_in_body[OF assigned.hyps(1)]
  show ?case by (auto simp del: node_text.simps)
qed auto

text \<open>An accepted literal or constant has only its own text.\<close>

lemma accepted_text:
  assumes "may_take results fn a s" "node_text a = Some t"
  shows "s = t" "classifyLabelArg B fn a = Some (Accepted t)"
proof -
  show "classifyLabelArg B fn a = Some (Accepted t)"
    using assms(2) by (cases a) (auto simp: classifyLabelArg_def simp del: ObjectOf.simps split: if_splits)
  from assms show "s = t"
    by (cases rule: may_take.cases) (auto simp: traceLocalVarSources_def simp del: ObjectOf.simps)
qed

lemma clean_argument:
  assumes "check_label w v allow False fn (i, arg) = Some []"
  shows "\<exists>t. classifyLabelArg (w_bucketers w) fn arg = Some (Accepted t) \<and>
      (t = '''' \<or> t \<in> set (allow (label_name (w_labelOrder w v) i)))"
proof -
  from assms obtain c where "classifyLabelArg (w_bucketers w) fn arg = Some c"
    by (auto simp: check_label_def Let_def)
  with assms show ?thesis
    by (cases c) (auto simp: check_label_def Let_def split: if_splits option.splits)
qed

section \<open>What a clean run says\<close>


text \<open>A clean run has no leaking field at level Info or above, apart from the opted-out chains.\<close>

lemma clean_logs:
  assumes "finalize order w = Some w'" "\<not> w_finalized w" "w_diagnostics w' = []"
    and "p \<in> set (w_pkgs w)" "fl \<in> set (files_of p)"
    and "CallExpr (SelectorExpr x sel) args l \<in> set (file_nodes fl)" "id_name sel \<in> {''Msg'', ''Msgf'', ''Send''}"
    and "walkZerologChain x = (level, calls)" "level \<in> set zerologInfoPlusLevels" "\<not> lineHasOptOut fl l urlAllowedRe"
    and "sc \<in> set calls"
  shows "zerologFieldName sc \<notin> set logLeakFieldNames"
proof -
  have "level \<noteq> ''''" using assms(9) by (auto simp: zerologInfoPlusLevels_def)
  then have "concat (map leak_diagnostic calls) = []"
    using clean_run(2)[OF assms(1-5)] assms(6-10) by (auto dest!: bspec)
  with assms(11) show ?thesis by (auto simp: leak_diagnostic_def split: if_splits)
qed

section \<open>When the classifier returns\<close>

lemma classify_sources_returns:
  "(\<And>src. src \<in> set srcs \<Longrightarrow> \<exists>c. classifyLabelArg B fn src = Some c) \<Longrightarrow> \<exists>r. classify_sources B fn srcs = Some r"
proof (induction srcs)
  case (Cons a srcs)
  from Cons.prems[of a] obtain c where "classifyLabelArg B fn a = Some c" by auto
  moreover from Cons have "\<exists>r. classify_sources B fn srcs = Some r" by simp
  ultimately show ?case by (cases c) (auto simp: classify_sources_Cons)
qed simp

definition var_rank :: "(nat \<Rightarrow> nat) \<Rightarrow> node \<Rightarrow> nat" where
  "var_rank rank a = (case as_var (ObjectOf a) of None \<Rightarrow> 0 | Some v \<Rightarrow> Suc (rank v))"

text \<open>The classifier returns when the assignments of the function are not cyclic, some
  ranking of its variables decreases from each to its sources, and no call on the way
  is to a method of the universe.\<close>

theorem classification_returns:
  assumes "\<And>a src. src \<in> set (traceLocalVarSources a fn) \<Longrightarrow> var_rank rank src < var_rank rank a"
    and "\<And>f args l obj. CallExpr f args l \<in> set (arg # body_nodes fn) \<Longrightarrow> resolveCallTarget f = Some obj \<Longrightarrow> fst obj \<noteq> None"
  shows "\<exists>c. classifyLabelArg B fn arg = Some c"
  using assms(2)
proof (induction "var_rank rank arg" arbitrary: arg rule: less_induct)
  case less
  have sub: "\<exists>c. classifyLabelArg B fn src = Some c" if "src \<in> set (traceLocalVarSources arg fn)" for src
  proof (rule less.hyps[OF assms(1)[OF that]])
    fix f args l obj
    assume "CallExpr f args l \<in> set (src # body_nodes fn)" "resolveCallTarget f = Some obj"
    with traced_in_body[OF that] less.prems[of f args l obj] show "fst obj \<noteq> None"
      by (auto simp del: resolveCallTarget.simps)
  qed
  obtain r where "classify_sources B fn (traceLocalVarSources arg fn) = Some r"
    using classify_sources_returns[OF sub] by blast
  then show ?case
  proof (cases arg)
    case (Ident p n d u)
    assume "classify_sources B fn (traceLocalVarSources arg fn) = Some r"
    with Ident show ?thesis
      by (auto simp: classifyLabelArg_def simp del: ObjectOf.simps split: option.splits list.splits)
  next
    case (CallExpr f args l)
    with less.prems[of f args l] show ?thesis
      by (auto simp: classifyLabelArg_def qualified_name_def split: option.splits)
  qed (auto simp: classifyLabelArg_def)
qed

section \<open>A concrete package\<close>

definition at_line :: "int \<Rightarrow> position" where
  "at_line n = \<lparr> p_file = ''m.go'', p_line = n, p_column = 1 \<rparr>"

definition doc_note :: "int \<Rightarrow> string \<Rightarrow> comment_group" where
  "doc_note n text = \<lparr> cg_list = [\<lparr> c_line = n, c_text = text \<rparr>], cg_end = n \<rparr>"

definition quoted :: "string \<Rightarrow> node" where
  "quoted s = BasicLit (at_line 9) STRING (CHR 0x22 # s @ [CHR 0x22])"

definition demo_vector :: node where
  "demo_vector = GenDecl (at_line 8) TOK_VAR (Some (doc_note 7 ''// metrics:allowlist reason=timeout|connect_error''))
    [ValueSpec (at_line 8) None [Ident (at_line 8) ''reasonVec'' (Some (Var 1)) None] None
      [CallExpr (SelectorExpr
          (Ident (at_line 8) ''prometheus'' None (Some (PkgName ''github.com/prometheus/client_golang/prometheus'')))
          (Ident (at_line 8) ''NewCounterVec'' None None))
        [OtherNode (at_line 8) [], CompositeLit (at_line 9) None [quoted ''reason'']] 8]]"

definition demo_bucketer :: object where
  "demo_bucketer = Func (Some ''m'') ''bucketReason'' [Some KString]"

definition demo_bucketing :: node where
  "demo_bucketing = FuncDecl (at_line 12) (Some (doc_note 11 ''// metrics:bucketer'')) (Ident (at_line 12) ''bucketReason'' (Some demo_bucketer) None) [] [] None"

definition bucket_call :: node where
  "bucket_call = CallExpr (Ident (at_line 21) ''bucketReason'' None (Some demo_bucketer)) [Ident (at_line 21) ''s'' None (Some (Var 3))] 21"

definition demo_outcome :: node where
  "demo_outcome = Ident (at_line 22) ''outcome'' None (Some (Var 2))"

definition vector_ref :: node where
  "vector_ref = Ident (at_line 22) ''reasonVec'' None (Some (Var 1))"

definition with_label :: node where
  "with_label = Ident (at_line 22) ''WithLabelValues'' None None"

text \<open>A function with \<^verbatim>\<open>outcome := rhs\<close> and \<^verbatim>\<open>reasonVec.WithLabelValues(arg)\<close>.\<close>

definition demo_fn :: "node \<Rightarrow> node \<Rightarrow> node" where
  "demo_fn rhs arg = FuncDecl (at_line 20) None (Ident (at_line 20) ''record'' (Some (Func (Some ''m'') ''record'' [])) None)
    [Ident (at_line 20) ''s'' (Some (Var 3)) None] []
    (Some (OtherNode (at_line 20)
      [AssignStmt (at_line 21) DEFINE [Ident (at_line 21) ''outcome'' (Some (Var 2)) None] [rhs],
       CallExpr (SelectorExpr vector_ref with_label) [arg] 22]))"

definition demo_file :: "node \<Rightarrow> node \<Rightarrow> go_file" where
  "demo_file rhs arg = \<lparr> f_decls = [demo_vector, demo_bucketing, demo_fn rhs arg], f_comments = [] \<rparr>"

definition demo_package :: "node \<Rightarrow> node \<Rightarrow> package" where
  "demo_package rhs arg = \<lparr> pk_path = ''m'', pk_syntax = Some [demo_file rhs arg] \<rparr>"

definition demo_lint :: "node \<Rightarrow> node \<Rightarrow> walker option" where
  "demo_lint rhs arg = finalize (\<lambda>_ xs. xs) (WalkPackage (Some (demo_package rhs arg)) NewWalker)"

definition demo_walker :: walker where
  "demo_walker = the (demo_lint bucket_call demo_outcome)"

definition demo_allow :: "string \<Rightarrow> string list" where
  "demo_allow = the (w_allowlists demo_walker 1)"

definition demo_results :: "string \<Rightarrow> string set" where
  "demo_results q = (if q = ''m.bucketReason'' then {''timeout'', ''connect_error''} else {})"

lemma demo_run: "demo_lint bucket_call demo_outcome = Some demo_walker" "w_diagnostics demo_walker = []"
proof -
  have "\<not> Option.is_none (demo_lint bucket_call demo_outcome)" by code_simp
  then show "demo_lint bucket_call demo_outcome = Some demo_walker"
    by (simp add: demo_walker_def Option.is_none_def)
  show "w_diagnostics demo_walker = []" by code_simp
qed

lemma demo_vectors: "resolveReceiverVar (\<lambda>_ xs. xs) demo_walker vector_ref = Some 1" "w_allowlists demo_walker 1 = Some demo_allow"
proof -
  show "resolveReceiverVar (\<lambda>_ xs. xs) demo_walker vector_ref = Some 1" by code_simp
  have "\<not> Option.is_none (w_allowlists demo_walker 1)" by code_simp
  then show "w_allowlists demo_walker 1 = Some demo_allow"
    by (simp add: demo_allow_def Option.is_none_def)
qed

lemma demo_takes: "may_take demo_results (Some (demo_fn bucket_call demo_outcome)) demo_outcome ''timeout''"
proof -
  let ?fn = "Some (demo_fn bucket_call demo_outcome)"
  have "may_take demo_results ?fn bucket_call ''timeout''"
    unfolding bucket_call_def
    by (rule may_take.returned[where obj = "(Some ''m'', ''bucketReason'')" and q = "''m.bucketReason''"])
      (simp_all add: demo_bucketer_def qualified_name_def demo_results_def)
  moreover have "bucket_call \<in> set (traceLocalVarSources demo_outcome ?fn)" by code_simp
  ultimately show ?thesis
    using may_take.assigned[of bucket_call "at_line 22" "''outcome''" None "Some (Var 2)" ?fn]
    by (simp add: demo_outcome_def)
qed


theorem classification_returns_witness: "\<exists>c. classifyLabelArg {} (Some (demo_fn bucket_call demo_outcome)) demo_outcome = Some c"
proof (rule classification_returns[where rank = "\<lambda>_. 0"])
  fix a src assume "src \<in> set (traceLocalVarSources a (Some (demo_fn bucket_call demo_outcome)))"
  then show "var_rank (\<lambda>_. 0) src < var_rank (\<lambda>_. 0) a"
    by (auto simp: traceLocalVarSources_def body_nodes_def demo_fn_def assigned_sources_def var_rank_def
        bucket_call_def demo_outcome_def vector_ref_def with_label_def dest!: sym[of "Some _"] split: option.splits if_splits)
next
  fix f args l obj
  assume "CallExpr f args l \<in> set (demo_outcome # body_nodes (Some (demo_fn bucket_call demo_outcome)))" "resolveCallTarget f = Some obj"
  then show "fst obj \<noteq> None"
    by (auto simp: body_nodes_def demo_fn_def bucket_call_def demo_outcome_def vector_ref_def with_label_def demo_bucketer_def)
qed

text \<open>Where the linter lets a value through or does not report at all.\<close>

lemma literal_through_a_variable: "map_option w_diagnostics (demo_lint (quoted ''+4915112345678'') demo_outcome) = Some []"
  by code_simp

lemma empty_label_accepted: "map_option w_diagnostics (demo_lint bucket_call (quoted '''')) = Some []"
  by code_simp

lemma error_text_crashes: "Option.is_none (demo_lint bucket_call (CallExpr
    (SelectorExpr (Ident (at_line 22) ''err'' None (Some (Var 4))) (Ident (at_line 22) ''Error'' None (Some (Func None ''Error'' [Some KString])))) [] 22))"
  by code_simp

lemma phone_label_reported: "map_option (\<lambda>w. map d_reason (w_diagnostics w)) (demo_lint bucket_call (quoted ''+4915112345678'')) = Some [PhonePattern]"
  by code_simp

text \<open>\<^verbatim>\<open>outcome := outcome\<close> of a shadowed or reassigned variable sends the classifier round
  for ever.\<close>

lemma cyclic_step: "classify_arg B (Some (demo_fn demo_outcome demo_outcome)) demo_outcome = FromSources [demo_outcome]"
  by (simp add: demo_outcome_def demo_fn_def isFuncParam_def traceLocalVarSources_def body_nodes_def assigned_sources_def
      enumConstString_def vector_ref_def with_label_def)

lemma cyclic_assignment_diverges: "classifyLabelArg B (Some (demo_fn demo_outcome demo_outcome)) demo_outcome = None"
proof -
  let ?fn = "Some (demo_fn demo_outcome demo_outcome)"
  have "\<not> (fn = ?fn \<and> srcs = [demo_outcome])" if "classify_sources B fn srcs = Some r" for B fn srcs r
  proof (rule classify_sources.raw_induct[where P = "\<lambda>B fn srcs r. \<not> (fn = ?fn \<and> srcs = [demo_outcome])", OF _ that])
    fix rec :: "string set \<Rightarrow> node option \<Rightarrow> node list \<Rightarrow> reason option option"
    fix B fn srcs r
    assume never: "\<And>B fn srcs r. rec B fn srcs = Some r \<Longrightarrow> \<not> (fn = ?fn \<and> srcs = [demo_outcome])"
      and eq: "(case srcs of [] \<Rightarrow> Some None
        | src # rest \<Rightarrow> Option.bind (case classify_arg B fn src of Decided c \<Rightarrow> c
             | FromSources ss \<Rightarrow> Option.bind (rec B fn ss) (\<lambda>r. Some (from_sources r)))
           (\<lambda>c. case c of Accepted s \<Rightarrow> rec B fn rest | Rejected why \<Rightarrow> Some (Some why))) = Some r"
    show "\<not> (fn = ?fn \<and> srcs = [demo_outcome])"
      using eq never[of B ?fn "[demo_outcome]"] by (auto simp: cyclic_step bind_eq_Some_conv)
  qed
  then have "classify_sources B ?fn [demo_outcome] = None" by fastforce
  then show ?thesis by (simp add: classifyLabelArg_def cyclic_step)
qed

end
