(* ===== verification/Metric_Registry.thy ===== *)
theory Metric_Registry
  imports Metric_Lint Rest_Api
begin

text \<open>
  The metrics that \<^verbatim>\<open>observability/metrics.go\<close> registers: names, kinds and labels, with
  the allow-list that is written above each vector and that \<^verbatim>\<open>cmd/lint-metrics\<close> reads.
  The lemmas compare these lists with the labels that the modelled components
  count under.  How Prometheus stores and exports the values is outside.
\<close>

section \<open>The registered metrics\<close>

datatype metric_kind = Gauge | Counter | CounterVec | HistogramVec

record metric =
  m_kind :: metric_kind
  m_name :: string
  m_labels :: "string list"
  m_comment :: string

definition plain_metric :: "metric_kind \<Rightarrow> string \<Rightarrow> metric" where
  "plain_metric k name = \<lparr> m_kind = k, m_name = name, m_labels = [], m_comment = '''' \<rparr>"

definition metric_vec :: "metric_kind \<Rightarrow> string \<Rightarrow> string list \<Rightarrow> string \<Rightarrow> metric" where
  "metric_vec k name labels body = \<lparr> m_kind = k, m_name = name, m_labels = labels, m_comment = ''// metrics:allowlist '' @ body \<rparr>"

definition call_metrics :: "metric list" where
  "call_metrics =
    [plain_metric Gauge ''active_calls_total'', plain_metric Gauge ''sip_registration_status'',
     plain_metric Counter ''rtp_packets_received_total'', plain_metric Counter ''rtp_packets_sent_total'',
     plain_metric Counter ''ws_reconnect_attempts_total'', plain_metric Counter ''mark_echoed_total'',
     plain_metric Counter ''clear_received_total'', plain_metric Counter ''sip_options_failures_total'']"

definition api_metrics :: "metric list" where
  "api_metrics =
    [metric_vec CounterVec ''twiml_parse_errors_total'' [''code''] ''code=12100|13xxx|21218|21220'',
     metric_vec CounterVec ''api_requests_total'' [''route'', ''method'', ''status'']
       ''route=list_calls|get_call|modify_call|health|metrics|unknown method=GET|POST|PUT|DELETE status=2xx|4xx|5xx'',
     metric_vec HistogramVec ''api_request_duration_seconds'' [''route'']
       ''route=list_calls|get_call|modify_call|health|metrics|unknown'',
     metric_vec CounterVec ''twiml_modify_total'' [''kind'', ''outcome'']
       ''kind=twiml|url|status_completed outcome=ok|parse_error|fetch_error|invalid_params|terminated|hangup'']"

definition forward_metrics :: "metric list" where
  "forward_metrics =
    [plain_metric Counter ''sipgate_bridge_forward_attempts_total'', plain_metric Counter ''sipgate_bridge_forward_success_total'',
     metric_vec CounterVec ''sipgate_bridge_forward_failed_total'' [''reason'']
       ''reason=busy|no_answer|rejected|unreachable|codec_mismatch|toll_fraud|rate_limit|caller_id_rejected|auth_failed|trunk_5xx|timeout|error'',
     metric_vec HistogramVec ''sipgate_bridge_forward_duration_seconds'' [''outcome''] ''outcome=answered|no_answer|busy|error'',
     metric_vec CounterVec ''sipgate_bridge_auth_challenge_kind_total'' [''kind''] ''kind=401|407'',
     plain_metric Gauge ''sipgate_bridge_rtp_port_pool_in_use'', plain_metric Gauge ''sipgate_bridge_rtp_port_pool_size'',
     plain_metric Counter ''sipgate_bridge_rtp_port_acquire_failures_total'']"

definition callback_metrics :: "metric list" where
  "callback_metrics =
    [metric_vec CounterVec ''sipgate_bridge_status_callback_attempts_total'' [''event'']
       ''event=initiated|ringing|answered|in-progress|completed|busy|failed|no-answer|canceled'',
     metric_vec CounterVec ''sipgate_bridge_status_callback_failures_total'' [''reason'']
       ''reason=timeout|4xx|5xx|connect_error|exhausted_retries|ssrf_rejected|queue_full'',
     metric_vec CounterVec ''sipgate_bridge_voice_fetch_total'' [''outcome''] ''outcome=ok|timeout|http_error|twiml_error|fallback_ok'']"

text \<open>The struct: one collector per field, and the registry that exports them.\<close>

record Metrics =
  mx_ActiveCalls :: metric
  mx_SIPRegStatus :: metric
  mx_RTPRx :: metric
  mx_RTPTx :: metric
  mx_WSReconnects :: metric
  mx_MarkEchoed :: metric
  mx_ClearReceived :: metric
  mx_SIPOptionsFailures :: metric
  mx_TwimlParseErrorsTotal :: metric
  mx_APIRequestsTotal :: metric
  mx_APIRequestDurationSeconds :: metric
  mx_TwimlModifyTotal :: metric
  mx_ForwardAttemptsTotal :: metric
  mx_ForwardSuccessTotal :: metric
  mx_ForwardFailedTotal :: metric
  mx_ForwardDurationSeconds :: metric
  mx_AuthChallengeKind :: metric
  mx_RTPPortPoolInUse :: metric
  mx_RTPPortPoolSize :: metric
  mx_RTPPortAcquireFailuresTotal :: metric
  mx_StatusCallbackAttemptsTotal :: metric
  mx_StatusCallbackFailuresTotal :: metric
  mx_VoiceFetchTotal :: metric
  mx_Registry :: "metric list"

definition MustRegister :: "metric list" where
  "MustRegister = call_metrics @ api_metrics @ forward_metrics @ callback_metrics"

text \<open>The collectors are numbered in the order of their construction.\<close>

definition NewMetrics :: Metrics where
  "NewMetrics =
    \<lparr> mx_ActiveCalls = call_metrics ! 0, mx_SIPRegStatus = call_metrics ! 1, mx_RTPRx = call_metrics ! 2,
      mx_RTPTx = call_metrics ! 3, mx_WSReconnects = call_metrics ! 4, mx_MarkEchoed = call_metrics ! 5,
      mx_ClearReceived = call_metrics ! 6, mx_SIPOptionsFailures = call_metrics ! 7,
      mx_TwimlParseErrorsTotal = api_metrics ! 0, mx_APIRequestsTotal = api_metrics ! 1,
      mx_APIRequestDurationSeconds = api_metrics ! 2, mx_TwimlModifyTotal = api_metrics ! 3,
      mx_ForwardAttemptsTotal = forward_metrics ! 0, mx_ForwardSuccessTotal = forward_metrics ! 1,
      mx_ForwardFailedTotal = forward_metrics ! 2, mx_ForwardDurationSeconds = forward_metrics ! 3,
      mx_AuthChallengeKind = forward_metrics ! 4, mx_RTPPortPoolInUse = forward_metrics ! 5,
      mx_RTPPortPoolSize = forward_metrics ! 6, mx_RTPPortAcquireFailuresTotal = forward_metrics ! 7,
      mx_StatusCallbackAttemptsTotal = callback_metrics ! 0, mx_StatusCallbackFailuresTotal = callback_metrics ! 1,
      mx_VoiceFetchTotal = callback_metrics ! 2,
      mx_Registry = MustRegister \<rparr>"

text \<open>The values the annotation of a vector declares for a label.\<close>

definition declared :: "metric \<Rightarrow> string \<Rightarrow> string list" where
  "declared m label = parseAllowlistDoc (Some \<lparr> cg_list = [\<lparr> c_line = 0, c_text = m_comment m \<rparr>], cg_end = 0 \<rparr>) label"

definition label_values :: "string \<Rightarrow> string \<Rightarrow> string list" where
  "label_values name label = concat (map (\<lambda>m. if m_name m = name \<and> label \<in> set (m_labels m) then declared m label else []) (mx_Registry NewMetrics))"

text \<open>Every metric is registered once, and every label of a vector has a bounded list.\<close>

lemma registry_wf:
  "distinct (map m_name (mx_Registry NewMetrics))"
  "list_all (\<lambda>m. list_all (\<lambda>l. declared m l \<noteq> []) (m_labels m)) (mx_Registry NewMetrics)"
  "length (mx_Registry NewMetrics) = 23"
  by code_simp+

text \<open>The collectors of the struct are the registered ones, each has the kind of its
  field, and a gauge or a plain counter has no labels.\<close>

lemma metrics_struct:
  "list_all (\<lambda>(f, k, name). m_kind (f NewMetrics) = k \<and> m_name (f NewMetrics) = name \<and> f NewMetrics \<in> set (mx_Registry NewMetrics) \<and>
      (m_labels (f NewMetrics) = [] \<longleftrightarrow> k = Gauge \<or> k = Counter))
    [(mx_ActiveCalls, Gauge, ''active_calls_total''), (mx_SIPRegStatus, Gauge, ''sip_registration_status''),
     (mx_RTPRx, Counter, ''rtp_packets_received_total''), (mx_RTPTx, Counter, ''rtp_packets_sent_total''),
     (mx_WSReconnects, Counter, ''ws_reconnect_attempts_total''), (mx_MarkEchoed, Counter, ''mark_echoed_total''),
     (mx_ClearReceived, Counter, ''clear_received_total''), (mx_SIPOptionsFailures, Counter, ''sip_options_failures_total''),
     (mx_TwimlParseErrorsTotal, CounterVec, ''twiml_parse_errors_total''), (mx_APIRequestsTotal, CounterVec, ''api_requests_total''),
     (mx_APIRequestDurationSeconds, HistogramVec, ''api_request_duration_seconds''),
     (mx_TwimlModifyTotal, CounterVec, ''twiml_modify_total''),
     (mx_ForwardAttemptsTotal, Counter, ''sipgate_bridge_forward_attempts_total''),
     (mx_ForwardSuccessTotal, Counter, ''sipgate_bridge_forward_success_total''),
     (mx_ForwardFailedTotal, CounterVec, ''sipgate_bridge_forward_failed_total''),
     (mx_ForwardDurationSeconds, HistogramVec, ''sipgate_bridge_forward_duration_seconds''),
     (mx_AuthChallengeKind, CounterVec, ''sipgate_bridge_auth_challenge_kind_total''),
     (mx_RTPPortPoolInUse, Gauge, ''sipgate_bridge_rtp_port_pool_in_use''),
     (mx_RTPPortPoolSize, Gauge, ''sipgate_bridge_rtp_port_pool_size''),
     (mx_RTPPortAcquireFailuresTotal, Counter, ''sipgate_bridge_rtp_port_acquire_failures_total''),
     (mx_StatusCallbackAttemptsTotal, CounterVec, ''sipgate_bridge_status_callback_attempts_total''),
     (mx_StatusCallbackFailuresTotal, CounterVec, ''sipgate_bridge_status_callback_failures_total''),
     (mx_VoiceFetchTotal, CounterVec, ''sipgate_bridge_voice_fetch_total'')]"
  by code_simp

lemma declared_values:
  "label_values ''api_requests_total'' ''route'' = [''list_calls'', ''get_call'', ''modify_call'', ''health'', ''metrics'', ''unknown'']"
  "label_values ''api_requests_total'' ''status'' = [''2xx'', ''4xx'', ''5xx'']"
  "label_values ''twiml_modify_total'' ''kind'' = [''twiml'', ''url'', ''status_completed'']"
  "label_values ''twiml_modify_total'' ''outcome'' = [''ok'', ''parse_error'', ''fetch_error'', ''invalid_params'', ''terminated'', ''hangup'']"
  "label_values ''sipgate_bridge_forward_failed_total'' ''reason'' = [''busy'', ''no_answer'', ''rejected'', ''unreachable'', ''codec_mismatch'',
     ''toll_fraud'', ''rate_limit'', ''caller_id_rejected'', ''auth_failed'', ''trunk_5xx'', ''timeout'', ''error'']"
  "label_values ''sipgate_bridge_forward_duration_seconds'' ''outcome'' = [''answered'', ''no_answer'', ''busy'', ''error'']"
  "label_values ''sipgate_bridge_status_callback_failures_total'' ''reason'' = [''timeout'', ''4xx'', ''5xx'', ''connect_error'',
     ''exhausted_retries'', ''ssrf_rejected'', ''queue_full'']"
  "label_values ''sipgate_bridge_voice_fetch_total'' ''outcome'' = [''ok'', ''timeout'', ''http_error'', ''twiml_error'', ''fallback_ok'']"
  by code_simp+

section \<open>The labels the components count under\<close>

lemma Dial_labels:
  assumes "Dial env cfg now d w f = Some (x, f')" "core f' = core f @ xs"
  shows "list_all label_ok xs"
proof -
  obtain r e where x: "x = (r, e)" by fastforce
  have "blocked_shape xs \<or> failed_shape cfg d xs (r_Status r) \<or> (\<exists>ok a c. answered_shape cfg d ok a c xs)"
    using Dial_shape[OF assms(1)[unfolded x]] assms(2) by (auto split: if_splits)
  then show ?thesis by (auto dest!: shapes_account simp: accounts_def)
qed

fun counted_ok :: "rest_effect \<Rightarrow> bool" where
  "counted_ok (RequestCounted route meth status) = (route \<in> {''list_calls'', ''get_call'', ''modify_call''} \<and> status \<in> {''2xx'', ''4xx'', ''5xx''})"
| "counted_ok (ModifyCounted kind outcome) = (kind \<in> {''twiml'', ''url'', ''status_completed'', ''status_callback''} \<and>
    outcome \<in> {''ok'', ''parse_error'', ''fetch_error'', ''invalid_params'', ''terminated''})"
| "counted_ok _ = True"

lemma modifyKind_range: "modifyKind o1 \<in> {''twiml'', ''url'', ''status_completed''}"
  by (simp add: modifyKind_def split: option.split)

lemma parse_counted: "parseModifyOpts env limit req = (p, fx) \<Longrightarrow> list_all counted_ok fx"
  by (auto simp: parseModifyOpts_def check_callback_opts_def Let_def split: option.splits sum.splits prod.splits if_splits)

lemma modify_twiml_counted:
  "modify_twiml env cfg sid opts r s = (out, s') \<Longrightarrow> rs_effects s' = rs_effects s @ es \<Longrightarrow> list_all counted_ok es"
  using modifyKind_range[of "Some opts"]
  by (auto simp: modify_twiml_def raw_twiml_def Let_def split: sum.splits prod.splits if_splits)

lemma modify_counted:
  assumes "modifyCallHandler env cfg sid req s = (out, s')" "rs_effects s' = rs_effects s @ es"
  shows "list_all counted_ok es"
proof -
  obtain p fx where parse: "parseModifyOpts env maxBody req = (p, fx)" by fastforce
  note fx = parse_counted[OF parse]
  show ?thesis
  proof (cases p)
    case (Inl e)
    then show ?thesis using assms parse fx modifyKind_range[of None] by (auto simp: modifyCallHandler_def)
  next
    case (Inr opts)
    show ?thesis
    proof (cases "CallSidRE sid \<and> GetByCallSid (rs_manager s) sid \<noteq> None")
      case False
      then have "s' = rs_do fx s"
        using assms(1) parse Inr by (auto simp: modifyCallHandler_def Let_def split: option.splits if_splits)
      then show ?thesis using assms(2) fx by simp
    next
      case True
      then obtain call where sid: "CallSidRE sid" and call: "GetByCallSid (rs_manager s) sid = Some call" by auto
      from assms(1) parse[unfolded Inr] sid call refl refl show ?thesis
      proof (cases rule: modifyCallHandler_cases)
        case (twiml r)
        define s1 where "s1 = install_callback opts (active_ref (rs_manager s) sid) (rs_do fx s)"
        have s1: "rs_effects s1 = rs_effects s @ fx" by (simp add: s1_def)
        obtain es2 where "rs_effects s' = rs_effects s1 @ es2"
          using twiml(2)[folded s1_def] by (auto simp: modify_twiml_def Let_def split: sum.splits prod.splits)
        with modify_twiml_counted[OF twiml(2)[folded s1_def]] s1 assms(2) fx show ?thesis by auto
      qed (use assms(2) fx modifyKind_range[of "Some opts"] in auto)
    qed
  qed
qed

lemma Mount_counted:
  assumes "Mount env cfg rt req s = Some (out, s')" "rs_effects s' = rs_effects s @ es"
  shows "list_all counted_ok es"
  using assms(1)
proof (cases rule: Mount_cases)
  case (handled o1)
  show ?thesis
  proof (cases rt)
    case (ModifyCall a c)
    obtain o2 s2 where m: "modifyCallHandler env cfg c req s = (o2, s2)" by fastforce
    from modify_modified[OF m refl] obtain es2 where es2: "rs_effects s2 = rs_effects s @ es2" by blast
    with handled(4) ModifyCall m assms(2) have "es = es2 @ [RequestCounted ''modify_call'' (hi_method req) (BucketStatus (ho_status o2))]"
      by (auto simp: metricsMiddleware_def)
    with modify_counted[OF m es2] bucket_ranges(1) show ?thesis by simp
  qed (use handled(4) assms(2) bucket_ranges(1) in \<open>auto simp: metricsMiddleware_def\<close>)
qed (use assms(2) in auto)

lemma voice_label: "fst (snd (VoiceFetch newreq send1 send2 ctx1 ctx2 c p)) \<in> {''ok'', ''timeout'', ''http_error'', ''fallback_ok''}"
  by (auto simp: VoiceFetch_def httpErrOutcome_def Let_def split: prod.split sum.split option.split)


section \<open>A concrete request\<close>

definition counted_reply :: "http_out \<times> rest" where
  "counted_reply = the (Mount demo_api demo_acfg (ModifyCall ''AC1'' demo_sid) (demo_post ''Twiml=x'') demo_rest)"

definition counted_dial :: "(dial_result \<times> string option) \<times> fwd" where
  "counted_dial = the (Dial demo_fenv demo_fcfg 100 demo_ctx demo_busy demo_fwd)"

fun modify_labels :: "rest_effect \<Rightarrow> (string \<times> string) option" where
  "modify_labels (ModifyCounted kind oc) = Some (kind, oc)"
| "modify_labels _ = None"

fun failed_reason :: "fwd_effect \<Rightarrow> string option" where
  "failed_reason (Failed re) = Some re"
| "failed_reason _ = None"

lemma failed_reason_iff: "failed_reason e = Some re \<longleftrightarrow> e = Failed re"
  by (cases e) auto

lemma modify_labels_iff: "modify_labels e = Some (kind, oc) \<longleftrightarrow> e = ModifyCounted kind oc"
  by (cases e) auto


end
