(* ===== verification/Http_Clients.thy ===== *)
theory Http_Clients
  imports Status_Client Webhook_Client
begin

text \<open>
  The outgoing HTTP clients as the program builds them: \<^verbatim>\<open>webhook.NewClient\<close>,
  \<^verbatim>\<open>NewVoiceClient\<close>, \<^verbatim>\<open>NewStatusClient\<close> and \<^verbatim>\<open>api.NewSignedActionPoster\<close>, with the dialer,
  the signing transport and the time limits of each, and what \<^verbatim>\<open>net/http\<close> does with
  them: a request is followed through its redirects, every hop is signed if the
  transport signs, and every hop resolves and dials its own host.  The resolver,
  the reachable addresses and the servers are arguments.  Reused connections are
  not modelled: such a connection was dialled by the same transport before.
\<close>

section \<open>Clients\<close>

text \<open>A transport dials through the SSRF guard, through a plain \<^verbatim>\<open>net.Dialer\<close> with the
  given timeout and keep-alive, or through the default dialer.  Times are in
  nanoseconds; 0 is no limit.\<close>

datatype dialer = SsrfDialer int int | NetDialer int int | ZeroDialer

record http_transport =
  tr_dialer :: dialer
  tr_TLSHandshakeTimeout :: int
  tr_ResponseHeaderTimeout :: int
  tr_MaxIdleConnsPerHost :: int
  tr_IdleConnTimeout :: int
  tr_ForceAttemptHTTP2 :: bool
  tr_MaxConnsPerHost :: int

datatype round_tripper = BareTransport http_transport | SigningTransport round_tripper string

record http_client =
  hcl_Transport :: round_tripper
  hcl_Timeout :: int

definition second :: int where "second = 1000000000"

definition newSSRFGuard :: dialer where "newSSRFGuard = SsrfDialer (2 * second) (30 * second)"

definition plainDialer :: dialer where "plainDialer = NetDialer (2 * second) (30 * second)"

definition SigningTransportFor :: "round_tripper \<Rightarrow> string \<Rightarrow> round_tripper" where
  "SigningTransportFor inner authToken = SigningTransport inner authToken"

definition newClientWithTransport :: "round_tripper \<Rightarrow> http_client" where
  "newClientWithTransport tr = \<lparr> hcl_Transport = tr, hcl_Timeout = 15 * second \<rparr>"

definition NewClient :: http_client where
  "NewClient =
    \<lparr> hcl_Transport = BareTransport \<lparr> tr_dialer = plainDialer, tr_TLSHandshakeTimeout = 3 * second,
        tr_ResponseHeaderTimeout = 8 * second, tr_MaxIdleConnsPerHost = 4, tr_IdleConnTimeout = 30 * second,
        tr_ForceAttemptHTTP2 = True, tr_MaxConnsPerHost = 0 \<rparr>,
      hcl_Timeout = 15 * second \<rparr>"

definition NewSignedActionPoster :: "string \<Rightarrow> http_client" where
  "NewSignedActionPoster authToken =
    (let tr = \<lparr> tr_dialer = plainDialer, tr_TLSHandshakeTimeout = 3 * second,
        tr_ResponseHeaderTimeout = 8 * second, tr_MaxIdleConnsPerHost = 4, tr_IdleConnTimeout = 30 * second,
        tr_ForceAttemptHTTP2 = True, tr_MaxConnsPerHost = 0 \<rparr>
     in \<lparr> hcl_Transport = SigningTransportFor (BareTransport tr) authToken, hcl_Timeout = 15 * second \<rparr>)"

text \<open>The voice client signs its requests itself.\<close>

record voice_service =
  vo_conf :: voice_client
  vo_http :: http_client
  vo_httpDev :: http_client

definition NewVoiceClient :: "string \<Rightarrow> string \<Rightarrow> string \<Rightarrow> string \<Rightarrow> string \<Rightarrow> int \<Rightarrow> voice_service" where
  "NewVoiceClient primaryURL primaryMethod fallbackURL fallbackMethod authToken timeoutS =
    (let timeout = i64 (timeoutS * second);
         guarded = \<lparr> tr_dialer = newSSRFGuard, tr_TLSHandshakeTimeout = 3 * second, tr_ResponseHeaderTimeout = timeout,
           tr_MaxIdleConnsPerHost = 2, tr_IdleConnTimeout = 30 * second, tr_ForceAttemptHTTP2 = True, tr_MaxConnsPerHost = 0 \<rparr>;
         plain = \<lparr> tr_dialer = plainDialer, tr_TLSHandshakeTimeout = 0, tr_ResponseHeaderTimeout = timeout,
           tr_MaxIdleConnsPerHost = 2, tr_IdleConnTimeout = 30 * second, tr_ForceAttemptHTTP2 = False, tr_MaxConnsPerHost = 0 \<rparr>
     in \<lparr> vo_conf = \<lparr> vc_primaryURL = primaryURL, vc_primaryMethod = primaryMethod, vc_fallbackURL = fallbackURL,
            vc_fallbackMethod = fallbackMethod, vc_authToken = authToken \<rparr>,
          vo_http = \<lparr> hcl_Transport = BareTransport guarded, hcl_Timeout = timeout \<rparr>,
          vo_httpDev = \<lparr> hcl_Transport = BareTransport plain, hcl_Timeout = timeout \<rparr> \<rparr>)"

record status_service =
  ss_http :: http_client
  ss_httpTrusted :: http_client
  ss_state :: status_client

definition status_transport :: "dialer \<Rightarrow> http_transport" where
  "status_transport d =
    \<lparr> tr_dialer = d, tr_TLSHandshakeTimeout = 3 * second, tr_ResponseHeaderTimeout = 4 * second, tr_MaxIdleConnsPerHost = 2,
      tr_IdleConnTimeout = 90 * second, tr_ForceAttemptHTTP2 = True, tr_MaxConnsPerHost = 8 \<rparr>"

definition NewStatusClient :: "string \<Rightarrow> status_service" where
  "NewStatusClient authToken =
    (let guarded = status_transport newSSRFGuard; trusted = status_transport ZeroDialer;
         timeout = int statusPerAttemptTimeout * 1000000
     in \<lparr> ss_http = \<lparr> hcl_Transport = SigningTransport (BareTransport guarded) authToken, hcl_Timeout = timeout \<rparr>,
          ss_httpTrusted = \<lparr> hcl_Transport = SigningTransport (BareTransport trusted) authToken, hcl_Timeout = timeout \<rparr>,
          ss_state = \<lparr> sc_authToken = authToken, sc_skipValidateURL = False, sc_perCall = Map.empty \<rparr> \<rparr>)"

definition newStatusClientWithTransport :: "round_tripper \<Rightarrow> string \<Rightarrow> status_service" where
  "newStatusClientWithTransport tr authToken =
    (let client = \<lparr> hcl_Transport = SigningTransport tr authToken, hcl_Timeout = int statusPerAttemptTimeout * 1000000 \<rparr>
     in \<lparr> ss_http = client, ss_httpTrusted = client,
          ss_state = \<lparr> sc_authToken = authToken, sc_skipValidateURL = True, sc_perCall = Map.empty \<rparr> \<rparr>)"

section \<open>One request through \<^verbatim>\<open>net/http\<close>\<close>

text \<open>The world a client meets.  \<open>net_addr\<close> is the host and port of a URL, \<open>net_resolve\<close>
  a \<^verbatim>\<open>Location\<close> header read against the current URL; the first argument of
  \<open>net_lookup\<close>, \<open>net_connect\<close> and \<open>net_answer\<close> is the number of the hop, so that they may
  answer differently each time.\<close>

record hop_reply = http_reply +
  hop_location :: string

record internet =
  net_addr :: "string \<Rightarrow> string"
  net_resolve :: "string \<Rightarrow> string \<Rightarrow> string option"
  net_lookup :: "nat \<Rightarrow> string \<Rightarrow> ip list option"
  net_connect :: "nat \<Rightarrow> ip \<Rightarrow> string \<Rightarrow> bool"
  net_answer :: "nat \<Rightarrow> ip \<Rightarrow> http_request \<Rightarrow> string + hop_reply"

datatype do_error = DoSign sign_error | DoDial ssrf_error | DoConnect | DoTransport string | DoLocation | DoRedirects

record hop =
  hop_request :: http_request
  hop_dialed :: "(ip \<times> string) list"

text \<open>The plain dialer tries the addresses of the host in turn.\<close>

fun dial_serial :: "internet \<Rightarrow> nat \<Rightarrow> string \<Rightarrow> ip list \<Rightarrow> (do_error + ip) \<times> (ip \<times> string) list" where
  "dial_serial net n port [] = (Inl DoConnect, [])"
| "dial_serial net n port (ip # ips) =
    (if net_connect net n ip port then (Inr ip, [(ip, port)])
     else map_prod id ((#) (ip, port)) (dial_serial net n port ips))"

definition plain_connect :: "internet \<Rightarrow> nat \<Rightarrow> string \<Rightarrow> (do_error + ip) \<times> (ip \<times> string) list" where
  "plain_connect net n addr =
    (case split_host_port addr of
       None \<Rightarrow> (Inl (DoDial ErrSplitHostPort), [])
     | Some (host, port) \<Rightarrow>
        (case net_lookup net n host of
           None \<Rightarrow> (Inl (DoDial ErrDNS), [])
         | Some ips \<Rightarrow> dial_serial net n port ips))"

definition guarded_connect :: "internet \<Rightarrow> nat \<Rightarrow> string \<Rightarrow> (do_error + ip) \<times> (ip \<times> string) list" where
  "guarded_connect net n addr =
    (case DialContext (net_lookup net) n addr of
       Inl e \<Rightarrow> (Inl (DoDial e), [])
     | Inr (ip, port) \<Rightarrow> (if net_connect net n ip port then Inr ip else Inl DoConnect, [(ip, port)]))"

fun connect :: "dialer \<Rightarrow> internet \<Rightarrow> nat \<Rightarrow> string \<Rightarrow> (do_error + ip) \<times> (ip \<times> string) list" where
  "connect (SsrfDialer t k) net n addr = guarded_connect net n addr"
| "connect (NetDialer t k) net n addr = plain_connect net n addr"
| "connect ZeroDialer net n addr = plain_connect net n addr"

fun round_trip :: "round_tripper \<Rightarrow> internet \<Rightarrow> nat \<Rightarrow> http_request \<Rightarrow> (do_error + hop_reply) \<times> hop list" where
  "round_trip (BareTransport t) net n req =
    (case connect (tr_dialer t) net n (net_addr net (req_url req)) of
       (Inl e, ds) \<Rightarrow> (Inl e, [\<lparr> hop_request = req, hop_dialed = ds \<rparr>])
     | (Inr ip, ds) \<Rightarrow> (map_sum DoTransport id (net_answer net n ip req), [\<lparr> hop_request = req, hop_dialed = ds \<rparr>]))"
| "round_trip (SigningTransport inner tok) net n req =
    (case RoundTrip tok req of
       Inl e \<Rightarrow> (Inl (DoSign e), [])
     | Inr req' \<Rightarrow> round_trip inner net n req')"

text \<open>\<^verbatim>\<open>redirectBehavior\<close>: the method of the next request and whether it carries the body
  of the first one.\<close>

definition redirectBehavior :: "string \<Rightarrow> int \<Rightarrow> (string \<times> bool) option" where
  "redirectBehavior meth status =
    (if status = 301 \<or> status = 302 \<or> status = 303 then
       Some (if meth \<noteq> ''GET'' \<and> meth \<noteq> ''HEAD'' then ''GET'' else meth, False)
     else if status = 307 \<or> status = 308 then Some (meth, True)
     else None)"

text \<open>The next request: the headers and the context (with the verbatim URL for the
  signature) are those of the first one.  The \<^verbatim>\<open>Referer\<close> header it gains is left
  out.\<close>

definition redirected :: "http_request \<Rightarrow> string \<Rightarrow> bool \<Rightarrow> string \<Rightarrow> http_request" where
  "redirected ireq meth withBody u =
    \<lparr> req_method = meth, req_url = u, req_body = (if withBody then req_body ireq else NoBody),
      req_raw_url = req_raw_url ireq, req_headers = req_headers ireq \<rparr>"

fun do_hops :: "round_tripper \<Rightarrow> internet \<Rightarrow> http_request \<Rightarrow> nat \<Rightarrow> nat \<Rightarrow> http_request \<Rightarrow>
    (do_error + hop_reply) \<times> hop list" where
  "do_hops rt net ireq left n req =
    (case round_trip rt net n req of
       (Inl e, hs) \<Rightarrow> (Inl e, hs)
     | (Inr rep, hs) \<Rightarrow>
        (case redirectBehavior (req_method req) (rep_status rep) of
           None \<Rightarrow> (Inr rep, hs)
         | Some (meth, withBody) \<Rightarrow>
            (if hop_location rep = '''' then (Inr rep, hs)
             else case net_resolve net (req_url req) (hop_location rep) of
               None \<Rightarrow> (Inl DoLocation, hs)
             | Some u \<Rightarrow>
                (case left of
                   0 \<Rightarrow> (Inl DoRedirects, hs)
                 | Suc left' \<Rightarrow>
                    map_prod id ((@) hs) (do_hops rt net ireq left' (n + 1) (redirected ireq meth withBody u))))))"

declare do_hops.simps [simp del]

text \<open>\<^verbatim>\<open>Client.Do\<close>: at most ten requests.\<close>

definition Do :: "http_client \<Rightarrow> internet \<Rightarrow> http_request \<Rightarrow> (do_error + hop_reply) \<times> hop list" where
  "Do c net req = do_hops (hcl_Transport c) net req 9 0 req"

section \<open>The surfaces over the network\<close>

text \<open>The message of a failed \<^verbatim>\<open>Do\<close> quotes the method and the URL, and the cause; the
  address that the guard names is left out of it.\<close>

fun cause :: "do_error \<Rightarrow> string" where
  "cause (DoSign e) = ''sign''"
| "cause (DoDial ErrSSRFRejected) = ''ssrf: blocked IP: webhook: callback URL targets blocked address space''"
| "cause (DoDial ErrSplitHostPort) = ''ssrf: split host port''"
| "cause (DoDial _) = ''ssrf: dns lookup''"
| "cause DoConnect = ''dial tcp: connection refused''"
| "cause (DoTransport e) = e"
| "cause DoLocation = ''failed to parse Location header''"
| "cause DoRedirects = ''stopped after 10 redirects''"

definition url_error :: "http_request \<Rightarrow> do_error \<Rightarrow> string" where
  "url_error req e = req_method req @ '' \"'' @ req_url req @ ''\": '' @ cause e"

definition deliver_error_of :: "http_request \<Rightarrow> do_error \<Rightarrow> deliver_error" where
  "deliver_error_of req e =
    (if e = DoDial ErrSSRFRejected then SSRFRejected (url_error req e) else NetError (url_error req e))"

definition status_http :: "status_service \<Rightarrow> bool \<Rightarrow> http_client" where
  "status_http ss trusted = (if trusted then ss_httpTrusted ss else ss_http ss)"

definition status_do :: "status_service \<Rightarrow> internet \<Rightarrow> bool \<Rightarrow> http_request \<Rightarrow> deliver_error + int" where
  "status_do ss net trusted req = map_sum (deliver_error_of req) rep_status (fst (Do (status_http ss trusted) net req))"

text \<open>What one attempt to deliver a callback sends and dials.\<close>

definition attempt_hops :: "callback_env \<Rightarrow> status_service \<Rightarrow> internet \<Rightarrow> callback_job \<Rightarrow> hop list" where
  "attempt_hops env ss net job =
    (case build_request env job of
       None \<Rightarrow> []
     | Some req \<Rightarrow> snd (Do (status_http ss (cb_trusted (job_evt job))) net req))"

definition voice_http :: "voice_service \<Rightarrow> bool \<Rightarrow> http_client" where
  "voice_http vo dev = (if dev then vo_httpDev vo else vo_http vo)"

definition voice_do :: "voice_service \<Rightarrow> internet \<Rightarrow> voice_send" where
  "voice_do vo net dev req = map_sum (url_error req) http_reply.truncate (fst (Do (voice_http vo dev) net req))"

section \<open>What the guard keeps out\<close>

fun guarded :: "round_tripper \<Rightarrow> bool" where
  "guarded (BareTransport t) = (case tr_dialer t of SsrfDialer a b \<Rightarrow> True | _ \<Rightarrow> False)"
| "guarded (SigningTransport inner tok) = guarded inner"

definition safe_hop :: "hop \<Rightarrow> bool" where
  "safe_hop h \<longleftrightarrow> list_all (\<lambda>(ip, port). \<not> isBlockedIP ip) (hop_dialed h)"

lemma guarded_connect_safe: "list_all (\<lambda>(ip, port). \<not> isBlockedIP ip) (snd (guarded_connect net n addr))"
proof (cases "DialContext (net_lookup net) n addr")
  case (Inr ap)
  obtain ip port where ap: "ap = (ip, port)" by fastforce
  have "\<not> isBlockedIP ip"
    using Inr unfolding ap by (auto simp: DialContext_def list_ex_iff split: option.splits if_splits)
  then show ?thesis by (simp add: guarded_connect_def Inr ap)
qed (simp add: guarded_connect_def)

lemma round_trip_safe: "guarded rt \<Longrightarrow> h \<in> set (snd (round_trip rt net n req)) \<Longrightarrow> safe_hop h"
proof (induction rt net n req rule: round_trip.induct)
  case (1 t net n req)
  then obtain a b where d: "tr_dialer t = SsrfDialer a b" by (auto split: dialer.splits)
  obtain r ds where c: "guarded_connect net n (net_addr net (req_url req)) = (r, ds)" by fastforce
  have "h = \<lparr> hop_request = req, hop_dialed = ds \<rparr>" using 1 by (auto simp: d c split: sum.splits)
  then show ?case using guarded_connect_safe[of net n "net_addr net (req_url req)"] by (simp add: safe_hop_def c)
qed (auto split: sum.splits)

lemma round_trip_one: "length (snd (round_trip rt net n req)) \<le> 1"
  by (induction rt net n req rule: round_trip.induct) (auto split: sum.splits prod.splits)

text \<open>The hops of a request: those of its first round trip, and, after a redirect, those
  of the request made from it.\<close>

lemma do_hops_cases:
  "(\<exists>r. do_hops rt net ireq left n req = (r, snd (round_trip rt net n req))) \<or>
   (\<exists>left' req'. left = Suc left' \<and> snd (do_hops rt net ireq left n req) =
      snd (round_trip rt net n req) @ snd (do_hops rt net ireq left' (n + 1) req'))"
proof (cases "round_trip rt net n req")
  case (Pair r hs)
  show ?thesis
    by (subst (1 2) do_hops.simps)
      (auto simp: Pair split: sum.splits option.splits prod.splits nat.splits if_splits)
qed

lemma do_hops_all:
  assumes "\<And>n req h. h \<in> set (snd (round_trip rt net n req)) \<Longrightarrow> P h"
  shows "h \<in> set (snd (do_hops rt net ireq left n req)) \<Longrightarrow> P h"
proof (induction left arbitrary: n req)
  case 0
  then show ?case using do_hops_cases[of rt net ireq 0 n req] assms by auto
next
  case (Suc left)
  then show ?case using do_hops_cases[of rt net ireq "Suc left" n req] assms by fastforce
qed

lemma do_hops_length: "length (snd (do_hops rt net ireq left n req)) \<le> left + 1"
proof (induction left arbitrary: n req)
  case 0
  then show ?case using do_hops_cases[of rt net ireq 0 n req] round_trip_one[of rt net n req] by auto
next
  case (Suc left)
  from do_hops_cases[of rt net ireq "Suc left" n req] show ?case
  proof (elim disjE exE conjE)
    fix left' req'
    assume "Suc left = Suc left'" "snd (do_hops rt net ireq (Suc left) n req) =
      snd (round_trip rt net n req) @ snd (do_hops rt net ireq left' (n + 1) req')"
    then show ?thesis using round_trip_one[of rt net n req] Suc[of "n + 1" req'] by simp
  qed (use round_trip_one[of rt net n req] in simp)
qed

lemma Do_safe: "guarded (hcl_Transport c) \<Longrightarrow> h \<in> set (snd (Do c net req)) \<Longrightarrow> safe_hop h"
  unfolding Do_def by (rule do_hops_all[where P = safe_hop]) (rule round_trip_safe)

lemma Do_length: "length (snd (Do c net req)) \<le> 10"
  using do_hops_length[of "hcl_Transport c" net req 9 0 req] by (simp add: Do_def)

section \<open>Signing along the way\<close>

text \<open>A request is rightly signed if signing it again changes nothing.\<close>

definition rightly_signed :: "string \<Rightarrow> http_request \<Rightarrow> bool" where
  "rightly_signed tok req \<longleftrightarrow> RoundTrip tok req = Inr req"

abbreviation with_signature :: "http_request \<Rightarrow> string \<Rightarrow> http_request" where
  "with_signature req x \<equiv> req\<lparr> req_headers := (req_headers req)(''X-Twilio-Signature'' \<mapsto> x) \<rparr>"

lemma RoundTrip_with_signature [simp]: "RoundTrip tok (with_signature req x) = RoundTrip tok req"
  by (simp add: RoundTrip_def Let_def split: sum.split http_body.split option.split)

lemma RoundTrip_Inr: "RoundTrip tok req = Inr req' \<Longrightarrow> \<exists>x. req' = with_signature req x"
  by (auto simp: RoundTrip_def Let_def split: sum.splits)

lemma RoundTrip_signed: "RoundTrip tok req = Inr req' \<Longrightarrow> rightly_signed tok req'"
  using RoundTrip_Inr unfolding rightly_signed_def by (metis RoundTrip_with_signature)

lemma round_trip_signed:
  "h \<in> set (snd (round_trip (SigningTransport (BareTransport t) tok) net n req)) \<Longrightarrow> rightly_signed tok (hop_request h)"
  by (auto dest: RoundTrip_signed split: sum.splits prod.splits)

lemma redirected_with_signature [simp]:
  "redirected (with_signature ireq x) meth b u = with_signature (redirected ireq meth b u) x"
  by (simp add: redirected_def)

text \<open>A request that is signed before it reaches a signing client takes the same way.\<close>

lemma round_trip_with_signature:
  "round_trip (SigningTransport inner tok) net n (with_signature req x) = round_trip (SigningTransport inner tok) net n req"
  by simp

lemma do_hops_with_signature:
  "do_hops (SigningTransport inner tok) net (with_signature ireq x) left n (with_signature req y) =
   do_hops (SigningTransport inner tok) net ireq left n req"
proof (induction left arbitrary: n req y)
  case 0
  show ?case
    by (subst (1 2) do_hops.simps)
      (simp add: round_trip_with_signature del: round_trip.simps split: sum.split prod.split option.split)
next
  case (Suc left)
  show ?case
    by (subst (1 2) do_hops.simps)
      (simp add: round_trip_with_signature Suc del: round_trip.simps split: sum.split prod.split option.split)
qed

lemma Do_presigned:
  assumes "hcl_Transport c = SigningTransport inner tok" "RoundTrip tok req = Inr req'"
  shows "Do c net req' = Do c net req"
proof -
  obtain x where "req' = with_signature req x" using RoundTrip_Inr[OF assms(2)] by blast
  then show ?thesis by (simp add: Do_def assms(1) do_hops_with_signature)
qed

section \<open>Callbacks over the network\<close>

lemma NewStatusClient_clients:
  "hcl_Transport (status_http (NewStatusClient tok) trusted) =
     SigningTransport (BareTransport (status_transport (if trusted then ZeroDialer else newSSRFGuard))) tok"
  "hcl_Timeout (status_http (NewStatusClient tok) trusted) = int statusPerAttemptTimeout * 1000000"
  by (simp_all add: status_http_def NewStatusClient_def Let_def)

lemma attempt_hops_props:
  assumes "h \<in> set (attempt_hops env (NewStatusClient tok) net job)"
  shows "rightly_signed tok (hop_request h)" "\<not> cb_trusted (job_evt job) \<Longrightarrow> safe_hop h"
proof -
  let ?c = "status_http (NewStatusClient tok) (cb_trusted (job_evt job))"
  from assms obtain req where h: "h \<in> set (snd (Do ?c net req))"
    by (auto simp: attempt_hops_def split: option.splits)
  show "rightly_signed tok (hop_request h)"
    using h unfolding Do_def NewStatusClient_clients
    by (rule do_hops_all[where P = "\<lambda>h. rightly_signed tok (hop_request h)", rotated]) (rule round_trip_signed)
  show "\<not> cb_trusted (job_evt job) \<Longrightarrow> safe_hop h"
    by (rule Do_safe[OF _ h]) (simp add: NewStatusClient_clients status_transport_def newSSRFGuard_def)
qed

lemma attempt_hops_length: "length (attempt_hops env ss net job) \<le> 10"
  using Do_length by (auto simp: attempt_hops_def split: option.split)

lemma hd_do_hops:
  "round_trip rt net n req = (r, h # hs) \<Longrightarrow> \<exists>hs'. snd (do_hops rt net ireq left n req) = h # hs'"
  using do_hops_cases[of rt net ireq left n req] by auto

lemma round_trip_bare:
  "\<exists>r ds. round_trip (BareTransport t) net n req = (r, [\<lparr> hop_request = req, hop_dialed = ds \<rparr>])"
proof -
  obtain x ds where "connect (tr_dialer t) net n (net_addr net (req_url req)) = (x, ds)" by fastforce
  then show ?thesis by (cases x) auto
qed

lemma attempt_hops_first:
  assumes "attempt_hops env (NewStatusClient tok) net job = h # hs"
  shows "\<exists>req. build_request env job = Some req \<and> RoundTrip tok req = Inr (hop_request h)"
proof -
  obtain req where req: "build_request env job = Some req"
    and h: "snd (Do (status_http (NewStatusClient tok) (cb_trusted (job_evt job))) net req) = h # hs"
    using assms by (auto simp: attempt_hops_def split: option.splits)
  let ?t = "status_transport (if cb_trusted (job_evt job) then ZeroDialer else newSSRFGuard)"
  let ?rt = "SigningTransport (BareTransport ?t) tok"
  show ?thesis
  proof (cases "RoundTrip tok req")
    case (Inl e)
    then have "snd (do_hops ?rt net req 9 0 req) = []"
      by (subst do_hops.simps) simp
    then show ?thesis using h by (simp add: Do_def NewStatusClient_clients)
  next
    case (Inr req')
    obtain r ds where "round_trip ?rt net 0 req = (r, [\<lparr> hop_request = req', hop_dialed = ds \<rparr>])"
      using round_trip_bare[of ?t net 0 req'] by (auto simp: Inr)
    from hd_do_hops[OF this, of req 9] h have "hop_request h = req'" by (auto simp: Do_def NewStatusClient_clients)
    then show ?thesis using req Inr by blast
  qed
qed

text \<open>What an attempt returns is what the client's \<^verbatim>\<open>Do\<close> returns for the callback.\<close>

lemma deliverOnce_over_http:
  assumes "deliverOnce env tok (status_do (NewStatusClient tok) net) job = (status, None)"
  shows "\<exists>req rep. build_request env job = Some req \<and>
    fst (Do (status_http (NewStatusClient tok) (cb_trusted (job_evt job))) net req) = Inr rep \<and> rep_status rep = status"
proof -
  let ?c = "status_http (NewStatusClient tok) (cb_trusted (job_evt job))"
  obtain req req' where r: "build_request env job = Some req" "RoundTrip tok req = Inr req'"
    "status_do (NewStatusClient tok) net (cb_trusted (job_evt job)) req' = Inr status"
    using assms by (auto simp: deliverOnce_def split: option.splits sum.splits)
  then obtain rep where "fst (Do ?c net req') = Inr rep" "rep_status rep = status"
    by (cases "fst (Do ?c net req')") (auto simp: status_do_def)
  then show ?thesis using r Do_presigned[OF NewStatusClient_clients(1) r(2)] by auto
qed

text \<open>C11. A customer's callback URL cannot be used to reach inside: over all attempts of
  a delivery, through all redirects and whatever the resolvers answer from hop to
  hop, an address dialled for it is never a blocked one; there are at most 40
  requests; every one of them is signed with the account's token for what it
  carries; the first of each attempt is the callback itself; and the callback counts
  as delivered only if the host at the end of the way answered with a 2xx
  status.\<close>

theorem customer_urls_guarded:
  assumes "deliverWithRetries env tok (\<lambda>n. status_do (NewStatusClient tok) (nets n)) job = (as, v)"
    and "\<not> cb_trusted (job_evt job)"
  shows "(\<forall>i < length as. \<forall>h \<in> set (attempt_hops env (NewStatusClient tok) (nets i) job).
        (\<forall>(ip, port) \<in> set (hop_dialed h). \<not> isBlockedIP ip) \<and> RoundTrip tok (hop_request h) = Inr (hop_request h)) \<and>
    (\<Sum>i < length as. length (attempt_hops env (NewStatusClient tok) (nets i) job)) \<le> 40 \<and>
    (\<forall>i h hs. attempt_hops env (NewStatusClient tok) (nets i) job = h # hs \<longrightarrow>
        (\<exists>req. build_request env job = Some req \<and> RoundTrip tok req = Inr (hop_request h))) \<and>
    (v = Delivered \<longrightarrow> (\<exists>req rep. build_request env job = Some req \<and>
        fst (Do (ss_http (NewStatusClient tok)) (nets (length as - 1)) req) = Inr rep \<and>
        200 \<le> rep_status rep \<and> rep_status rep < 300))"
proof -
  have t: "try_attempts (\<lambda>n. deliverOnce env tok (status_do (NewStatusClient tok) (nets n)) job) 0 statusBackoffs = (as, v)"
    using assms(1) by (simp add: deliverWithRetries_def)
  note shape = try_attempts_shape[OF t]
  have n: "length as \<le> 4" using shape by (simp add: statusBackoffs_def)
  have "(\<Sum>i < length as. length (attempt_hops env (NewStatusClient tok) (nets i) job)) \<le> length as * 10"
    using sum_bounded_above[of "{..<length as}" "\<lambda>i. length (attempt_hops env (NewStatusClient tok) (nets i) job)" 10]
      attempt_hops_length by simp
  also have "\<dots> \<le> 40" using n by simp
  finally have bound: "(\<Sum>i < length as. length (attempt_hops env (NewStatusClient tok) (nets i) job)) \<le> 40" .
  have dlv: "\<exists>req rep. build_request env job = Some req \<and>
      fst (Do (ss_http (NewStatusClient tok)) (nets (length as - 1)) req) = Inr rep \<and> 200 \<le> rep_status rep \<and> rep_status rep < 300"
    if "v = Delivered"
  proof -
    from that shape have ne: "as \<noteq> []" and ok: "attempt_ok (fst (snd (last as))) (snd (snd (last as)))" by blast+
    have "snd (last as) = deliverOnce env tok (status_do (NewStatusClient tok) (nets (length as - 1))) job"
      using shape ne by (simp add: last_conv_nth)
    then have "deliverOnce env tok (status_do (NewStatusClient tok) (nets (length as - 1))) job = (fst (snd (last as)), None)"
      using ok by (metis attempt_ok_def prod.collapse)
    from deliverOnce_over_http[OF this] ok assms(2) show ?thesis by (auto simp: attempt_ok_def status_http_def)
  qed
  have "(\<forall>(ip, port) \<in> set (hop_dialed h). \<not> isBlockedIP ip) \<and> RoundTrip tok (hop_request h) = Inr (hop_request h)"
    if "h \<in> set (attempt_hops env (NewStatusClient tok) (nets i) job)" for i h
    using attempt_hops_props[OF that] assms(2) by (simp add: safe_hop_def list_all_iff rightly_signed_def)
  then show ?thesis using bound dlv attempt_hops_first by blast
qed

section \<open>Concrete networks\<close>

text \<open>A host answers with a redirect to a name that resolves to the loopback address.\<close>

definition redirecting :: internet where
  "redirecting = \<lparr> net_addr = (\<lambda>u. if u = ''https://in/'' then ''in:443'' else ''out:443''), net_resolve = (\<lambda>u l. Some l),
     net_lookup = (\<lambda>n h. Some [if h = ''in'' then [127, 0, 0, 1] else [93, 184, 216, 34]]), net_connect = (\<lambda>n ip p. True),
     net_answer = (\<lambda>n ip r. Inr (if req_url r = ''https://out/'' then \<lparr> rep_status = 302, rep_body = [], rep_broken = None, hop_location = ''https://in/'' \<rparr>
        else \<lparr> rep_status = 200, rep_body = [], rep_broken = None, hop_location = '''' \<rparr>)) \<rparr>"

definition out_job :: callback_job where
  "out_job = \<lparr> job_callSid = ''CA1'', job_evt = demo_event\<lparr> cb_url := ''https://out/'' \<rparr> \<rparr>"

definition out_run :: "(nat \<times> int \<times> deliver_error option) list \<times> verdict" where
  "out_run = deliverWithRetries demo_env ''tok'' (\<lambda>n. status_do (NewStatusClient ''tok'') redirecting) out_job"

lemmas http_eval = out_run_def deliverWithRetries_def deliverOnce_def build_request_def demo_env_def demo_event_def out_job_def
  RoundTrip_def statusBackoffs_def status_do_def Do_def NewStatusClient_clients status_transport_def newSSRFGuard_def
  redirecting_def do_hops.simps guarded_connect_def DialContext_def split_host_port_def isBlockedIP_v4 blocked_v4_def
  redirectBehavior_def redirected_def deliver_error_of_def url_error_def shouldRetry_def attempt_ok_def attempt_hops_def

lemma out_run_eval:
  "\<exists>m. out_run = ([(0, 0, Some (SSRFRejected m))], Abandoned (BucketStatusCallbackReason (Some m) 0))"
  by (simp add: http_eval recordFailure_label_def Let_def)

theorem customer_urls_guarded_witness:
  "attempt_hops demo_env (NewStatusClient ''tok'') redirecting out_job \<noteq> [] \<and>
   list_all (\<lambda>h. list_all (\<lambda>(ip, port). \<not> isBlockedIP ip) (hop_dialed h) \<and> RoundTrip ''tok'' (hop_request h) = Inr (hop_request h))
      (attempt_hops demo_env (NewStatusClient ''tok'') redirecting out_job) \<and>
   (\<exists>m. fst out_run = [(0, 0, Some (SSRFRejected m))])"
proof -
  obtain m where run: "out_run = ([(0, 0, Some (SSRFRejected m))], Abandoned (BucketStatusCallbackReason (Some m) 0))"
    using out_run_eval by blast
  have ut: "\<not> cb_trusted (job_evt out_job)" by (simp add: out_job_def demo_event_def)
  have ne: "attempt_hops demo_env (NewStatusClient ''tok'') redirecting out_job \<noteq> []"
    by (simp add: http_eval Let_def)
  have "fst out_run = [(0, 0, Some (SSRFRejected m))]" unfolding run by simp
  then have "\<exists>m. fst out_run = [(0, 0, Some (SSRFRejected m))]" by blast
  with customer_urls_guarded[OF run[unfolded out_run_def] ut] ne show ?thesis by (simp add: list_all_iff)
qed

text \<open>A callback that is answered with a redirect of the classic kind arrives as a GET
  without its form, and is counted as delivered.\<close>

lemma redirected_callback_loses_form:
  assumes "RoundTrip tok req = Inr req'" "round_trip (BareTransport t) net n req' = (Inr rep, hs)"
    and "req_method req = ''POST''" "rep_status rep \<in> {301, 302, 303}" "hop_location rep \<noteq> ''''"
    and "net_resolve net (req_url req) (hop_location rep) = Some u" "r2 = redirected req ''GET'' False u"
  shows "do_hops (SigningTransport (BareTransport t) tok) net req (Suc left) n req =
      map_prod id ((@) hs) (do_hops (SigningTransport (BareTransport t) tok) net req left (n + 1) r2) \<and>
    req_method r2 = ''GET'' \<and> req_body r2 = NoBody"
  by (subst do_hops.simps) (use assms in \<open>auto simp: redirectBehavior_def redirected_def simp del: round_trip.simps(1)\<close>)

text \<open>The clients of the Url fetch and of the action callback have no guard: they dial
  whatever the URL, or a redirect of its host, names.\<close>

lemma url_fetch_reaches_loopback:
  "\<exists>h \<in> set (snd (Do NewClient redirecting
      \<lparr> req_method = ''GET'', req_url = ''https://out/'', req_body = NoBody, req_raw_url = None, req_headers = Map.empty \<rparr>)).
    ([127, 0, 0, 1], ''443'') \<in> set (hop_dialed h)"
  by (simp add: NewClient_def plainDialer_def plain_connect_def Do_def do_hops.simps redirecting_def split_host_port_def
      redirectBehavior_def redirected_def)

lemma action_poster_unguarded:
  "\<not> guarded (hcl_Transport (NewSignedActionPoster tok))" "\<not> guarded (hcl_Transport NewClient)"
  by (simp_all add: NewSignedActionPoster_def NewClient_def SigningTransportFor_def plainDialer_def)

text \<open>The label of a failed attempt is read off a message that quotes the customer's URL,
  so the URL can choose it.\<close>

lemma url_chooses_label:
  "BucketStatusCallbackReason (Some (url_error req DoConnect)) 0 = ''queue_full''"
  if "req = \<lparr> req_method = ''Post'', req_url = ''https://x/queue_full'', req_body = NoBody, req_raw_url = None, req_headers = Map.empty \<rparr>"
  unfolding that by code_simp

section \<open>The voice webhook over the network\<close>

lemma fetchOne_sent:
  "(u, dev, req) \<in> set (snd (fetchOne newreq send ctx tok url meth form)) \<Longrightarrow> u = url \<and> dev = isLocalhostHTTP url \<and> isAllowedVoiceURL url"
  by (auto simp: fetchOne_def Let_def split: if_splits sum.splits)

lemma VoiceFetch_sent:
  assumes "(u, dev, req) \<in> set (snd (snd (VoiceFetch newreq send1 send2 ctx1 ctx2 c p)))"
  shows "u \<in> {vc_primaryURL c, vc_fallbackURL c} \<and> dev = isLocalhostHTTP u \<and> isAllowedVoiceURL u"
proof -
  let ?f1 = "fetchOne newreq send1 ctx1 (vc_authToken c) (vc_primaryURL c) (vc_primaryMethod c) (buildForm p)"
  let ?f2 = "fetchOne newreq send2 ctx2 (vc_authToken c) (vc_fallbackURL c) (vc_fallbackMethod c) (buildForm p)"
  have "(u, dev, req) \<in> set (snd ?f1) \<union> set (snd ?f2)"
    using assms by (cases ?f1; cases ?f2) (auto simp: VoiceFetch_def Let_def split: sum.splits if_splits)
  then show ?thesis using fetchOne_sent by blast
qed

text \<open>Every connection of a voice fetch is to an address outside the blocked ranges, on
  every hop, unless the configured URL is one of the local ones.\<close>

lemma voice_fetch_guarded:
  assumes "vo = NewVoiceClient pu pm fu fm tok timeoutS"
    and "(u, dev, req) \<in> set (snd (snd (VoiceFetch newreq (voice_do vo net1) (voice_do vo net2) ctx1 ctx2 (vo_conf vo) p)))"
    and "h \<in> set (snd (Do (voice_http vo dev) net req))"
  shows "(isLocalhostHTTP u \<or> list_all (\<lambda>(ip, port). \<not> isBlockedIP ip) (hop_dialed h)) \<and> u \<in> {pu, fu} \<and> isAllowedVoiceURL u \<and>
    length (snd (Do (voice_http vo dev) net req)) \<le> 10"
proof -
  have u: "u \<in> {pu, fu} \<and> dev = isLocalhostHTTP u \<and> isAllowedVoiceURL u"
    using VoiceFetch_sent[OF assms(2)] by (simp add: assms(1) NewVoiceClient_def Let_def)
  have "safe_hop h" if "\<not> dev"
    using Do_safe[OF _ assms(3)] that
    by (simp add: voice_http_def assms(1) NewVoiceClient_def Let_def newSSRFGuard_def)
  then show ?thesis using u Do_length by (auto simp: safe_hop_def)
qed

text \<open>The rule that a voice URL is https binds only the first hop: a redirect of its host to
  plain http is followed, with the whole form when it is a 307.\<close>

definition downgrading :: internet where
  "downgrading = redirecting\<lparr> net_answer := (\<lambda>n ip r. Inr (if req_url r = ''https://out/''
     then \<lparr> rep_status = 307, rep_body = [], rep_broken = None, hop_location = ''http://plain/'' \<rparr>
     else \<lparr> rep_status = 200, rep_body = [], rep_broken = None, hop_location = '''' \<rparr>)) \<rparr>"

lemma voice_form_over_plain_http:
  "map (\<lambda>h. (req_url (hop_request h), req_body (hop_request h)))
     (snd (Do (voice_http (NewVoiceClient ''https://out/'' ''POST'' '''' '''' ''tok'' 5) False) downgrading
       \<lparr> req_method = ''POST'', req_url = ''https://out/'', req_body = Body b, req_raw_url = None, req_headers = Map.empty \<rparr>)) =
   [(''https://out/'', Body b), (''http://plain/'', Body b)]"
  by (simp add: NewVoiceClient_def Let_def voice_http_def newSSRFGuard_def Do_def do_hops.simps redirecting_def downgrading_def
      guarded_connect_def DialContext_def split_host_port_def isBlockedIP_v4 blocked_v4_def redirectBehavior_def redirected_def)

end
