(* ===== verification/Web_Ui.thy ===== *)
theory Web_Ui
  imports Prelude
begin

text \<open>
  The operator interface, \<^verbatim>\<open>internal/web\<close>: the embedded bundle behind the \<^verbatim>\<open>/ui\<close> prefix
  with its security headers (\<^verbatim>\<open>server.go\<close>).  The file server of the standard library
  over the bundle is an argument: it is given the path and the headers set so far.
\<close>

type_synonym header_map = "string \<rightharpoonup> string"

record ui_reply =
  ur_status :: int
  ur_headers :: header_map
  ur_body :: string

type_synonym ui_handler = "string \<times> string \<Rightarrow> header_map \<Rightarrow> ui_reply"

definition UIContentSecurityPolicy :: string where
  "UIContentSecurityPolicy =
    ''default-src 'none'; script-src 'self'; style-src 'self'; img-src 'self' data:; connect-src 'self'; '' @
    ''font-src 'self'; base-uri 'none'; frame-ancestors 'none'' @ [CHR 0x27]"

definition uiCSP :: "ui_handler \<Rightarrow> ui_handler" where
  "uiCSP next r h =
    next r (h(''Content-Security-Policy'' \<mapsto> UIContentSecurityPolicy, ''X-Content-Type-Options'' \<mapsto> ''nosniff'',
      ''Strict-Transport-Security'' \<mapsto> ''max-age=63072000; includeSubDomains''))"

definition NotFound :: ui_handler where
  "NotFound r h = \<lparr> ur_status = 404, ur_headers = h(''Content-Type'' \<mapsto> ''text/plain; charset=utf-8'',
     ''X-Content-Type-Options'' \<mapsto> ''nosniff''), ur_body = ''404 page not found'' \<rparr>"

text \<open>\<^verbatim>\<open>http.StripPrefix\<close> on a path and its raw form (empty when they agree).\<close>

definition StripPrefix :: "string \<Rightarrow> ui_handler \<Rightarrow> ui_handler" where
  "StripPrefix prefix next r h =
    (let (path, raw) = r; p = trim_prefix path prefix; rp = trim_prefix raw prefix in
     if prefix = '''' then next r h
     else if length p < length path \<and> (raw = '''' \<or> length rp < length raw) then next (p, rp) h
     else NotFound r h)"

definition handlerFor :: "ui_handler \<Rightarrow> ui_handler" where
  "handlerFor fileServer = StripPrefix ''/ui'' (uiCSP fileServer)"

text \<open>A file server that adds headers of its own but leaves these three alone, as that of
  the standard library does.\<close>

definition keeps_security :: "ui_handler \<Rightarrow> bool" where
  "keeps_security fs \<longleftrightarrow> (\<forall>r h k. k \<in> {''Content-Security-Policy'', ''X-Content-Type-Options'', ''Strict-Transport-Security''} \<longrightarrow>
     ur_headers (fs r h) k = h k)"

lemma trim_prefix_shorter: "length (trim_prefix s p) < length s \<longleftrightarrow> has_prefix s p \<and> p \<noteq> ''''"
  by (cases "s = []"; cases "p = []") (auto simp: trim_prefix_def has_prefix_def)

text \<open>Every reply below the prefix carries the headers, missing files included; the reply
  to a path outside it, which the router never hands over, does not.\<close>

lemma ui_headers:
  assumes "keeps_security fs" "has_prefix path ''/ui''"
  shows "ur_headers (handlerFor fs (path, '''') h) ''Content-Security-Policy'' = Some UIContentSecurityPolicy \<and>
    ur_headers (handlerFor fs (path, '''') h) ''X-Content-Type-Options'' = Some ''nosniff'' \<and>
    ur_headers (handlerFor fs (path, '''') h) ''Strict-Transport-Security'' = Some ''max-age=63072000; includeSubDomains''"
proof -
  have "handlerFor fs (path, '''') h = uiCSP fs (trim_prefix path ''/ui'', '''') h"
    using assms(2) trim_prefix_shorter[of path "''/ui''"] by (simp add: handlerFor_def StripPrefix_def trim_prefix_def)
  then show ?thesis using assms(1) by (simp add: uiCSP_def keeps_security_def)
qed

lemma ui_outside_prefix:
  "\<not> has_prefix path ''/ui'' \<Longrightarrow> ur_headers (handlerFor fs (path, '''') Map.empty) ''Content-Security-Policy'' = None"
  using trim_prefix_shorter[of path "''/ui''"] by (simp add: handlerFor_def StripPrefix_def NotFound_def)

end
