(* ===== verification/Background.thy ===== *)
theory Background
  imports Call_Manager
begin

text \<open>
  The waiting loops of \<^verbatim>\<open>bridge/manager.go\<close>: the sweeper that forgets ended calls
  (\<^verbatim>\<open>recentlyTerminatedSweep\<close>) and the wait of \<^verbatim>\<open>DrainAll\<close> for the sessions to go away.
  Times of the sweeper are nanoseconds, those of the drain milliseconds.
\<close>

section \<open>The sweeper\<close>

definition recentlyTerminatedSweepInterval :: int where
  "recentlyTerminatedSweepInterval = 30000000000"

text \<open>What its loop receives, and, between two receptions, the snapshots that ending
  calls store.  \<open>SweepDone\<close> is the end of its context, which \<^verbatim>\<open>Close\<close> brings about.\<close>

datatype sweep_event = SweepTick int | SweepDone | Stored int string terminated_call

definition store_snapshot :: "string \<Rightarrow> terminated_call \<Rightarrow> call_manager \<Rightarrow> call_manager" where
  "store_snapshot k t m = m\<lparr> cm_recentlyTerminated := sm_store k t (cm_recentlyTerminated m) \<rparr>"

fun recentlyTerminatedSweep :: "bool \<Rightarrow> sweep_event list \<Rightarrow> call_manager \<Rightarrow> call_manager" where
  "recentlyTerminatedSweep running [] m = m"
| "recentlyTerminatedSweep running (SweepTick now # es) m =
    recentlyTerminatedSweep running es (if running then sweepRecentlyTerminatedOnce now m else m)"
| "recentlyTerminatedSweep running (SweepDone # es) m = recentlyTerminatedSweep False es m"
| "recentlyTerminatedSweep running (Stored now k t # es) m = recentlyTerminatedSweep running es (store_snapshot k t m)"

text \<open>A run of the running sweeper: events in the order of time, a tick at least every
  interval, and every stored call ended at the time at which it is stored.  The
  arguments are the time of the last tick and of the last event; the last one is the
  moment of observation.\<close>

fun sweep_timely :: "int \<Rightarrow> int \<Rightarrow> sweep_event list \<Rightarrow> int \<Rightarrow> bool" where
  "sweep_timely tick now [] at = (now \<le> at \<and> at \<le> tick + recentlyTerminatedSweepInterval)"
| "sweep_timely tick now (SweepTick t # es) at = (now \<le> t \<and> t \<le> tick + recentlyTerminatedSweepInterval \<and> sweep_timely t t es at)"
| "sweep_timely tick now (SweepDone # es) at = False"
| "sweep_timely tick now (Stored t k c # es) at =
    (now \<le> t \<and> t \<le> tick + recentlyTerminatedSweepInterval \<and> tc_endTime c = Some t \<and> sweep_timely tick t es at)"

text \<open>At a tick nothing older than the retention is left, so between ticks nothing is
  older by more than the interval.\<close>

definition aged :: "int \<Rightarrow> call_manager \<Rightarrow> bool" where
  "aged tick m \<longleftrightarrow> (\<forall>(k, c) \<in> set (cm_recentlyTerminated m). \<exists>e. tc_endTime c = Some e \<and> tick - e \<le> recentlyTerminatedTTL)"

lemma aged_tick: "aged t (sweepRecentlyTerminatedOnce t m)"
  by (auto simp: aged_def sweepRecentlyTerminatedOnce_def expired_def split: option.splits)

lemma aged_store: "aged tick m \<Longrightarrow> tc_endTime c = Some t \<Longrightarrow> tick \<le> t \<Longrightarrow> aged tick (store_snapshot k c m)"
  by (auto simp: aged_def store_snapshot_def sm_store_def sm_delete_def recentlyTerminatedTTL_def)

lemma sweep_retention:
  assumes "sweep_timely tick now es at" "aged tick m" "tick \<le> now"
    and "(k, c) \<in> set (cm_recentlyTerminated (recentlyTerminatedSweep True es m))"
  shows "\<exists>e. tc_endTime c = Some e \<and> at - e \<le> recentlyTerminatedTTL + recentlyTerminatedSweepInterval"
  using assms
proof (induction es arbitrary: tick now m)
  case Nil
  then show ?case unfolding aged_def by fastforce
next
  case (Cons x es)
  show ?case
  proof (cases x)
    case (SweepTick t)
    then show ?thesis using Cons.IH[OF _ aged_tick, of t t] Cons.prems by auto
  next
    case (Stored t k' c')
    then have t: "sweep_timely tick t es at" "tick \<le> t" "aged tick (store_snapshot k' c' m)"
      using Cons.prems(1-3) by (auto intro: aged_store)
    then show ?thesis using Cons.IH[OF t(1,3,2)] Cons.prems(4) by (simp add: Stored)
  qed (use Cons.prems in simp)
qed

text \<open>What is younger than the retention is still there.\<close>

lemma sm_load_filter:
  "sm_load m k = Some c \<Longrightarrow> P c \<Longrightarrow> sm_load (filter (\<lambda>kv. P (snd kv)) m) k = Some c"
  by (induction m) (auto simp: sm_load_def split: if_splits)

lemma sweep_timely_forward: "sweep_timely tick now es at \<Longrightarrow> now \<le> at"
  by (induction tick now es at rule: sweep_timely.induct) auto

lemma sweep_keeps:
  assumes "sweep_timely tick now es at" "sm_load (cm_recentlyTerminated m) k = Some c" "tc_endTime c = Some e"
    and "at - e \<le> recentlyTerminatedTTL" "\<forall>t c'. Stored t k c' \<notin> set es"
  shows "sm_load (cm_recentlyTerminated (recentlyTerminatedSweep True es m)) k = Some c"
  using assms
proof (induction es arbitrary: tick now m)
  case (Cons x es)
  show ?case
  proof (cases x)
    case (SweepTick t)
    have "t \<le> at" using Cons.prems(1) sweep_timely_forward[of t t es at] by (simp add: SweepTick)
    then have "\<not> expired t c" using Cons.prems(3,4) by (simp add: expired_def)
    from sm_load_filter[OF Cons.prems(2), of "\<lambda>c. \<not> expired t c"] this
    have "sm_load (cm_recentlyTerminated (sweepRecentlyTerminatedOnce t m)) k = Some c"
      by (simp add: sweepRecentlyTerminatedOnce_def)
    from Cons.IH[OF _ this, of t t] Cons.prems show ?thesis by (auto simp: SweepTick)
  next
    case (Stored t k' c')
    then have "k' \<noteq> k" using Cons.prems(5) by auto
    then have "sm_load (cm_recentlyTerminated (store_snapshot k' c' m)) k = Some c"
      using Cons.prems(2,5) by (simp add: store_snapshot_def)
    from Cons.IH[OF _ this, of tick t] Cons.prems show ?thesis by (auto simp: Stored)
  qed (use Cons.prems in simp)
qed simp

section \<open>The wait of the drain\<close>

text \<open>Every 50 milliseconds the sessions are counted, until none is left or the context
  ends; when the tick and the end of the context coincide, \<^verbatim>\<open>select\<close> picks one of them.
  The result says whether the drain was complete, and how long it took.\<close>

function drain_wait :: "(nat \<Rightarrow> nat) \<Rightarrow> (nat \<Rightarrow> bool) \<Rightarrow> nat \<Rightarrow> nat \<Rightarrow> bool \<times> nat" where
  "drain_wait looks pick budget k =
    (if looks k = 0 then (True, 0)
     else if budget < 50 \<or> budget = 50 \<and> pick k then (False, budget)
     else map_prod id ((+) 50) (drain_wait looks pick (budget - 50) (k + 1)))"
  by pat_completeness auto
termination
  by (relation "measure (\<lambda>(looks, pick, budget, k). budget)") auto

declare drain_wait.simps [simp del]

lemma drain_wait_time:
  "snd (drain_wait looks pick budget k) \<le> budget \<and>
   (\<not> fst (drain_wait looks pick budget k) \<longrightarrow> snd (drain_wait looks pick budget k) = budget)"
proof (induction looks pick budget k rule: drain_wait.induct)
  case (1 looks pick budget k)
  then show ?case by (subst (1 2 3) drain_wait.simps) auto
qed

text \<open>The drain ends at the first look that finds no session, if it comes in time.\<close>

lemma drain_wait_ends:
  assumes "looks (k + j) = 0" "\<forall>i < j. looks (k + i) \<noteq> 0" "50 * j < budget"
  shows "drain_wait looks pick budget k = (True, 50 * j)"
  using assms
proof (induction j arbitrary: budget k)
  case 0
  then show ?case by (simp add: drain_wait.simps[of looks pick budget k])
next
  case (Suc j)
  have "\<forall>i < j. looks (Suc k + i) \<noteq> 0" using Suc.prems(2) by (metis Suc_less_eq add_Suc_shift)
  then have "drain_wait looks pick (budget - 50) (k + 1) = (True, 50 * j)"
    using Suc.IH[of "k + 1" "budget - 50"] Suc.prems by simp
  moreover have "looks k \<noteq> 0" using Suc.prems(2) by (metis add_0_right zero_less_Suc)
  ultimately show ?case using Suc.prems(3) by (subst drain_wait.simps) simp
qed

end
