(* ===== verification/Dial_Race.thy ===== *)
theory Dial_Race
  imports Forwarder
begin

text \<open>
  How \<^verbatim>\<open>Forwarder.Dial\<close> waits for its INVITE: the factory of \<^verbatim>\<open>sip/digest.go\<close> sends it and
  waits for the answer in a goroutine, and a watchdog gives up 200 milliseconds after
  the ring time-out, whatever the SIP stack does.  What the goroutine still does
  after that, it does behind the back of the caller.  Times are nanoseconds.
\<close>

section \<open>The factory\<close>

text \<open>The INVITE as \<^verbatim>\<open>sipgoDialFactory.Dial\<close> hands it to the dialog cache; \<open>show_uri\<close> is the
  library's rendering of a URI and \<open>tag\<close> the random From tag.\<close>

record sip_invite =
  si_recipient :: sip_uri
  si_fromDisplay :: string
  si_from :: sip_uri
  si_fromTag :: string
  si_to :: sip_uri
  si_headers :: "(string \<times> string) list"
  si_body :: string

definition factory_invite :: "(sip_uri \<Rightarrow> string) \<Rightarrow> string \<Rightarrow> sip_uri \<Rightarrow> sip_uri \<Rightarrow> string \<Rightarrow> sip_uri option \<Rightarrow> string \<Rightarrow> sip_invite" where
  "factory_invite show_uri tag recipient from displayName ppi body =
    \<lparr> si_recipient = recipient, si_fromDisplay = displayName, si_from = from, si_fromTag = tag, si_to = recipient,
      si_headers = (''Content-Type'', ''application/sdp'') #
        (case ppi of None \<Rightarrow> [] | Some u \<Rightarrow> [(''P-Preferred-Identity'', ''<'' @ show_uri u @ ''>'')]),
      si_body = body \<rparr>"

text \<open>The result: no dialog when the INVITE cannot be sent, and one to close in every other
  case, also when the answer is an error.\<close>

definition factory_dial :: "invite_end option \<Rightarrow> invite_end \<Rightarrow> invite_end \<times> bool" where
  "factory_dial invite_err waited = (case invite_err of Some e \<Rightarrow> (e, False) | None \<Rightarrow> (waited, True))"

section \<open>The race\<close>

text \<open>When the factory returns, if it does, and with what; the responses that its hook
  sees, with their times; and which way a tie goes.\<close>

record dial_race =
  rc_at :: "int option"
  rc_result :: "invite_end \<times> bool"
  rc_responses :: "(int \<times> int) list"
  rc_tie :: bool

definition ringTimeout :: "fwd_cfg \<Rightarrow> sip_dial_opts \<Rightarrow> int" where
  "ringTimeout cfg opts = (if so_Timeout opts \<le> 0 then i64 (fc_DialRingTimeoutS cfg * 1000000000) else so_Timeout opts)"

definition watchdog_at :: "fwd_cfg \<Rightarrow> sip_dial_opts \<Rightarrow> int" where
  "watchdog_at cfg opts = i64 (ringTimeout cfg opts + 200000000)"

definition factory_wins :: "fwd_cfg \<Rightarrow> sip_dial_opts \<Rightarrow> dial_race \<Rightarrow> bool" where
  "factory_wins cfg opts rc =
    (case rc_at rc of None \<Rightarrow> False | Some t \<Rightarrow> t < watchdog_at cfg opts \<or> t = watchdog_at cfg opts \<and> rc_tie rc)"

text \<open>What \<^const>\<open>Dial\<close> sees of the race, and how long it waits.\<close>

definition race_world :: "fwd_cfg \<Rightarrow> sip_dial_opts \<Rightarrow> dial_race \<Rightarrow> dial_world \<Rightarrow> dial_world" where
  "race_world cfg opts rc w =
    (if factory_wins cfg opts rc then
       w\<lparr> dw_responses := map snd (rc_responses rc), dw_end := fst (rc_result rc), dw_hasClient := snd (rc_result rc) \<rparr>
     else
       w\<lparr> dw_responses := map snd (filter (\<lambda>(t, c). t \<le> watchdog_at cfg opts) (rc_responses rc)), dw_end := RingTimeout,
          dw_hasClient := False \<rparr>)"

definition invite_wait :: "fwd_cfg \<Rightarrow> sip_dial_opts \<Rightarrow> dial_race \<Rightarrow> int" where
  "invite_wait cfg opts rc =
    (if factory_wins cfg opts rc then the (rc_at rc) else watchdog_at cfg opts)"

fun has_dialog :: "invite_end \<times> bool \<Rightarrow> bool" where
  "has_dialog (Accepted x, c) = True"
| "has_dialog (_, c) = c"

text \<open>What is left of the goroutine when the watchdog has won: its hook goes on, with the
  same guard against repeated ringing, and the reaper closes the dialog it returns,
  if it returns.\<close>

definition rung :: "int list \<Rightarrow> bool" where
  "rung cs \<longleftrightarrow> 180 \<in> set cs \<or> 183 \<in> set cs"

definition straggle :: "fwd_env \<Rightarrow> fwd_cfg \<Rightarrow> dial_ctx \<Rightarrow> dial_race \<Rightarrow> fwd \<Rightarrow> fwd" where
  "straggle env cfg d rc f =
    (let early = map snd (filter (\<lambda>(t, c). t \<le> watchdog_at cfg (dc_opts d)) (rc_responses rc));
         late = map snd (filter (\<lambda>(t, c). \<not> t \<le> watchdog_at cfg (dc_opts d)) (rc_responses rc));
         f1 = on_responses env cfg d (rung early) late f
     in if rc_at rc \<noteq> None \<and> has_dialog (rc_result rc) then fw_do DialogClosed f1 else f1)"

text \<open>The result and the state at the return of \<^verbatim>\<open>Dial\<close>, and the state once the goroutine is
  over.  The goroutine exists only if an INVITE was sent.\<close>

definition sent_invite :: "fwd \<Rightarrow> fwd \<Rightarrow> bool" where
  "sent_invite f f1 \<longleftrightarrow> list_ex is_invite (drop (length (core f)) (core f1))"

definition DialRaced :: "fwd_env \<Rightarrow> fwd_cfg \<Rightarrow> nat \<Rightarrow> dial_ctx \<Rightarrow> dial_race \<Rightarrow> dial_world \<Rightarrow> fwd \<Rightarrow>
    ((dial_result \<times> string option) \<times> fwd \<times> fwd) option" where
  "DialRaced env cfg now d rc w f =
    (case Dial env cfg now d (race_world cfg (dc_opts d) rc w) f of
       None \<Rightarrow> None
     | Some (x, f1) \<Rightarrow>
        Some (x, f1, if sent_invite f f1 \<and> \<not> factory_wins cfg (dc_opts d) rc then straggle env cfg d rc f1 else f1))"

section \<open>Every dialog is closed once\<close>

abbreviation closed :: "fwd \<Rightarrow> nat" where
  "closed f \<equiv> length (filter ((=) DialogClosed) (core f))"

lemma closed_recordFailure: "closed (snd (recordFailure env cfg d err r f)) = closed f"
  by (simp add: recordFailure_def Let_def)

lemma closed_fail_dial: "fail_dial env cfg d err r f = Some (x, f') \<Longrightarrow> closed f' = closed f"
  using closed_recordFailure[of env cfg d err r f] by (auto simp: fail_dial_def split: prod.splits)

lemma closed_dial_answered:
  assumes "dial_answered env cfg d w l body r f = Some (x, f')" "failing r" "r_Status r = ''''"
  shows "closed f' = closed f + 1"
proof -
  obtain r' e' where x: "x = (r', e')" by fastforce
  show ?thesis using dial_answered_core[OF assms(1)[unfolded x] assms(2,3)] by auto
qed

lemma closed_deferred:
  assumes "map_option (map_prod id (fw_do DialogClosed)) y = Some (x, f')" "\<And>f''. y = Some (x, f'') \<Longrightarrow> closed f'' = n"
  shows "closed f' = n + 1"
  using assms by (cases y) auto

lemma closed_invite_outcome:
  assumes "invite_outcome env cfg d w l r0 f = Some (x, f')" "failing r0" "r_Status r0 = ''''"
  shows "closed f' = closed f + (if has_dialog (dw_end w, dw_hasClient w) then 1 else 0)"
proof -
  have early: "closed f' = closed f + (if dw_hasClient w then 1 else 0)"
    if "close_client w (fail_dial env cfg d err q f) = Some (x, f')" for err q
    using that closed_deferred[OF _ closed_fail_dial] closed_fail_dial by (auto simp: close_client_def split: if_splits)
  show ?thesis
  proof (cases "dw_end w")
    case (Accepted a)
    show ?thesis
    proof (cases a)
      case None
      then have "map_option (map_prod id (fw_do DialogClosed)) (fail_dial env cfg d
          ''forwarder: dial succeeded but final response missing'' (set_status ''failed'' ''error'' r0) f) = Some (x, f')"
        using assms(1) Accepted by (simp add: invite_outcome_def)
      from closed_deferred[OF this closed_fail_dial] show ?thesis by (simp add: Accepted)
    next
      case (Some crb)
      obtain code reason body where crb: "crb = (code, reason, body)" by (cases crb)
      show ?thesis
      proof (cases "code = 200")
        case True
        have "failing (r0\<lparr> r_SIPFinalCode := code \<rparr>)" "r_Status (r0\<lparr> r_SIPFinalCode := code \<rparr>) = ''''"
          using assms(2,3) by (simp_all add: failing_def)
        moreover have "dial_answered env cfg d w l body (r0\<lparr> r_SIPFinalCode := code \<rparr>) f = Some (x, f')"
          using assms(1) Accepted Some crb True by (simp add: invite_outcome_def Let_def)
        ultimately show ?thesis using closed_dial_answered by (simp add: Accepted)
      next
        case False
        then have "map_option (map_prod id (fw_do DialogClosed)) (fail_dial env cfg d ''forwarder: unexpected non-2xx final''
            (set_status ''failed'' ''error'' (r0\<lparr> r_SIPFinalCode := code \<rparr>)) f) = Some (x, f')"
          using assms(1) Accepted Some crb by (simp add: invite_outcome_def Let_def)
        from closed_deferred[OF this closed_fail_dial] show ?thesis by (simp add: Accepted)
      qed
    qed
  qed (use assms(1) early in \<open>simp_all add: invite_outcome_def\<close>)
qed

lemma invite_outcome_extends:
  assumes "invite_outcome env cfg d w l r0 f = Some (x, f')" "failing r0" "r_Status r0 = ''''"
  shows "\<exists>ys. core f' = core f @ ys"
proof -
  obtain r e where x: "x = (r, e)" by fastforce
  have "failing (r0\<lparr> r_SIPFinalCode := code \<rparr>)" "r_Status (r0\<lparr> r_SIPFinalCode := code \<rparr>) = ''''" for code
    using assms(2,3) by (simp_all add: failing_def)
  with invite_outcome_cases[OF assms(1)[unfolded x]] show ?thesis
    using fail_dial_core dial_answered_core by (elim disjE exE conjE) fastforce+
qed

text \<open>A dial either gives up before an INVITE, and has no dialog, or goes through
  \<^const>\<open>invite_outcome\<close>.\<close>

lemma Dial_via_outcome:
  assumes "Dial env cfg now d w f = Some (x, f')"
  shows "(\<not> sent_invite f f' \<and> closed f' = closed f) \<or>
    (sent_invite f f' \<and> (\<exists>l r0 f2. invite_outcome env cfg d w l r0 f2 = Some (x, f') \<and> failing r0 \<and> r_Status r0 = '''' \<and>
       closed f2 = closed f))"
proof -
  define r0 where "r0 = \<lparr> r_Status = '''', r_Reason = '''', r_DialCallSid = dc_dialCallSid d, r_Duration = 0, r_SIPFinalCode = 0,
               r_DialedTarget = normalizeTarget (dc_target d) \<rparr>"
  have r0: "failing r0" "r_Status r0 = ''''" by (simp_all add: failing_def r0_def)
  obtain blocked g where cd: "CheckDial now (fw_guard f) (dc_callerSid d) (dc_target d) = (blocked, g)" by fastforce
  obtain r e where x: "x = (r, e)" by fastforce
  have core: "closed h' = closed h \<and> \<not> sent_invite f h'" if "fail_dial env cfg d err r0 h = Some (x, h')" "core h = core f @ [Attempt]" for err h h'
    using fail_dial_core[OF that(1)[unfolded x] r0(1)] that closed_fail_dial[OF that(1)] by (auto simp: sent_invite_def)
  show ?thesis
  proof (cases blocked)
    case (Some ge)
    then show ?thesis using assms cd by (auto simp: Dial_def sent_invite_def Let_def)
  next
    case None
    define f1 where "f1 = emitDialEvent env cfg d ''initiated'' ''queued'' (fw_do Attempt (f\<lparr> fw_guard := g \<rparr>))"
    have c1: "core f1 = core f @ [Attempt]" by (simp add: f1_def)
    show ?thesis
    proof (cases "\<exists>err. fail_dial env cfg d err r0 f1 = Some (x, f')")
      case True
      then show ?thesis using core[OF _ c1] c1 by auto
    next
      case False
      then obtain callerID l offer port where pre: "CalleeLeg (fw_session f1) = Some l"
          "resolveCallerID (so_CallerID (dc_opts d)) (so_CallerFrom (dc_opts d)) (fc_DialDefaultCallerID cfg) (fc_SIPUser cfg) = Some callerID"
          "BuildSDPOffer (fe_sdp env) l = Inr (offer, port)"
        using assms cd None unfolding Dial_def r0_def[symmetric]
        by (auto simp: Let_def f1_def[symmetric] split: option.splits sum.splits prod.splits)
      define f2 where "f2 = on_responses env cfg d False (dw_responses w) (fw_do (invite_of cfg d callerID offer) f1)"
      have iv: "is_invite (invite_of cfg d callerID offer)" "is_core (invite_of cfg d callerID offer)"
        by (auto simp: invite_of_def Let_def)
      then have c2: "core f2 = core f @ [Attempt, invite_of cfg d callerID offer]" by (simp add: f2_def c1)
      have D: "invite_outcome env cfg d w l r0 f2 = Some (x, f')"
        using assms cd None pre by (simp add: Dial_def r0_def Let_def f1_def f2_def)
      obtain ys where "core f' = core f2 @ ys" using invite_outcome_extends[OF D r0] by blast
      then have "sent_invite f f'" using c2 iv(1) by (simp add: sent_invite_def)
      moreover have "closed f2 = closed f" using iv c2 by (auto elim: is_invite.elims)
      ultimately show ?thesis using D r0 by blast
    qed
  qed
qed

lemma closed_Dial:
  assumes "Dial env cfg now d w f = Some (x, f')"
  shows "closed f' = closed f + (if sent_invite f f' \<and> has_dialog (dw_end w, dw_hasClient w) then 1 else 0)"
  using Dial_via_outcome[OF assms] closed_invite_outcome by fastforce

lemma invite_timeout:
  assumes "invite_outcome env cfg d w l r0 f = Some ((r, e), f')" "dw_end w = RingTimeout" "\<not> dw_hasClient w"
  shows "r_Status r = ''no-answer'' \<and> r_Reason r = ''no_answer'' \<and> e = Some ''forwarder: ring timeout''"
  using assms
  by (auto simp: invite_outcome_def close_client_def fail_dial_def recordFailure_def set_status_def Let_def)

lemma core_straggle:
  "core (straggle env cfg d rc f) = core f @ (if rc_at rc \<noteq> None \<and> has_dialog (rc_result rc) then [DialogClosed] else [])"
  by (simp add: straggle_def Let_def)

lemma closed_snoc: "core f' = core f @ (if b then [DialogClosed] else []) \<Longrightarrow> closed f' = closed f + (if b then 1 else 0)"
  by simp


text \<open>A late 200: the dialog is answered one second after the watchdog gave up.\<close>

definition demo_late :: dial_race where
  "demo_late = \<lparr> rc_at = Some 31200000000, rc_result = (Accepted (Some (200, ''OK'', ''192.0.2.9'')), True),
     rc_responses = [(100, 100), (31000000000, 180)], rc_tie = False \<rparr>"

lemma demo_late_run:
  "map_option (\<lambda>((r, e), f1, f2). (sent_invite demo_fwd f1, closed demo_fwd, Ack \<in> set (core f1), Bye \<in> set (core f1)))
     (DialRaced demo_fenv demo_fcfg 100 demo_ctx demo_late demo_talk demo_fwd) = Some (True, 0, False, False)"
  by code_simp


text \<open>The counter of the callee leg does not survive the dial, but a late 180 starts it
  again from zero: the customer gets a second event numbered 0, after the terminal
  one, and the counter stays behind.\<close>

lemma late_ringing_renumbers:
  "map_option (\<lambda>((r, e), f1, f2). (map (\<lambda>c. case c of Callback ev form err \<Rightarrow> (ev, map_of form ''SequenceNumber'') | _ \<Rightarrow> ('''', None))
        (filter (\<lambda>c. case c of Callback ev form err \<Rightarrow> True | _ \<Rightarrow> False) (fw_log f2)),
       fw_legSeqs f1 ''CA2'' = None, fw_legSeqs f2 ''CA2'' = None))
     (DialRaced demo_fenv demo_fcfg 100 (demo_ctx\<lparr> dc_opts := dc_opts demo_ctx\<lparr> so_StatusCallbackEvents := [''initiated'', ''ringing'', ''completed''] \<rparr>\<rparr>)
        demo_late demo_talk demo_fwd) =
   Some ([(''initiated'', Some [''0'']), (''no-answer'', Some [''1'']), (''ringing'', Some [''0''])], True, False)"
  by code_simp

end
