(* ===== verification/Service.thy ===== *)
theory Service
  imports Http_Clients Config Registrar Sip_Handler Rest_Api Web_Ui Background
begin

text \<open>
  The program as a whole, \<^verbatim>\<open>cmd/sipgate-sip-stream-bridge/main.go\<close>: how \<^verbatim>\<open>main\<close> builds the
  parts and hands them to each other, where it gives up, what it serves over HTTP,
  and how it ends; with \<^verbatim>\<open>sip/agent.go\<close> and the constructors \<^verbatim>\<open>NewForwarder\<close>, \<^verbatim>\<open>NewHandler\<close>,
  \<^verbatim>\<open>SetStatusEmission\<close> and \<^verbatim>\<open>SetVoiceClient\<close>.  The SIP stack's constructors and the
  registrar's replies are arguments.
\<close>

section \<open>The SIP agent\<close>

text \<open>The settings that are used as they are read.\<close>

record plain_settings =
  ps_SIPDomain :: string
  ps_SIPRegistrar :: string
  ps_SIPPassword :: string
  ps_HTTPPort :: string

record agent =
  ag_hostname :: string
  ag_userAgent :: string

datatype agent_step = UACreated | UAClosed | ServerCreated | ClientCreated

text \<open>The errors of the three constructors, if any.\<close>

record sipgo_world =
  sg_ua :: "string option"
  sg_server :: "string option"
  sg_client :: "string option"

definition NewAgent :: "sipgo_world \<Rightarrow> plain_settings \<Rightarrow> (string + agent) \<times> agent_step list" where
  "NewAgent w ps =
    (case sg_ua w of
       Some e \<Rightarrow> (Inl (''create sipgo UserAgent: '' @ e), [])
     | None \<Rightarrow>
        (case sg_server w of
           Some e \<Rightarrow> (Inl (''create sipgo Server: '' @ e), [UACreated, UAClosed])
         | None \<Rightarrow>
            (case sg_client w of
               Some e \<Rightarrow> (Inl (''create sipgo Client: '' @ e), [UACreated, ServerCreated, UAClosed])
             | None \<Rightarrow> (Inr \<lparr> ag_hostname = ps_SIPDomain ps, ag_userAgent = ''sipgate-sip-stream-bridge/3.1'' \<rparr>,
                        [UACreated, ServerCreated, ClientCreated]))))"

text \<open>The SIP stack logs to a writer of its own, which hides nothing.\<close>

definition sip_log_writer :: "(string \<Rightarrow> nat \<times> string option) \<Rightarrow> string \<Rightarrow> string \<times> nat \<times> write_error option" where
  "sip_log_writer stdout p = (p, fst (stdout p), map_option ErrUnderlying (snd (stdout p)))"

section \<open>Constructors\<close>

text \<open>The Contact under which the handler and the forwarder are reached.\<close>

definition contact_uri :: "config \<Rightarrow> sip_uri" where
  "contact_uri cfg = \<lparr> u_user = cf_SIPUser cfg, u_host = cf_SDPContactIP cfg, u_port = ListenPort cfg \<rparr>"

text \<open>A forwarder: its configuration, its Contact, and its state for a session on whose
  behalf it dials.\<close>

record forwarder =
  fo_cfg :: fwd_cfg
  fo_contact :: sip_uri
  fo_state :: "call_session \<Rightarrow> fwd"

definition NewForwarder :: "guardrails \<Rightarrow> config \<Rightarrow> plain_settings \<Rightarrow> status_client option \<Rightarrow> string \<Rightarrow> forwarder" where
  "NewForwarder guardrails cfg ps statusWC accountSid =
    \<lparr> fo_cfg = \<lparr> fc_SIPDomain = ps_SIPDomain ps, fc_SIPUser = cf_SIPUser cfg,
        fc_SIPOutboundTargetPort = cf_SIPOutboundTargetPort cfg, fc_DialDefaultCallerID = cf_DialDefaultCallerID cfg,
        fc_DialCallerIDCountryCode = cf_DialCallerIDCountryCode cfg, fc_DialRingTimeoutS = cf_DialRingTimeoutS cfg,
        fc_accountSid = accountSid \<rparr>,
      fo_contact = contact_uri cfg,
      fo_state = (\<lambda>s. \<lparr> fw_guard = guardrails, fw_legSeqs = Map.empty, fw_statusWC = statusWC, fw_session = s, fw_log = [] \<rparr>) \<rparr>"

definition sip_methods :: "string list" where
  "sip_methods = [''INVITE'', ''ACK'', ''BYE'', ''CANCEL'', ''OPTIONS'']"

text \<open>The handler and the methods it registers on the server.\<close>

definition NewHandler :: "call_manager \<Rightarrow> handler \<times> string list" where
  "NewHandler m = (\<lparr> h_manager = m, h_statusWC = None, h_accountSid = '''', h_shutdown = False, h_log = [] \<rparr>, sip_methods)"

definition SetStatusEmission :: "status_client option \<Rightarrow> string \<Rightarrow> handler \<Rightarrow> handler" where
  "SetStatusEmission statusWC accountSid h = h\<lparr> h_statusWC := statusWC, h_accountSid := accountSid \<rparr>"

definition SetVoiceClient :: "voice_service \<Rightarrow> voice_service option \<Rightarrow> voice_service option" where
  "SetVoiceClient vc old = Some vc"

section \<open>main\<close>

datatype boot_event =
    AgentStep agent_step
  | ListenSIP string string
  | OnMethod string
  | Warned string
  | RegisterSent
  | Ready string
  | ListenHTTP string
  | FatalExit string

record service =
  sv_cfg :: config
  sv_accountSid :: string
  sv_handler :: handler
  sv_forwarder :: forwarder
  sv_status :: status_service
  sv_voice :: "voice_service option"
  sv_registrar :: registrar
  sv_urlClient :: http_client
  sv_actionPoster :: http_client

text \<open>What \<^verbatim>\<open>main\<close> meets: the local address, the SIP stack, and the replies to the first
  REGISTER and to its second try with credentials.\<close>

record boot_world =
  bw_detected :: "string option"
  bw_sipgo :: sipgo_world
  bw_first :: sip_result
  bw_second :: sip_result

text \<open>Every logger of the process writes to this writer.\<close>

definition log_writer :: "(string \<Rightarrow> nat \<times> string option) \<Rightarrow> config \<Rightarrow> plain_settings \<Rightarrow> string \<Rightarrow> string \<times> nat \<times> write_error option" where
  "log_writer stdout cfg ps = NewSecretMaskWriter stdout [cf_AuthToken cfg, ps_SIPPassword ps]"

definition auth_warning :: "string \<Rightarrow> boot_event list" where
  "auth_warning tok =
    (if tok = '''' then [Warned ''AUTH_TOKEN unset'']
     else if length tok < 32 then [Warned ''AUTH_TOKEN length below 32''] else [])"

text \<open>The parts, built once the SIP agent listens; before the registration.\<close>

definition build_parts :: "config \<Rightarrow> plain_settings \<Rightarrow> port_pool \<Rightarrow> string \<Rightarrow> service \<times> boot_event list" where
  "build_parts cfg ps pool accountSid =
    (let statusWC = NewStatusClient (cf_AuthToken cfg);
         callManager = NewCallManager pool accountSid True (cf_StatusCallbackDefaultURL cfg)
           (cf_StatusCallbackDefaultMethod cfg) (cf_StatusCallbackDefaultEvents cfg);
         guardrails = NewGuardrails (cf_DialAllowedPrefixes cfg) (cf_DialMaxPerSession cfg) (cf_DialMaxPerMinute cfg);
         forwarder = NewForwarder guardrails cfg ps (Some (ss_state statusWC)) accountSid;
         (handler, methods) = NewHandler callManager;
         voice = (if cf_VoiceURL cfg \<noteq> '''' then
             SetVoiceClient (NewVoiceClient (cf_VoiceURL cfg) (cf_VoiceMethod cfg) (cf_VoiceFallbackURL cfg)
               (cf_VoiceFallbackMethod cfg) (cf_AuthToken cfg) (cf_VoiceTimeoutS cfg)) None
           else None)
     in (\<lparr> sv_cfg = cfg, sv_accountSid = accountSid,
           sv_handler = SetStatusEmission (Some (ss_state statusWC)) accountSid handler,
           sv_forwarder = forwarder, sv_status = statusWC, sv_voice = voice,
           sv_registrar = NewRegistrar (cf_SIPExpires cfg), sv_urlClient = NewClient,
           sv_actionPoster = NewSignedActionPoster (cf_AuthToken cfg) \<rparr>, map OnMethod methods))"

text \<open>The first registration; only when it succeeds is the HTTP server started.\<close>

definition register_and_serve :: "boot_world \<Rightarrow> plain_settings \<Rightarrow> service \<Rightarrow> service option \<times> boot_event list" where
  "register_and_serve w ps sv =
    (case Register (bw_first w) (bw_second w) (sv_registrar sv) of
       (Inl e, r) \<Rightarrow> (None, [RegisterSent, FatalExit ''SIP registration failed''])
     | (Inr expiry, r) \<Rightarrow>
        (Some (sv\<lparr> sv_registrar := r \<rparr>), [RegisterSent, Ready (sv_accountSid sv), ListenHTTP ('':'' @ ps_HTTPPort ps)]))"

text \<open>\<^const>\<open>None\<close> is an exit with status 1, which \<^verbatim>\<open>Fatal\<close> makes without running what is
  deferred.\<close>

definition main :: "boot_world \<Rightarrow> config \<Rightarrow> plain_settings \<Rightarrow> service option \<times> boot_event list" where
  "main w env ps =
    (case Load (bw_detected w) env of
       Inl e \<Rightarrow> (None, [FatalExit e])
     | Inr cfg \<Rightarrow>
        (case NewAgent (bw_sipgo w) ps of
           (Inl e, st) \<Rightarrow> (None, map AgentStep st @ [FatalExit ''failed to create SIP agent''])
         | (Inr ag, st) \<Rightarrow>
            (let evs1 = map AgentStep st @ [ListenSIP ''udp'' (cf_SIPListenAddr cfg), ListenSIP ''tcp'' (cf_SIPListenAddr cfg)] in
             case NewPortPool (cf_RTPPortMin cfg) (cf_RTPPortMax cfg) of
               Inl e \<Rightarrow> (None, evs1 @ [FatalExit ''failed to create RTP port pool''])
             | Inr pool \<Rightarrow>
                (let accountSid = DeriveAccountSid (cf_SIPUser cfg) in
                 if \<not> AccountSidRE accountSid then (None, evs1 @ [FatalExit ''derived AccountSid''])
                 else
                   let (sv, evs2) = build_parts cfg ps pool accountSid;
                       (res, evs3) = register_and_serve w ps sv
                   in (res, evs1 @ auth_warning (cf_AuthToken cfg) @ evs2 @ evs3)))))"

section \<open>What main needs, and what it has built\<close>

lemma NewAgent_ok:
  "(\<exists>ag st. NewAgent w ps = (Inr ag, st)) \<longleftrightarrow> sg_ua w = None \<and> sg_server w = None \<and> sg_client w = None"
  by (auto simp: NewAgent_def split: option.splits)

lemma NewAgent_steps: "NewAgent w ps = (Inr ag, st) \<Longrightarrow> st = [UACreated, ServerCreated, ClientCreated]"
  by (auto simp: NewAgent_def split: option.splits)

text \<open>A failing construction closes the user agent it has opened.\<close>

lemma NewAgent_no_leak:
  "NewAgent w ps = (Inl e, st) \<Longrightarrow> length (filter ((=) UACreated) st) = length (filter ((=) UAClosed) st)"
  by (auto simp: NewAgent_def split: option.splits)

lemma AccountSid_derived: "AccountSidRE (DeriveAccountSid user)"
  by (auto simp: AccountSidRE_def DeriveAccountSid_def has_prefix_def sha256_length hex_encode_lower)

lemma build_parts_simps:
  assumes "build_parts cfg ps pool acc = (sv, evs)"
  shows "evs = map OnMethod sip_methods" "sv_cfg sv = cfg" "sv_accountSid sv = acc"
    "sv_registrar sv = NewRegistrar (cf_SIPExpires cfg)"
    "h_manager (sv_handler sv) = NewCallManager pool acc True (cf_StatusCallbackDefaultURL cfg)
       (cf_StatusCallbackDefaultMethod cfg) (cf_StatusCallbackDefaultEvents cfg)"
    "h_accountSid (sv_handler sv) = acc" "\<not> h_shutdown (sv_handler sv)" "h_log (sv_handler sv) = []"
    "h_statusWC (sv_handler sv) = Some (ss_state (sv_status sv))" "sv_status sv = NewStatusClient (cf_AuthToken cfg)"
    "fw_guard (fo_state (sv_forwarder sv) s) = NewGuardrails (cf_DialAllowedPrefixes cfg) (cf_DialMaxPerSession cfg) (cf_DialMaxPerMinute cfg)"
    "sv_voice sv = None \<longleftrightarrow> cf_VoiceURL cfg = ''''"
  using assms
  by (auto simp: build_parts_def NewHandler_def NewForwarder_def SetStatusEmission_def SetVoiceClient_def Let_def split: if_splits)

lemma Load_pool: "Load d env = Inr cfg \<Longrightarrow> \<exists>pool. NewPortPool (cf_RTPPortMin cfg) (cf_RTPPortMax cfg) = Inr pool"
  using Load_chain[of d env cfg] by (auto simp: check_simps NewPortPool_def split: if_splits)

text \<open>The run of \<^verbatim>\<open>main\<close> that gets to serving, step by step.\<close>

lemma main_served:
  "main w env ps = (Some sv, evs) \<longleftrightarrow>
   (\<exists>cfg ag st pool sv0 r expiry. Load (bw_detected w) env = Inr cfg \<and> NewAgent (bw_sipgo w) ps = (Inr ag, st) \<and>
      NewPortPool (cf_RTPPortMin cfg) (cf_RTPPortMax cfg) = Inr pool \<and>
      build_parts cfg ps pool (DeriveAccountSid (cf_SIPUser cfg)) = (sv0, map OnMethod sip_methods) \<and>
      Register (bw_first w) (bw_second w) (NewRegistrar (cf_SIPExpires cfg)) = (Inr expiry, r) \<and> sv = sv0\<lparr> sv_registrar := r \<rparr> \<and>
      evs = map AgentStep st @ [ListenSIP ''udp'' (cf_SIPListenAddr cfg), ListenSIP ''tcp'' (cf_SIPListenAddr cfg)] @
        auth_warning (cf_AuthToken cfg) @ map OnMethod sip_methods @
        [RegisterSent, Ready (DeriveAccountSid (cf_SIPUser cfg)), ListenHTTP ('':'' @ ps_HTTPPort ps)])"
  (is "?l \<longleftrightarrow> ?r")
proof (cases "Load (bw_detected w) env")
  case (Inr cfg)
  obtain a st where ag: "NewAgent (bw_sipgo w) ps = (a, st)" by fastforce
  obtain pool where pool: "NewPortPool (cf_RTPPortMin cfg) (cf_RTPPortMax cfg) = Inr pool"
    using Load_pool[OF Inr] by blast
  obtain sv0 evs0 where sv0: "build_parts cfg ps pool (DeriveAccountSid (cf_SIPUser cfg)) = (sv0, evs0)" by fastforce
  obtain x r where rg: "Register (bw_first w) (bw_second w) (NewRegistrar (cf_SIPExpires cfg)) = (x, r)" by fastforce
  note parts = build_parts_simps[OF sv0]
  show ?thesis
    by (cases a; cases x) (auto simp: main_def Inr ag pool sv0 rg parts register_and_serve_def AccountSid_derived Let_def)
qed (simp add: main_def)

text \<open>The service starts exactly when its configuration loads, the SIP stack can be
  built and the registrar accepts the registration; no other check of \<^verbatim>\<open>main\<close> can
  fail.  When it does not start, it has neither announced readiness nor served HTTP.\<close>

theorem service_starts:
  "(fst (main w env ps) \<noteq> None \<longleftrightarrow>
     (\<exists>cfg. Load (bw_detected w) env = Inr cfg) \<and> sg_ua (bw_sipgo w) = None \<and> sg_server (bw_sipgo w) = None \<and>
     sg_client (bw_sipgo w) = None \<and> accepted (bw_first w) (bw_second w)) \<and>
   (fst (main w env ps) = None \<longrightarrow> (\<exists>es msg. snd (main w env ps) = es @ [FatalExit msg] \<and>
     (\<forall>e \<in> set es. \<forall>a. e \<noteq> Ready a \<and> e \<noteq> ListenHTTP a)))"
proof (cases "Load (bw_detected w) env")
  case (Inl e)
  then show ?thesis by (simp add: main_def)
next
  case (Inr cfg)
  obtain a st where ag: "NewAgent (bw_sipgo w) ps = (a, st)" by fastforce
  obtain pool where pool: "NewPortPool (cf_RTPPortMin cfg) (cf_RTPPortMax cfg) = Inr pool"
    using Load_pool[OF Inr] by blast
  obtain sv0 evs0 where sv0: "build_parts cfg ps pool (DeriveAccountSid (cf_SIPUser cfg)) = (sv0, evs0)" by fastforce
  note parts = build_parts_simps[OF sv0]
  obtain x r where rg: "Register (bw_first w) (bw_second w) (NewRegistrar (cf_SIPExpires cfg)) = (x, r)" by fastforce
  have acc: "(\<exists>e. x = Inr e) \<longleftrightarrow> accepted (bw_first w) (bw_second w)"
    using rg doRegister_outcome(6) by (fastforce simp: Register_def split: sum.splits prod.splits)
  note ev = main_def Inr ag pool sv0 rg parts register_and_serve_def AccountSid_derived Let_def
  show ?thesis
  proof (cases a)
    case (Inl e)
    then have "\<not> (sg_ua (bw_sipgo w) = None \<and> sg_server (bw_sipgo w) = None \<and> sg_client (bw_sipgo w) = None)"
      using ag NewAgent_ok[of "bw_sipgo w" ps] by auto
    then show ?thesis using Inl by (auto simp: ev)
  next
    case (Inr ag')
    then have "sg_ua (bw_sipgo w) = None \<and> sg_server (bw_sipgo w) = None \<and> sg_client (bw_sipgo w) = None"
      using ag NewAgent_ok[of "bw_sipgo w" ps] by auto
    moreover have "e \<noteq> Ready b \<and> e \<noteq> ListenHTTP b" if "e \<in> set (auth_warning (cf_AuthToken cfg))" for e b
      using that by (auto simp: auth_warning_def split: if_splits)
    ultimately show ?thesis using Inr acc by (cases x) (auto simp: ev)
  qed
qed

text \<open>C17. What a started service is: everything before the registration was done before
  it, and HTTP is served after it; all parts know the same AccountSid, which is
  well-formed; every port of the range is free; the registry is empty and in order,
  so that every INVITE is fresh to the handler; the queues of the callbacks are empty
  under the configured token; the guardrails have the configured limits and no
  history; and the registrar reports that it is registered.  These are the states from
  which the other theorems start.\<close>

theorem started_service:
  assumes "main w env ps = (Some sv, evs)"
  shows "Load (bw_detected w) env = Inr (sv_cfg sv) \<and>
    evs = map AgentStep [UACreated, ServerCreated, ClientCreated] @
      [ListenSIP ''udp'' (cf_SIPListenAddr (sv_cfg sv)), ListenSIP ''tcp'' (cf_SIPListenAddr (sv_cfg sv))] @
      auth_warning (cf_AuthToken (sv_cfg sv)) @ map OnMethod sip_methods @
      [RegisterSent, Ready (sv_accountSid sv), ListenHTTP ('':'' @ ps_HTTPPort ps)] \<and>
    AccountSidRE (sv_accountSid sv) \<and> h_accountSid (sv_handler sv) = sv_accountSid sv \<and>
    cm_accountSid (h_manager (sv_handler sv)) = sv_accountSid sv \<and>
    free_ports (cm_portPool (h_manager (sv_handler sv))) = [cf_RTPPortMin (sv_cfg sv)..cf_RTPPortMax (sv_cfg sv) - 1] \<and>
    reg_inv (rg_init (h_manager (sv_handler sv)) now) \<and> (\<forall>v req. fresh v req (sv_handler sv)) \<and> \<not> h_shutdown (sv_handler sv) \<and>
    h_statusWC (sv_handler sv) = Some (rs_client (sc_init (cf_AuthToken (sv_cfg sv)))) \<and>
    fw_guard (fo_state (sv_forwarder sv) s) = NewGuardrails (cf_DialAllowedPrefixes (sv_cfg sv))
      (cf_DialMaxPerSession (sv_cfg sv)) (cf_DialMaxPerMinute (sv_cfg sv)) \<and>
    rr_registered (sv_registrar sv) \<and> rr_regStatus (sv_registrar sv) = 1"
proof -
  obtain cfg ag st pool sv0 r expiry where L: "Load (bw_detected w) env = Inr cfg" "NewAgent (bw_sipgo w) ps = (Inr ag, st)"
    "NewPortPool (cf_RTPPortMin cfg) (cf_RTPPortMax cfg) = Inr pool"
    "build_parts cfg ps pool (DeriveAccountSid (cf_SIPUser cfg)) = (sv0, map OnMethod sip_methods)"
    "Register (bw_first w) (bw_second w) (NewRegistrar (cf_SIPExpires cfg)) = (Inr expiry, r)" "sv = sv0\<lparr> sv_registrar := r \<rparr>"
    "evs = map AgentStep st @ [ListenSIP ''udp'' (cf_SIPListenAddr cfg), ListenSIP ''tcp'' (cf_SIPListenAddr cfg)] @
        auth_warning (cf_AuthToken cfg) @ map OnMethod sip_methods @
        [RegisterSent, Ready (DeriveAccountSid (cf_SIPUser cfg)), ListenHTTP ('':'' @ ps_HTTPPort ps)]"
    using assms[unfolded main_served] by blast
  note parts = build_parts_simps[OF L(4)]
  have ports: "free_ports pool = [cf_RTPPortMin cfg..cf_RTPPortMax cfg - 1]"
    using L(3) by (auto simp: NewPortPool_def free_ports_def split: if_splits)
  have st: "st = [UACreated, ServerCreated, ClientCreated]" by (rule NewAgent_steps[OF L(2)])
  have reg: "rr_registered r \<and> rr_regStatus r = 1"
    using L(5) by (auto simp: Register_def doRegister_def set_registered_def Let_def split: sum.splits if_splits)
  have fresh: "fresh v req (sv_handler sv0)" for v req
    by (simp add: fresh_def parts(5,8) NewCallManager_def)
  have wc: "ss_state (NewStatusClient tok) = rs_client (sc_init tok)" for tok
    by (simp add: NewStatusClient_def sc_init_def Let_def)
  have mgr: "h_manager (sv_handler sv) = NewCallManager pool (sv_accountSid sv) True (cf_StatusCallbackDefaultURL cfg)
      (cf_StatusCallbackDefaultMethod cfg) (cf_StatusCallbackDefaultEvents cfg)"
    by (simp add: L(6) parts(3,5))
  have pool: "cm_portPool (h_manager (sv_handler sv)) = pool" "cm_accountSid (h_manager (sv_handler sv)) = sv_accountSid sv"
    unfolding mgr by (simp_all add: NewCallManager_def)
  have "reg_inv (rg_init (h_manager (sv_handler sv)) now)" unfolding mgr by (rule reg_inv_init)
  moreover have "sv_cfg sv = cfg" "sv_accountSid sv = DeriveAccountSid (cf_SIPUser cfg)" "sv_registrar sv = r"
    "h_accountSid (sv_handler sv) = sv_accountSid sv" "\<not> h_shutdown (sv_handler sv)"
    "h_statusWC (sv_handler sv) = Some (rs_client (sc_init (cf_AuthToken cfg)))" "sv_handler sv = sv_handler sv0"
    "fw_guard (fo_state (sv_forwarder sv) s) =
      NewGuardrails (cf_DialAllowedPrefixes cfg) (cf_DialMaxPerSession cfg) (cf_DialMaxPerMinute cfg)"
    by (simp_all add: L(6) parts wc)
  ultimately show ?thesis
    using L(1) reg fresh L(7)[unfolded st] AccountSid_derived pool ports by (simp only: simp_thms)
qed

definition demo_plain :: plain_settings where
  "demo_plain = \<lparr> ps_SIPDomain = ''sip.example.net'', ps_SIPRegistrar = ''sip.example.net'', ps_SIPPassword = ''p'', ps_HTTPPort = ''9090'' \<rparr>"

definition demo_boot :: boot_world where
  "demo_boot = \<lparr> bw_detected = Some ''192.0.2.1'', bw_sipgo = \<lparr> sg_ua = None, sg_server = None, sg_client = None \<rparr>,
     bw_first = reply 401 None, bw_second = reply 200 None \<rparr>"

lemma demo_started: "\<exists>sv evs. main demo_boot demo_config demo_plain = (Some sv, evs) \<and> sv_cfg sv = demo_loaded"
proof -
  obtain pool where pool: "NewPortPool (cf_RTPPortMin demo_loaded) (cf_RTPPortMax demo_loaded) = Inr pool"
    using Load_pool[OF demo_load] by blast
  obtain ag st where ag: "NewAgent (bw_sipgo demo_boot) demo_plain = (Inr ag, st)"
    using NewAgent_ok[of "bw_sipgo demo_boot" demo_plain] by (auto simp: demo_boot_def)
  obtain sv0 evs0 where b: "build_parts demo_loaded demo_plain pool (DeriveAccountSid (cf_SIPUser demo_loaded)) = (sv0, evs0)"
    by fastforce
  obtain expiry r where rg: "Register (bw_first demo_boot) (bw_second demo_boot) (NewRegistrar (cf_SIPExpires demo_loaded)) = (Inr expiry, r)"
    by (simp add: demo_boot_def Register_def doRegister_def with_digest_def reply_def challenged_def Let_def)
  have "Load (bw_detected demo_boot) demo_config = Inr demo_loaded" using demo_load by (simp add: demo_boot_def)
  with pool ag b rg build_parts_simps(1,2)[OF b] show ?thesis
    by (intro exI[of _ "sv0\<lparr> sv_registrar := r \<rparr>"] exI conjI, subst main_served) (fastforce, simp)
qed

theorem started_service_witness:
  "\<exists>sv evs. main demo_boot demo_config demo_plain = (Some sv, evs) \<and> rr_registered (sv_registrar sv) \<and>
    AccountSidRE (sv_accountSid sv) \<and> fresh demo_world demo_invite (sv_handler sv) \<and>
    take 2 (free_ports (cm_portPool (h_manager (sv_handler sv)))) = [10000, 10001]"
proof -
  obtain sv evs where m: "main demo_boot demo_config demo_plain = (Some sv, evs)" "sv_cfg sv = demo_loaded"
    using demo_started by blast
  have "take 2 [10000..10098 :: int] = [10000, 10001]" by (simp add: upto.simps)
  then have "take 2 [cf_RTPPortMin demo_loaded..cf_RTPPortMax demo_loaded - 1] = [10000, 10001]"
    by (simp add: demo_loaded_def demo_config_def)
  with started_service[OF m(1)] m show ?thesis by auto
qed

theorem service_starts_witness:
  "\<exists>es msg. main (demo_boot\<lparr> bw_second := reply 403 None \<rparr>) demo_config demo_plain = (None, es @ [FatalExit msg])"
proof -
  let ?w = "demo_boot\<lparr> bw_second := reply 403 None \<rparr>"
  have "\<not> accepted (bw_first ?w) (bw_second ?w)"
    by (simp add: accepted_def with_digest_def demo_boot_def reply_def challenged_def)
  then show ?thesis using service_starts[of ?w demo_config demo_plain] by (metis prod.collapse)
qed

text \<open>Neither credential is in what the service logs, whatever that is.\<close>

lemma log_hides_credentials:
  assumes "CHR ''*'' \<notin> set (cf_AuthToken cfg)" "CHR ''*'' \<notin> set (ps_SIPPassword ps)" "s \<in> {cf_AuthToken cfg, ps_SIPPassword ps}" "s \<noteq> ''''"
  shows "\<not> contains_str (fst (log_writer stdout cfg ps line)) s"
  unfolding log_writer_def using assms by (intro mask_writer_hides) auto

section \<open>What is served over HTTP\<close>

text \<open>The routes of \<^verbatim>\<open>main\<close>; the router's matching of paths is outside.\<close>

datatype endpoint =
    HealthEndpoint
  | MetricsEndpoint
  | UiEndpoint string
  | RootEndpoint
  | ApiEndpoint api_route

datatype web_reply =
    HealthReply health
  | MetricsReply
  | UiReply ui_reply
  | RedirectReply int string
  | ApiReply http_out
  | Recovered int

definition api_cfg_of :: "service \<Rightarrow> api_cfg" where
  "api_cfg_of sv = \<lparr> ac_accountSid = sv_accountSid sv, ac_authToken = cf_AuthToken (sv_cfg sv) \<rparr>"

definition sv_manager :: "service \<Rightarrow> call_manager" where
  "sv_manager sv = h_manager (sv_handler sv)"

definition with_manager :: "call_manager \<Rightarrow> service \<Rightarrow> service" where
  "with_manager m sv = sv\<lparr> sv_handler := (sv_handler sv)\<lparr> h_manager := m \<rparr> \<rparr>"

text \<open>\<^verbatim>\<open>Recoverer\<close> turns a panic into a 500.\<close>

definition serve :: "api_env \<Rightarrow> ui_handler \<Rightarrow> endpoint \<Rightarrow> http_in \<Rightarrow> service \<Rightarrow> web_reply \<times> service \<times> rest_effect list" where
  "serve env files ep req sv =
    (case ep of
       HealthEndpoint \<Rightarrow>
         (HealthReply (newHealthHandler (rr_registered (sv_registrar sv)) (sv_manager sv) (sv_accountSid sv)), sv, [])
     | MetricsEndpoint \<Rightarrow> (MetricsReply, sv, [])
     | UiEndpoint path \<Rightarrow> (UiReply (handlerFor files (path, '''') Map.empty), sv, [])
     | RootEndpoint \<Rightarrow> (RedirectReply 302 ''/ui/'', sv, [])
     | ApiEndpoint rt \<Rightarrow>
        (case Mount env (api_cfg_of sv) rt req \<lparr> rs_manager = sv_manager sv, rs_effects = [] \<rparr> of
           None \<Rightarrow> (Recovered 500, sv, [])
         | Some (out, s') \<Rightarrow> (ApiReply out, with_manager (rs_manager s') sv, rs_effects s')))"

lemma with_manager_same [simp]: "with_manager (sv_manager sv) sv = sv"
  by (simp add: with_manager_def sv_manager_def)

lemma open_auth: "BasicAuth acc [] (Some (acc, [])) acc = None"
  by (simp add: BasicAuth_None)

lemma serve_guarded:
  assumes "serve env files ep req sv = (r, sv', es)"
  shows "sv' \<noteq> sv \<Longrightarrow> (\<exists>a c. ep = ApiEndpoint (ModifyCall a c)) \<and> hi_auth req = Some (sv_accountSid sv, cf_AuthToken (sv_cfg sv))"
    and "es \<noteq> [] \<Longrightarrow> hi_auth req = Some (sv_accountSid sv, cf_AuthToken (sv_cfg sv))"
proof -
  have api: "hi_auth req = Some (sv_accountSid sv, cf_AuthToken (sv_cfg sv)) \<and> (sv' \<noteq> sv \<longrightarrow> (\<exists>a c. rt = ModifyCall a c)) \<or>
      sv' = sv \<and> es = []" if "ep = ApiEndpoint rt" for rt
  proof (cases "Mount env (api_cfg_of sv) rt req \<lparr> rs_manager = sv_manager sv, rs_effects = [] \<rparr>")
    case None
    then show ?thesis using assms that by (simp add: serve_def)
  next
    case (Some os)
    obtain out s' where os: "os = (out, s')" by fastforce
    then have r: "sv' = with_manager (rs_manager s') sv" "es = rs_effects s'" using assms that Some by (simp_all add: serve_def)
    from Some[unfolded os] show ?thesis
    proof (cases rule: Mount_cases)
      case (handled o1)
      have "(\<exists>a c. rt = ModifyCall a c) \<or> rs_manager s' = sv_manager sv" using handle_route_reads[OF handled(4)] by auto
      then show ?thesis using r handled(2) by (auto simp: api_cfg_of_def)
    qed (simp_all add: r)
  qed
  then show "sv' \<noteq> sv \<Longrightarrow> (\<exists>a c. ep = ApiEndpoint (ModifyCall a c)) \<and> hi_auth req = Some (sv_accountSid sv, cf_AuthToken (sv_cfg sv))"
    and "es \<noteq> [] \<Longrightarrow> hi_auth req = Some (sv_accountSid sv, cf_AuthToken (sv_cfg sv))"
    using assms by (cases ep; fastforce simp: serve_def)+
qed

text \<open>Any sequence of requests in which no request has the credentials is answered from the
  state in which it finds the service, and changes and counts nothing.\<close>

fun serve_all :: "api_env \<Rightarrow> ui_handler \<Rightarrow> (endpoint \<times> http_in) list \<Rightarrow> service \<Rightarrow> web_reply list \<times> service \<times> rest_effect list" where
  "serve_all env files [] sv = ([], sv, [])"
| "serve_all env files ((ep, req) # reqs) sv =
    (let (r, sv1, es) = serve env files ep req sv; (rs, sv2, es') = serve_all env files reqs sv1
     in (r # rs, sv2, es @ es'))"

lemma strangers_change_nothing:
  assumes "\<forall>(ep, req) \<in> set reqs. hi_auth req \<noteq> Some (sv_accountSid sv, cf_AuthToken (sv_cfg sv))"
  shows "serve_all env files reqs sv = (map (\<lambda>(ep, req). fst (serve env files ep req sv)) reqs, sv, [])"
  using assms
proof (induction reqs)
  case (Cons x reqs)
  obtain ep req where x: "x = (ep, req)" by fastforce
  obtain r sv1 es where s: "serve env files ep req sv = (r, sv1, es)" by (metis prod_cases3)
  have "sv1 = sv" "es = []" using serve_guarded[OF s] Cons.prems x by auto
  then show ?case using Cons x s by simp
qed simp

text \<open>C13. Over all of its HTTP surface the service changes, and counts anything against a
  call, only for an authenticated request to the REST API, and changes calls only for a
  modification; everything else reads.  The password is the configured token, also when
  none is configured: then the AccountSid, which \<^verbatim>\<open>/health\<close> tells everybody, and an empty
  password are let through to the handlers, although \<^verbatim>\<open>main\<close> warns that every request
  will be refused.\<close>

theorem http_surface:
  assumes "serve env files ep req sv = (r, sv', es)"
  shows "(sv' \<noteq> sv \<longrightarrow> (\<exists>a c. ep = ApiEndpoint (ModifyCall a c)) \<and>
      hi_auth req = Some (sv_accountSid sv, cf_AuthToken (sv_cfg sv))) \<and>
    (es \<noteq> [] \<longrightarrow> hi_auth req = Some (sv_accountSid sv, cf_AuthToken (sv_cfg sv))) \<and>
    (\<forall>h rt. r = HealthReply h \<and> cf_AuthToken (sv_cfg sv) = '''' \<and> hi_auth req' = Some (hr_account_sid h, '''') \<and>
       hi_contentLength req' \<le> 65536 \<and> route_sid rt = hr_account_sid h \<longrightarrow>
       auth_warning (cf_AuthToken (sv_cfg sv)) = [Warned ''AUTH_TOKEN unset''] \<and>
       (case handle_route env (api_cfg_of sv) rt req' \<lparr> rs_manager = sv_manager sv, rs_effects = [] \<rparr> of
          None \<Rightarrow> serve env files (ApiEndpoint rt) req' sv = (Recovered 500, sv, [])
        | Some (out, s') \<Rightarrow> serve env files (ApiEndpoint rt) req' sv =
            (ApiReply (out\<lparr> ho_headers := SecurityHeaders @ ho_headers out \<rparr>), with_manager (rs_manager s') sv, rs_effects s')))"
proof (intro conjI)
  show "sv' \<noteq> sv \<longrightarrow> (\<exists>a c. ep = ApiEndpoint (ModifyCall a c)) \<and> hi_auth req = Some (sv_accountSid sv, cf_AuthToken (sv_cfg sv))"
    "es \<noteq> [] \<longrightarrow> hi_auth req = Some (sv_accountSid sv, cf_AuthToken (sv_cfg sv))"
    using serve_guarded[OF assms] by blast+
  show "\<forall>h rt. r = HealthReply h \<and> cf_AuthToken (sv_cfg sv) = '''' \<and> hi_auth req' = Some (hr_account_sid h, '''') \<and>
       hi_contentLength req' \<le> 65536 \<and> route_sid rt = hr_account_sid h \<longrightarrow>
       auth_warning (cf_AuthToken (sv_cfg sv)) = [Warned ''AUTH_TOKEN unset''] \<and>
       (case handle_route env (api_cfg_of sv) rt req' \<lparr> rs_manager = sv_manager sv, rs_effects = [] \<rparr> of
          None \<Rightarrow> serve env files (ApiEndpoint rt) req' sv = (Recovered 500, sv, [])
        | Some (out, s') \<Rightarrow> serve env files (ApiEndpoint rt) req' sv =
            (ApiReply (out\<lparr> ho_headers := SecurityHeaders @ ho_headers out \<rparr>), with_manager (rs_manager s') sv, rs_effects s'))"
    using assms
    by (cases ep) (auto simp: serve_def newHealthHandler_def auth_warning_def Mount_def MaxBytesReader_def maxBody_def open_auth
        api_cfg_of_def split: option.splits prod.splits)
qed

text \<open>A service without a token, and a request with what \<^verbatim>\<open>/health\<close> tells.\<close>

definition demo_open :: service where
  "demo_open = (the (fst (main demo_boot demo_config demo_plain)))\<lparr> sv_cfg := demo_loaded\<lparr> cf_AuthToken := '''' \<rparr> \<rparr>"

definition demo_guess :: "health \<Rightarrow> http_in" where
  "demo_guess h = (demo_post '''')\<lparr> hi_auth := Some (hr_account_sid h, '''') \<rparr>"

theorem http_surface_witness:
  "\<exists>h out. fst (serve demo_api (\<lambda>r h. undefined) HealthEndpoint (demo_post '''') demo_open) = HealthReply h \<and>
    serve demo_api (\<lambda>r h. undefined) (ApiEndpoint (GetCall (hr_account_sid h) ''x'')) (demo_guess h) demo_open =
      (ApiReply out, demo_open, [RequestCounted ''get_call'' ''POST'' ''4xx'']) \<and> ho_status out = 404"
proof -
  let ?sv = "demo_open"
  obtain h where h: "serve demo_api (\<lambda>r h. undefined) HealthEndpoint (demo_post '''') ?sv = (HealthReply h, ?sv, [])"
    "hr_account_sid h = sv_accountSid ?sv"
    by (simp add: serve_def newHealthHandler_def)
  have g: "hi_auth (demo_guess h) = Some (hr_account_sid h, '''')" "hi_contentLength (demo_guess h) \<le> 65536"
    "cf_AuthToken (sv_cfg ?sv) = ''''"
    by (simp_all add: demo_guess_def demo_post_def demo_open_def)
  have st: "ho_status (call_not_found ''x'') = 404" "BucketStatus 404 = ''4xx''"
    by (simp_all add: call_not_found_def WriteJSON_def json_out_def api_error_defs BucketStatus_def)
  have hr: "handle_route demo_api (api_cfg_of ?sv) (GetCall (hr_account_sid h) ''x'') (demo_guess h)
      \<lparr> rs_manager = sv_manager ?sv, rs_effects = [] \<rparr> =
    Some (call_not_found ''x'', \<lparr> rs_manager = sv_manager ?sv, rs_effects = [RequestCounted ''get_call'' ''POST'' ''4xx''] \<rparr>)"
    by (simp add: getCallHandler_def CallSidRE_def has_prefix_def metricsMiddleware_def rs_do_def demo_guess_def demo_post_def st)
  from http_surface[OF h(1), of "demo_guess h"] g hr h st(1) show ?thesis
    by (auto dest!: spec[of _ h] spec[of _ "GetCall (hr_account_sid h) ''x''"])
qed

section \<open>The end of the service\<close>

datatype end_event = StepDone shutdown_step | SweepStopped | AgentClosed

text \<open>After the signal: the shutdown sequence, then what \<^verbatim>\<open>main\<close> has deferred, last first.
  The deregistration gets the replies \<open>a\<close> and \<open>b\<close>.\<close>

definition stop_service :: "session_env \<Rightarrow> int \<Rightarrow> bool \<Rightarrow> sip_result \<Rightarrow> sip_result \<Rightarrow> service \<Rightarrow> end_event list \<times> service" where
  "stop_service env now http_ok a b sv =
    (let (err, r) = Unregister a b (sv_registrar sv);
         (steps, h) = runShutdown env now http_ok (err = None) (sv_handler sv)
     in (map StepDone steps @ [SweepStopped, AgentClosed], sv\<lparr> sv_handler := h, sv_registrar := r \<rparr>))"

definition drainBudget :: nat where "drainBudget = 15000"

text \<open>The time the sequence takes, in milliseconds: the HTTP server's shutdown and the
  deregistration are cut off after five seconds each, the drain waits as
  \<^const>\<open>drain_wait\<close> does.\<close>

definition shutdown_time :: "nat \<Rightarrow> (nat \<Rightarrow> nat) \<Rightarrow> (nat \<Rightarrow> bool) \<Rightarrow> nat \<Rightarrow> nat" where
  "shutdown_time http looks pick unreg =
    min http 5000 + snd (drain_wait looks pick drainBudget 0) + min unreg 5000"

text \<open>The grace of thirty seconds that the platform gives is never used up, and when the
  sessions are gone at the look numbered \<open>j\<close> the drain takes no longer than that.\<close>

lemma shutdown_in_time:
  "shutdown_time http looks pick unreg \<le> 25000"
  "looks j = 0 \<Longrightarrow> \<forall>i < j. looks i \<noteq> 0 \<Longrightarrow> 50 * j < 15000 \<Longrightarrow>
    shutdown_time http looks pick unreg \<le> 50 * j + 10000 \<and> fst (drain_wait looks pick drainBudget 0)"
proof -
  have "snd (drain_wait looks pick drainBudget 0) \<le> 15000"
    using drain_wait_time[of looks pick drainBudget 0] by (simp add: drainBudget_def)
  then show "shutdown_time http looks pick unreg \<le> 25000" unfolding shutdown_time_def by linarith
qed (use drain_wait_ends[of looks 0 j drainBudget pick] in \<open>simp add: shutdown_time_def drainBudget_def\<close>)

text \<open>The registration is given up only after the calls were told to end, and what is
  deferred comes last.\<close>

lemma stop_service_order:
  assumes "stop_service env now http_ok a b sv = (evs, sv')"
  shows "\<exists>n ok. evs = [StepDone (HttpStopped http_ok), StepDone (CallsDrained n), StepDone (Unregistered ok), SweepStopped, AgentClosed] \<and>
    n = length (cm_sessions (sv_manager sv)) \<and> (ok \<longrightarrow> \<not> rr_registered (sv_registrar sv')) \<and> h_shutdown (sv_handler sv')"
proof -
  obtain err r where u: "Unregister a b (sv_registrar sv) = (err, r)" by fastforce
  obtain steps h where st: "runShutdown env now http_ok (err = None) (sv_handler sv) = (steps, h)" by fastforce
  have steps: "steps = [HttpStopped http_ok, CallsDrained (length (cm_sessions (sv_manager sv))), Unregistered (err = None)]"
    using runShutdown_order[of env now http_ok "err = None" "sv_handler sv"] by (simp add: st sv_manager_def)
  have h: "h_shutdown h" using st by (auto simp: runShutdown_def SetShutdown_def Let_def)
  have r: "err = None \<longrightarrow> \<not> rr_registered r"
    using u by (auto simp: Unregister_def set_registered_def Let_def split: sum.splits if_splits)
  have "evs = map StepDone steps @ [SweepStopped, AgentClosed]" "sv' = sv\<lparr> sv_handler := h, sv_registrar := r \<rparr>"
    using assms by (simp_all add: stop_service_def u st)
  then show ?thesis using steps h r by simp
qed

end
