(* ===== verification/Inbound_Call.thy ===== *)
theory Inbound_Call
  imports Service
begin

text \<open>
  Inbound calls from the INVITE to the end of the session: \<^verbatim>\<open>onInvite\<close> of
  \<^verbatim>\<open>sip/handler.go\<close>, and for an answered call the goroutine it starts,
  \<^verbatim>\<open>StartSessionWithPreRegistered\<close> of \<^verbatim>\<open>bridge/manager.go\<close>.  The service is back at rest
  after every call, whatever happened in it.
\<close>

section \<open>A refusal\<close>

lemma refuse_bookkeeping:
  "set (cm_cleaned (h_manager (refuse env now r code port respond h))) \<subseteq> insert r (set (cm_cleaned (h_manager h)))"
  "length (cm_heap (h_manager (refuse env now r code port respond h))) = length (cm_heap (h_manager h))"
  by (auto simp: refuse_def cleanup_def td_unindex_def td_unlist_def td_snapshot_def td_stamp_def ReleasePort_def h_session_def
      Let_def split: option.splits)

section \<open>One call after the other\<close>

text \<open>What one call meets: the INVITE and its world, the time at which it ends, whether the
  WebSocket of the bot can be dialled, and what the run makes of the session.\<close>

record call_plan =
  cp_world :: invite_world
  cp_invite :: invite
  cp_now :: int
  cp_ws_ok :: bool
  cp_run :: "call_session \<Rightarrow> call_session"

definition inbound_call :: "handler_env \<Rightarrow> handler_cfg \<Rightarrow> call_plan \<Rightarrow> handler \<Rightarrow> handler" where
  "inbound_call env cfg c h =
    (let h1 = onInvite env cfg (cp_world c) (cp_invite c) (h\<lparr> h_log := [] \<rparr>) in
     case bridges h1 of
       [] \<Rightarrow> h1
     | (r, lg) # _ \<Rightarrow> h1\<lparr> h_manager :=
         StartSessionWithPreRegistered (he_session env) (cp_now c) r lg (cp_ws_ok c) (cp_run c) (h_manager h1) \<rparr>)"

fun inbound_calls :: "handler_env \<Rightarrow> handler_cfg \<Rightarrow> call_plan list \<Rightarrow> handler \<Rightarrow> handler" where
  "inbound_calls env cfg [] h = h"
| "inbound_calls env cfg (c # cs) h = inbound_calls env cfg cs (inbound_call env cfg c h)"

text \<open>The registry and the pool are as in \<open>m0\<close>.\<close>

definition resting :: "call_manager \<Rightarrow> call_manager \<Rightarrow> bool" where
  "resting m0 m \<longleftrightarrow> same_registry m0 m \<and> mset (free_ports (cm_portPool m)) = mset (free_ports (cm_portPool m0)) \<and>
    pool_cap (cm_portPool m) = pool_cap (cm_portPool m0) \<and> (\<forall>r \<in> set (cm_cleaned m). r < length (cm_heap m))"

definition roomy :: "call_manager \<Rightarrow> bool" where
  "roomy m \<longleftrightarrow> length (free_ports (cm_portPool m)) \<le> pool_cap (cm_portPool m)"

lemma same_registry_trans: "same_registry a b \<Longrightarrow> same_registry b c \<Longrightarrow> same_registry a c"
  by (simp add: same_registry_def)

lemma Release_free:
  assumes "length ps < pool_cap p"
  shows "free_ports (Release (p\<lparr> pp_ports := (pp_ports p)\<lparr> chan_buf := ps \<rparr> \<rparr>) x) = ps @ [x]"
    "pool_cap (Release (p\<lparr> pp_ports := (pp_ports p)\<lparr> chan_buf := ps \<rparr> \<rparr>) x) = pool_cap p"
  using assms by (simp_all add: Release_def chan_send_def free_ports_def pool_cap_def)

lemma inbound_call_rests:
  assumes "resting m0 (h_manager h)" "roomy m0"
    and "sm_load (cm_callSidIdx m0) (NewCallSid (iw_random (cp_world c))) = None" "sm_load (cm_sessions m0) (iv_callID (cp_invite c)) = None"
    and "\<And>s. run_result (he_session env) s (cp_run c s)"
  shows "resting m0 (h_manager (inbound_call env cfg c h)) \<and>
    (bridges (inbound_call env cfg c h) \<noteq> [] \<longrightarrow>
      (\<exists>t. GetByCallSid (h_manager (inbound_call env cfg c h)) (NewCallSid (iw_random (cp_world c))) = Some (EndedCall t) \<and>
        tc_startTime t = iw_start (cp_world c) \<and> tc_endTime t \<noteq> None))"
proof -
  let ?w = "cp_world c" and ?q = "cp_invite c" and ?h = "h\<lparr> h_log := [] \<rparr>"
  let ?m = "h_manager h" and ?sid = "NewCallSid (iw_random (cp_world c))"
  note rest = assms(1)[unfolded resting_def]
  have fresh: "fresh ?w ?q ?h"
    using assms(3,4) rest by (auto simp: fresh_def same_registry_def)
  have room: "length (free_ports (cm_portPool ?m)) \<le> pool_cap (cm_portPool ?m)"
    using assms(2) rest by (metis roomy_def size_mset)
  have older: "r \<in> set (cm_cleaned ?m) \<Longrightarrow> r < n" if "ref_of ?h < n" for r n
    using rest that by fastforce
  from fresh show ?thesis
  proof (cases rule: onInvite_result[where env = env and cfg = cfg])
    case (refused code port respond free h2)
    let ?g = "refuse env (iw_end ?w) (ref_of ?h) code port respond h2"
    have call: "inbound_call env cfg c h = ?g" "bridges ?g = []"
      using refused(1,3) by (simp_all add: inbound_call_def)
    note s = refused(2)[unfolded at_setup_def]
    have nc: "ref_of ?h \<notin> set (cm_cleaned (h_manager h2))" using s fresh by (simp add: fresh_def)
    have reg: "same_registry ?m (h_manager ?g)"
      using refuse_restores[OF fresh, of h2] s by simp
    have pool: "mset (free_ports (cm_portPool (h_manager ?g))) = mset (free_ports (cm_portPool ?m)) \<and>
        pool_cap (cm_portPool (h_manager ?g)) = pool_cap (cm_portPool ?m)"
      using refuse_effect(4)[OF conjunct1[OF s] nc refl, of env "iw_end ?w" code port respond] s refused(5) room
        Release_free[of free "cm_portPool ?m"]
      by (cases port) (auto simp: free_ports_def pool_cap_def)
    have "r < length (cm_heap (h_manager ?g))" if "r \<in> set (cm_cleaned (h_manager ?g))" for r
      using refuse_bookkeeping[of env "iw_end ?w" "ref_of ?h" code port respond h2] that s older[of "length (cm_heap (h_manager h2))" r]
      by (auto simp: setting_up_def Let_def)
    with reg pool rest refused(3) show ?thesis
      by (simp add: call resting_def same_registry_trans[of m0 ?m])
  next
    case (answered lg url custom free h2)
    let ?g = "h_do (StartBridge (ref_of ?h) lg url custom) h2"
    define m' where "m' = StartSessionWithPreRegistered (he_session env) (cp_now c) (ref_of ?h) lg (cp_ws_ok c) (cp_run c) (h_manager h2)"
    have call: "inbound_call env cfg c h = ?g\<lparr> h_manager := m' \<rparr>"
      using answered(1,3) by (simp add: inbound_call_def m'_def)
    note s = answered(2)[unfolded at_setup_def]
    have up: "ref_of ?h < length (cm_heap (h_manager h2))" "term_wf (cm_heap (h_manager h2) ! ref_of ?h)"
      "ident (cm_heap (h_manager h2) ! ref_of ?h) = (?sid, iv_callID ?q, iw_start ?w)"
      using s by (simp_all add: setting_up_def term_wf_def Let_def shell_of_def session_shell_def ident_def)
    note eff = StartSessionWithPreRegistered_effect[OF up assms(5) m'_def]
    have reg: "same_registry ?m m'"
      using fresh eff(1-3) s by (auto simp: same_registry_def registered_def PreRegisterSession_def Let_def fresh_def)
    have "length free < pool_cap (cm_portPool ?m)" using room answered(6) by simp
    then have pool: "mset (free_ports (cm_portPool m')) = mset (free_ports (cm_portPool ?m)) \<and> pool_cap (cm_portPool m') = pool_cap (cm_portPool ?m)"
      using eff(4) s answered(6) Release_free[of free "cm_portPool ?m" "l_rtpPort lg"] by simp
    have "r < length (cm_heap m')" if "r \<in> set (cm_cleaned m')" for r
      using that eff(6,7) s up(1) older[of "length (cm_heap (h_manager h2))" r] by simp
    moreover have "\<exists>t. GetByCallSid m' ?sid = Some (EndedCall t) \<and> tc_startTime t = iw_start ?w \<and> tc_endTime t \<noteq> None"
      using eff(1)[of ?sid] eff(5) by (auto simp: GetByCallSid_def)
    ultimately show ?thesis
      using reg pool rest by (simp add: call resting_def same_registry_trans[of m0 ?m])
  qed
qed

lemma inbound_calls_rest:
  assumes "resting m0 (h_manager h)" "roomy m0" "\<forall>k. sm_load (cm_callSidIdx m0) k = None \<and> sm_load (cm_sessions m0) k = None"
    and "\<And>c s. c \<in> set cs \<Longrightarrow> run_result (he_session env) s (cp_run c s)"
  shows "resting m0 (h_manager (inbound_calls env cfg cs h))"
  using assms(1,4)
proof (induction cs arbitrary: h)
  case (Cons c cs)
  then have "resting m0 (h_manager (inbound_call env cfg c h))"
    using inbound_call_rests[OF Cons.prems(1) assms(2)] assms(3) by simp
  then show ?case using Cons by simp
qed simp

lemma inbound_calls_snoc: "inbound_calls env cfg (cs @ [c]) h = inbound_call env cfg c (inbound_calls env cfg cs h)"
  by (induction cs arbitrary: h) simp_all

section \<open>From the start of the service\<close>

lemma started_at_rest:
  assumes "main w env ps = (Some sv, evs)"
  shows "cm_sessions (h_manager (sv_handler sv)) = []" "cm_callSidIdx (h_manager (sv_handler sv)) = []"
    "cm_activeCalls (h_manager (sv_handler sv)) = 0" "cm_cleaned (h_manager (sv_handler sv)) = []"
    "free_ports (cm_portPool (h_manager (sv_handler sv))) = [cf_RTPPortMin (sv_cfg sv)..cf_RTPPortMax (sv_cfg sv) - 1]"
    "roomy (h_manager (sv_handler sv))"
proof -
  obtain cfg pool sv0 r where L: "NewPortPool (cf_RTPPortMin cfg) (cf_RTPPortMax cfg) = Inr pool"
    "build_parts cfg ps pool (DeriveAccountSid (cf_SIPUser cfg)) = (sv0, map OnMethod sip_methods)" "sv = sv0\<lparr> sv_registrar := r \<rparr>"
    using assms[unfolded main_served] by blast
  note parts = build_parts_simps[OF L(2)]
  show "cm_sessions (h_manager (sv_handler sv)) = []" "cm_callSidIdx (h_manager (sv_handler sv)) = []"
    "cm_activeCalls (h_manager (sv_handler sv)) = 0" "cm_cleaned (h_manager (sv_handler sv)) = []"
    by (simp_all add: L(3) parts(5) NewCallManager_def)
  have pool: "cm_portPool (h_manager (sv_handler sv)) = pool" by (simp add: L(3) parts(5) NewCallManager_def)
  show "free_ports (cm_portPool (h_manager (sv_handler sv))) = [cf_RTPPortMin (sv_cfg sv)..cf_RTPPortMax (sv_cfg sv) - 1]"
    unfolding pool using L(1) by (auto simp: L(3) parts(2) NewPortPool_def free_ports_def split: if_splits)
  show "roomy (h_manager (sv_handler sv))"
    unfolding roomy_def pool using L(1) by (auto simp: NewPortPool_def free_ports_def pool_cap_def split: if_splits)
qed

text \<open>C4. Calls leave no trace.  From the start of the service, after any number of inbound
  calls, one after another, refused at any point or answered and ended by any run of
  their sessions (or by a WebSocket that cannot be dialled), every RTP port of the range
  is free again, exactly once, the registry is empty, the gauge and the health report
  count no call, and the last call, if it was answered, is found as an ended one with
  its start and its end.\<close>

theorem calls_leave_no_trace:
  assumes "main w env ps = (Some sv, evs)"
    and "\<And>c s. c \<in> set cs \<Longrightarrow> run_result (he_session henv) s (cp_run c s)"
    and "h = inbound_calls henv hcfg cs (sv_handler sv)"
  shows "mset (free_ports (cm_portPool (h_manager h))) = mset [cf_RTPPortMin (sv_cfg sv)..cf_RTPPortMax (sv_cfg sv) - 1] \<and>
    cm_sessions (h_manager h) = [] \<and> cm_callSidIdx (h_manager h) = [] \<and> cm_activeCalls (h_manager h) = 0 \<and>
    hr_active_calls (newHealthHandler reg (h_manager h) (sv_accountSid sv)) = 0 \<and>
    (\<forall>cs' c. cs = cs' @ [c] \<and> bridges h \<noteq> [] \<longrightarrow>
      (\<exists>t. GetByCallSid (h_manager h) (NewCallSid (iw_random (cp_world c))) = Some (EndedCall t) \<and>
        tc_startTime t = iw_start (cp_world c) \<and> tc_endTime t \<noteq> None))"
proof -
  let ?m0 = "h_manager (sv_handler sv)"
  note start = started_at_rest[OF assms(1)]
  have rest0: "resting ?m0 ?m0" by (simp add: resting_def same_registry_def start(4))
  have empty: "\<forall>k. sm_load (cm_callSidIdx ?m0) k = None \<and> sm_load (cm_sessions ?m0) k = None" by (simp add: start(1,2))
  have no_keys: "xs = []" if "\<forall>k. sm_load xs k = None" for xs :: "(string \<times> nat) list"
    using that by (cases xs) (force simp: sm_load_def split: if_splits)+
  have "resting ?m0 (h_manager h)"
    unfolding assms(3) by (rule inbound_calls_rest[OF rest0 start(6) empty assms(2)])
  then have "mset (free_ports (cm_portPool (h_manager h))) = mset [cf_RTPPortMin (sv_cfg sv)..cf_RTPPortMax (sv_cfg sv) - 1]"
    "cm_sessions (h_manager h) = []" "cm_callSidIdx (h_manager h) = []" "cm_activeCalls (h_manager h) = 0"
    using empty by (auto simp: resting_def same_registry_def start(3,5) intro!: no_keys)
  moreover have "\<exists>t. GetByCallSid (h_manager h) (NewCallSid (iw_random (cp_world c))) = Some (EndedCall t) \<and>
        tc_startTime t = iw_start (cp_world c) \<and> tc_endTime t \<noteq> None" if c: "cs = cs' @ [c]" "bridges h \<noteq> []" for cs' c
  proof -
    have "resting ?m0 (h_manager (inbound_calls henv hcfg cs' (sv_handler sv)))"
      by (rule inbound_calls_rest[OF rest0 start(6) empty]) (use assms(2) c in auto)
    from inbound_call_rests[OF this start(6), of c henv hcfg] empty assms(2)[of c] c show ?thesis
      by (simp add: assms(3) inbound_calls_snoc)
  qed
  ultimately show ?thesis by (auto simp: newHealthHandler_def ActiveCount_def)
qed

definition demo_plan :: call_plan where
  "demo_plan = \<lparr> cp_world = demo_world, cp_invite = demo_invite, cp_now = 9, cp_ws_ok = True,
     cp_run = (\<lambda>s. snd (run_start True True True True True s)) \<rparr>"

definition demo_refused :: call_plan where
  "demo_refused = demo_plan\<lparr> cp_world := demo_broken \<rparr>"

theorem calls_leave_no_trace_witness:
  "\<exists>sv evs h. main demo_boot demo_config demo_plain = (Some sv, evs) \<and>
    h = inbound_calls demo_henv demo_hcfg [demo_plan, demo_refused, demo_plan] (sv_handler sv) \<and>
    mset (free_ports (cm_portPool (h_manager h))) = mset [10000..10098] \<and> cm_sessions (h_manager h) = []"
proof -
  obtain sv evs where m: "main demo_boot demo_config demo_plain = (Some sv, evs)" "sv_cfg sv = demo_loaded"
    using demo_started by blast
  have run: "run_result (he_session demo_henv) s (cp_run c s)" if "c \<in> set [demo_plan, demo_refused, demo_plan]" for c s
    using that by (auto simp: demo_plan_def demo_refused_def run_start_def intro!: run_result.early[of True True True True True])
  let ?h = "inbound_calls demo_henv demo_hcfg [demo_plan, demo_refused, demo_plan] (sv_handler sv)"
  have range: "cf_RTPPortMin demo_loaded = 10000" "cf_RTPPortMax demo_loaded - 1 = 10098"
    by (simp_all add: demo_loaded_def demo_config_def)
  from calls_leave_no_trace[OF m(1) run refl[of ?h]]
  have "mset (free_ports (cm_portPool (h_manager ?h))) = mset [10000..10098] \<and> cm_sessions (h_manager ?h) = []"
    unfolding m(2) range by blast
  with m(1) show ?thesis by blast
qed

end
