(* ===== verification/Test_Registrar.thy ===== *)
theory Test_Registrar
  imports Prelude
begin

text \<open>
  The stub registrar of \<^verbatim>\<open>cmd/test-registrar/main.go\<close>, which lets the bridge start in the
  end-to-end tests: its loop over UDP datagrams and the answer that it builds from the
  lines of a REGISTER.
\<close>

section \<open>Lines\<close>

definition CRLF :: string where "CRLF = [CHR 0x0D, CHR 0x0A]"

text \<open>\<^verbatim>\<open>strings.Split\<close> at the line ends, and its inverse.\<close>

fun split_crlf :: "string \<Rightarrow> string list" where
  "split_crlf [] = [[]]"
| "split_crlf [c] = [[c]]"
| "split_crlf (c # d # s) =
    (if c = CHR 0x0D \<and> d = CHR 0x0A then [] # split_crlf s
     else (case split_crlf (d # s) of [] \<Rightarrow> [[c]] | w # ws \<Rightarrow> (c # w) # ws))"

definition one_line :: "string \<Rightarrow> bool" where
  "one_line w \<longleftrightarrow> split_crlf w = [w]"

section \<open>The answer\<close>

record reg_headers =
  rh_via :: string
  rh_from :: string
  rh_to :: string
  rh_callID :: string
  rh_cseq :: string
  rh_contact :: string
  rh_expires :: string

text \<open>One line: the first Via counts, of the other headers the last.\<close>

definition scan_line :: "reg_headers \<Rightarrow> string \<Rightarrow> reg_headers" where
  "scan_line h l =
    (let lower = to_lower l in
     if has_prefix lower ''via:'' then (if rh_via h = '''' then h\<lparr> rh_via := l \<rparr> else h)
     else if has_prefix lower ''from:'' then h\<lparr> rh_from := l \<rparr>
     else if has_prefix lower ''to:'' then h\<lparr> rh_to := l \<rparr>
     else if has_prefix lower ''call-id:'' then h\<lparr> rh_callID := l \<rparr>
     else if has_prefix lower ''cseq:'' then h\<lparr> rh_cseq := l \<rparr>
     else if has_prefix lower ''contact:'' then h\<lparr> rh_contact := l \<rparr>
     else if has_prefix lower ''expires:'' then h\<lparr> rh_expires := l \<rparr>
     else h)"

definition no_headers :: reg_headers where
  "no_headers = \<lparr> rh_via = '''', rh_from = '''', rh_to = '''', rh_callID = '''', rh_cseq = '''', rh_contact = '''', rh_expires = '''' \<rparr>"

definition scan_lines :: "string list \<Rightarrow> reg_headers" where
  "scan_lines ls = foldl scan_line no_headers ls"

definition answer_lines :: "reg_headers \<Rightarrow> string list" where
  "answer_lines h =
    [''SIP/2.0 200 OK'', rh_via h, rh_from h, rh_to h @ '';tag=stub-registrar'', rh_callID h, rh_cseq h,
     (if rh_contact h = '''' then ''Contact: <sip:stub@127.0.0.1:5060>'' else rh_contact h),
     (if rh_expires h = '''' then ''Expires: 120'' else rh_expires h),
     ''Server: audio-dock-test-registrar/0.1'', ''Content-Length: 0'', '''', '''']"

definition build200 :: "string \<Rightarrow> string" where
  "build200 req = join_with CRLF (answer_lines (scan_lines (split_crlf req)))"

section \<open>The loop\<close>

text \<open>What a read of the socket gives, and whether the answer can be written; the socket is
  closed by the signal.\<close>

datatype 'a udp_event = Datagram string 'a bool | ReadError string

fun serve_register :: "'a udp_event list \<Rightarrow> (string \<times> 'a) list" where
  "serve_register [] = []"
| "serve_register (ReadError e # evs) = (if contains_str e ''use of closed'' then [] else serve_register evs)"
| "serve_register (Datagram msg src ok # evs) =
    (if \<not> has_prefix msg ''REGISTER '' then serve_register evs
     else (if ok then [(build200 msg, src)] else []) @ serve_register evs)"

section \<open>What the answer says\<close>

lemma split_crlf_not_Nil [simp]: "split_crlf s \<noteq> []"
  by (induction s rule: split_crlf.induct) (auto split: list.split)

lemma one_line_Nil [simp]: "one_line []"
  by (simp add: one_line_def)

lemma one_line_Cons: "one_line (c # w) \<longleftrightarrow> \<not> (c = CHR 0x0D \<and> (\<exists>r. w = CHR 0x0A # r)) \<and> one_line w"
proof (cases w)
  case (Cons d s)
  then show ?thesis by (cases "split_crlf (d # s)") (auto simp: one_line_def)
qed (simp add: one_line_def)

lemma one_line_no_LF: "CHR 0x0A \<notin> set s \<Longrightarrow> one_line s"
  by (induction s) (auto simp: one_line_Cons)

lemma one_line_append: "one_line w \<Longrightarrow> CHR 0x0A \<notin> set s \<Longrightarrow> one_line (w @ s)"
proof (induction w)
  case Nil
  then show ?case by (simp add: one_line_no_LF)
next
  case (Cons c w)
  then show ?case by (cases w) (auto simp: one_line_Cons)
qed

lemma one_line_split: "w \<in> set (split_crlf s) \<Longrightarrow> one_line w"
proof (induction s arbitrary: w rule: split_crlf.induct)
  case (3 c d s)
  show ?case
  proof (cases "c = CHR 0x0D \<and> d = CHR 0x0A")
    case True
    then show ?thesis using 3 by auto
  next
    case False
    obtain v vs where v: "split_crlf (d # s) = v # vs" by (cases "split_crlf (d # s)") auto
    have head: "v = [] \<or> hd v = d"
      using v by (cases s) (auto split: if_splits list.splits)
    have "one_line v" using 3(2)[OF False, of v] v by simp
    with head False have "one_line (c # v)" by (auto simp: one_line_Cons)
    then show ?thesis using 3(2)[OF False] 3(3) v False by auto
  qed
qed (auto simp: one_line_def)

lemma split_crlf_append: "one_line w \<Longrightarrow> split_crlf (w @ CRLF @ r) = w # split_crlf r"
proof (induction w)
  case Nil
  then show ?case by (simp add: CRLF_def)
next
  case (Cons c w)
  then have "split_crlf (w @ CRLF @ r) = w # split_crlf r" by (simp add: one_line_Cons)
  moreover have "\<not> (c = CHR 0x0D \<and> (\<exists>q. w @ CRLF @ r = CHR 0x0A # q))"
    using Cons.prems by (cases w) (auto simp: one_line_Cons CRLF_def)
  moreover obtain d s where "w @ CRLF @ r = d # s" by (cases "w @ CRLF @ r") (auto simp: CRLF_def)
  ultimately show ?case by auto
qed

lemma split_join_crlf: "ws \<noteq> [] \<Longrightarrow> list_all one_line ws \<Longrightarrow> split_crlf (join_with CRLF ws) = ws"
  by (induction CRLF ws rule: join_with.induct) (auto simp: split_crlf_append one_line_def)

text \<open>The header with a given name: its first or its last line.\<close>

definition named :: "string \<Rightarrow> string list \<Rightarrow> string list" where
  "named p ls = filter (\<lambda>l. has_prefix (to_lower l) p) ls"

definition first_named :: "string \<Rightarrow> string list \<Rightarrow> string" where
  "first_named p ls = (case named p ls of [] \<Rightarrow> '''' | l # _ \<Rightarrow> l)"

definition last_named :: "string \<Rightarrow> string list \<Rightarrow> string" where
  "last_named p ls = (if named p ls = [] then '''' else last (named p ls))"

lemma prefix_clash: "has_prefix s p \<Longrightarrow> has_prefix s q \<Longrightarrow> take (min (length p) (length q)) p = take (min (length p) (length q)) q"
proof -
  assume "has_prefix s p" "has_prefix s q"
  then obtain a b where s: "s = p @ a" "s = q @ b" unfolding has_prefix_iff by blast
  let ?m = "min (length p) (length q)"
  have "take ?m p = take ?m s" unfolding s(1) by simp
  also have "\<dots> = take ?m q" unfolding s(2) by simp
  finally show ?thesis .
qed

lemma scan_lines_headers:
  "scan_lines ls = \<lparr> rh_via = first_named ''via:'' ls, rh_from = last_named ''from:'' ls, rh_to = last_named ''to:'' ls,
     rh_callID = last_named ''call-id:'' ls, rh_cseq = last_named ''cseq:'' ls, rh_contact = last_named ''contact:'' ls,
     rh_expires = last_named ''expires:'' ls \<rparr>"
proof (induction ls rule: rev_induct)
  case Nil
  then show ?case by (simp add: scan_lines_def no_headers_def first_named_def last_named_def named_def)
next
  case (snoc l ls)
  have ne: "v \<noteq> []" if "v \<in> set (named ''via:'' ls)" for v
    using that by (auto simp: named_def has_prefix_def to_lower_def)
  have via: "first_named ''via:'' (ls @ [l]) =
      (if has_prefix (to_lower l) ''via:'' \<and> first_named ''via:'' ls = '''' then l else first_named ''via:'' ls)"
  proof (cases "named ''via:'' ls")
    case (Cons v vs)
    then have "v \<noteq> []" using ne[of v] by simp
    with Cons show ?thesis by (simp add: first_named_def named_def)
  qed (simp add: first_named_def named_def)
  have last: "last_named p (ls @ [l]) = (if has_prefix (to_lower l) p then l else last_named p ls)" for p
    by (simp add: last_named_def named_def)
  have step: "scan_lines (ls @ [l]) = scan_line (scan_lines ls) l" by (simp add: scan_lines_def)
  show ?case
    unfolding step snoc.IH via last
    by (auto simp: scan_line_def Let_def dest: prefix_clash)
qed

lemma one_line_named:
  assumes "list_all one_line ls"
  shows "one_line (first_named p ls)" "one_line (last_named p ls)"
proof -
  have "l \<in> set (named p ls) \<Longrightarrow> one_line l" for l using assms by (auto simp: named_def list_all_iff)
  then show "one_line (first_named p ls)" "one_line (last_named p ls)"
    by (auto simp: first_named_def last_named_def split: list.split)
qed

text \<open>The answer has exactly the twelve lines that are written, whatever the request holds:
  the status 200, the echoed headers of the request, a contact and an expiry also when the
  request has none, and an empty body.  The expiry is the request's own, zero too.\<close>

lemma build200_lines:
  assumes "ls = split_crlf req"
  shows "split_crlf (build200 req) =
    [''SIP/2.0 200 OK'', first_named ''via:'' ls, last_named ''from:'' ls, last_named ''to:'' ls @ '';tag=stub-registrar'',
     last_named ''call-id:'' ls, last_named ''cseq:'' ls,
     (if named ''contact:'' ls = [] then ''Contact: <sip:stub@127.0.0.1:5060>'' else last_named ''contact:'' ls),
     (if named ''expires:'' ls = [] then ''Expires: 120'' else last_named ''expires:'' ls),
     ''Server: audio-dock-test-registrar/0.1'', ''Content-Length: 0'', '''', '''']"
proof -
  have all: "list_all one_line ls" using assms one_line_split by (auto simp: list_all_iff)
  have empty: "last_named p ls = '''' \<longleftrightarrow> named p ls = []" if "p \<noteq> []" for p
    using that last_in_set[of "named p ls"]
    by (auto simp: last_named_def named_def has_prefix_def to_lower_def)
  have "list_all one_line (answer_lines (scan_lines ls))"
    using one_line_named[OF all] one_line_append[OF one_line_named(2)[OF all], of "'';tag=stub-registrar''" "''to:''"]
    by (simp add: answer_lines_def scan_lines_headers one_line_no_LF)
  then have "split_crlf (build200 req) = answer_lines (scan_lines ls)"
    using split_join_crlf[of "answer_lines (scan_lines ls)"] assms by (simp add: build200_def answer_lines_def)
  then show ?thesis by (simp add: answer_lines_def scan_lines_headers empty)
qed

text \<open>Until the socket is closed, each REGISTER that can be answered is answered once, to its
  sender and in order; nothing else is answered.\<close>

fun answerable :: "'a udp_event \<Rightarrow> (string \<times> 'a) list" where
  "answerable (Datagram msg src ok) = (if ok \<and> has_prefix msg ''REGISTER '' then [(msg, src)] else [])"
| "answerable (ReadError e) = []"

fun closes :: "'a udp_event \<Rightarrow> bool" where
  "closes (ReadError e) = contains_str e ''use of closed''"
| "closes _ = False"

lemma serve_register_answers:
  "serve_register evs = map (map_prod build200 id) (concat (map answerable (takeWhile (\<lambda>e. \<not> closes e) evs)))"
  by (induction evs rule: serve_register.induct) auto

end
