(* ===== verification/Spec2Isabelle.thy ===== *)
theory Spec2Isabelle
imports Port_Pool Guardrails Signer Identity Subscription Ssrf Observability Status_Client Twiml Call_Session Media
    Webhook_Client Call_Manager Sdp Forwarder Sip_Handler Registrar Config Mid_Call Rest_Api Ws_Wire
    Metric_Lint Metric_Registry Http_Clients Web_Ui Background Dial_Race Inbound_Call Test_Registrar
begin

text \<open>
  A verification development for the Go service of the repository
  (\<^verbatim>\<open>src/go\<close>): a bridge that takes calls from a SIP trunk, streams their audio to a
  bot over a WebSocket in the Twilio Media Streams protocol, and lets a customer
  read and modify the calls through a Twilio-compatible REST API.  All paths
  below are relative to \<^verbatim>\<open>src/go/internal\<close> unless they say otherwise.  The Node.js
  implementation in \<^verbatim>\<open>src/node\<close> is not part of this development.

  \<^bold>\<open>The parts and how they interact.\<close>

  An INVITE reaches \<open>onInvite\<close> (\<^verbatim>\<open>sip/handler.go\<close>, theory \<open>Sip_Handler\<close>).  It registers
  a session with the call manager (\<^verbatim>\<open>bridge/manager.go\<close>, \<open>Call_Manager\<close>), takes an RTP
  port (the pool of the same file, \<open>Port_Pool\<close>), asks the customer's voice webhook
  where to stream (\<^verbatim>\<open>webhook/voice.go\<close> and \<^verbatim>\<open>client.go\<close>, \<open>Webhook_Client\<close>, with the TwiML
  parser of \<^verbatim>\<open>twiml\<close>, \<open>Twiml\<close>), negotiates the media (\<^verbatim>\<open>sip/sdp.go\<close>, \<open>Sdp\<close>) and starts
  the session (\<^verbatim>\<open>bridge/session.go\<close>, \<open>Call_Session\<close>), whose goroutines move the audio
  (\<open>Media\<close>) and the events of the protocol (\<^verbatim>\<open>bridge/ws.go\<close>, \<open>Ws_Wire\<close>).  Each change of
  a call's state may become a signed callback to the customer
  (\<^verbatim>\<open>webhook/status.go\<close>, \<open>Status_Client\<close>; \<^verbatim>\<open>subscription.go\<close>, \<open>Subscription\<close>; \<^verbatim>\<open>signer.go\<close>,
  \<open>Signer\<close>; \<^verbatim>\<open>ssrf.go\<close>, \<open>Ssrf\<close>).  A REST request (\<^verbatim>\<open>api/calls.go\<close>, \<^verbatim>\<open>auth.go\<close>, \<^verbatim>\<open>security.go\<close>,
  \<^verbatim>\<open>server.go\<close>, \<open>Rest_Api\<close>; \<^verbatim>\<open>api/json.go\<close> and \<^verbatim>\<open>errors.go\<close>, \<open>Rest_Json\<close>) reads the manager
  or changes one session; TwiML it brings is dispatched in the background to the
  session through the adapter of \<^verbatim>\<open>api/midcall_adapter.go\<close> (\<open>Mid_Call\<close>), which closes
  the stream to the bot and lets the forwarder (\<^verbatim>\<open>sip/forwarder.go\<close>, \<open>Forwarder\<close>) call
  the new party, if the guardrails against toll fraud allow it
  (\<^verbatim>\<open>sip/guardrails.go\<close>, \<open>Guardrails\<close>).  The registrar (\<^verbatim>\<open>sip/registrar.go\<close>, \<open>Registrar\<close>)
  keeps the service registered at the trunk.  \<open>Http_Clients\<close> builds the clients of the
  webhooks (their transports, the signing round-tripper, the guarded dialler) and
  runs their requests over a network that resolves, connects, answers and redirects;
  \<open>Dial_Race\<close> is the wait of \<open>Dial\<close> for its INVITE, the race of the SIP stack
  (\<^verbatim>\<open>sip/digest.go\<close>) with the watchdog; \<open>Background\<close> holds the sweeper of ended calls and
  the wait of the drain.  \<open>Service\<close> is \<^verbatim>\<open>src/go/cmd/sipgate-sip-stream-bridge/main.go\<close> with
  \<^verbatim>\<open>sip/agent.go\<close>: it builds all the parts, registers, serves HTTP and shuts down, and
  \<open>Web_Ui\<close> is the handler of \<^verbatim>\<open>web/server.go\<close> that it mounts.  \<open>Config\<close> is \<^verbatim>\<open>config/config.go\<close>,
  \<open>Identity\<close> is \<^verbatim>\<open>identity\<close>, \<open>Observability\<close> the label bucketers and the log mask of
  \<^verbatim>\<open>observability\<close>, and \<open>Metric_Registry\<close> the metrics registered there.  \<open>Metric_Lint\<close> is
  the linter \<^verbatim>\<open>cmd/lint-metrics\<close> that guards the labels of these metrics, and \<open>Test_Registrar\<close>
  the stub \<^verbatim>\<open>cmd/test-registrar\<close> of the end-to-end tests.  \<open>Prelude\<close>, \<open>Bytes_Codec\<close> and \<open>Url_Values\<close> hold what these use of Go
  and its standard library: fixed-width integers, strings, channels, Base64,
  SHA-1, SHA-256, HMAC, and forms.

  \<^bold>\<open>How state and operations correspond.\<close>

  A Go struct is a record with the fields that the modelled code reads or writes;
  a method is a function from the receiver's record (and the world it acts on) to
  the new one.  Definitions carry the Go name where HOL leaves it free.  Shared
  objects (sessions, reachable from two indices, handlers, goroutines) live in a
  heap of the manager and are reached by references; a TwiML adapter owns its
  session.  What an operation does outside the modelled state (frames on a socket,
  SIP responses, BYEs, callbacks, metrics, log lines) is a list of effects in
  order: \<open>s_log\<close>, \<open>h_log\<close>, \<open>mw_log\<close> and their like; the theorems speak about these
  lists.  Errors are \<open>Inl\<close> of a sum, a missing value is \<open>None\<close>, a panic of the Go
  runtime is \<open>None\<close> of the function that may panic, and so is a dial that is still
  up when a run of the model ends.  Concurrency is a step relation or a step
  function over the atomic operations of the code (\<open>media_step\<close>, \<open>cd_step\<close>,
  \<open>sc_exec\<close>, \<open>registry_step\<close>): mutex-protected sections and atomic instructions are
  steps, and the theorems hold for every interleaving.  Clocks, random bytes,
  the resolver, the SIP transactions, HTTP replies and URL parsing are arguments.

  \<^bold>\<open>The interfaces.\<close>

  Four locales state contracts between parts, and each is interpreted on the
  program's own definitions: \<open>bounded_queue\<close> (\<open>Prelude\<close>: the non-blocking use of
  channels, used by the pool, the audio queues and the callback queues),
  \<open>port_provider\<close> (\<open>Port_Pool\<close>), \<open>event_filter\<close> (\<open>Subscription\<close>) and \<open>dial_resources\<close>
  (\<open>Twiml\<close>: what the dispatcher expects of the target of a \<open>Dial\<close>; the adapter of
  \<open>Mid_Call\<close> provides it, so no dispatched document leaks a port).

  \<^bold>\<open>What the lemmas show.\<close>

  Toll fraud: the allow-list denies by default, and the caps per session and per
  minute hold for every sequence of dials and for interleaved ones
  (\<open>Guardrails\<close>); no INVITE leaves without them (\<open>Dial_dialog_safety\<close>).  Privacy: after
  \<open>CloseStream\<close> no audio, digit or mark reaches the bot (\<open>privacy_gate\<close>); no secret is
  logged (\<open>mask_writer_no_secret\<close>).  Server-side requests: a callback to a customer's URL
  dials no blocked address, over all retries and redirects, is signed on every hop and
  counts as delivered only on a 2xx at the end of the way (\<open>customer_urls_guarded\<close>).  Lifecycle: an INVITE is refused without a
  trace or answered with all resources (\<open>onInvite_all_or_nothing\<close>); ports are neither
  lost nor shared; a call ends once, with one BYE and one terminal callback; it can
  be looked up until its retention ends; shutdown reaches every call; a dial
  returns, is counted once and reported in order.  Callbacks are delivered once, in
  order, in bounded time, with a signature that the receiver can recompute.  The wait for
  an INVITE is bounded whatever the SIP stack does, and every dialog is closed once,
  by the dial or by the reaper (\<open>dial_race_safe\<close>).  REST:
  size limit, authentication, and what a modification may change; pages list each
  call once.  Formats: TwiML documents, SRTP keys and WebSocket events are read back
  as they were written; the answer to an offer is consistent with it.  The TwiML
  dispatcher over the adapter refines an abstract trace (\<open>midcall_document\<close>), and the
  frames on the wire refine the abstract frames of the session (\<open>wire_refines_frames\<close>).

  The whole service: \<open>started_service\<close> says that the states from which the other
  theorems start are those that \<open>main\<close> builds, \<open>http_surface\<close> that nothing but a
  request with the credentials changes or counts anything over HTTP, and what happens
  when no token is configured; the shutdown ends in 25 seconds (\<open>shutdown_in_time\<close>).

  Calls from end to end (\<open>Inbound_Call\<close>): whatever happens in any number of calls, after them
  the ports, the registry and the gauge are as \<open>main\<close> left them (\<open>calls_leave_no_trace\<close>).

  From a request to an INVITE, in this theory: an INVITE that a REST request causes implies the
  credentials, a live call, an allowed number, the caps, a closed stream and a single
  INVITE (\<open>request_to_invite\<close>).  Labels: the values the components count under are the
  declared ones (\<open>metric_labels_declared\<close>), and what a clean run of the linter says
  about the values a label can take (\<open>lint_clean_bounded\<close>), against a collecting
  semantics of the assignments of a function.

  \<^bold>\<open>Bounds.\<close>

  No definition has fuel.  The linter's classifier may not return, so it is a partial
  function into options, with a theorem on when it does.  The other loops over tokens and queues are structural or have
  a measure, a request follows at most nine redirects because \<^verbatim>\<open>net/http\<close> does, the drain
  polls every 50 milliseconds within its budget, the reconnect loop decreases its remaining budget (30 seconds, waits
  of 1, 2, 4, 4, ... seconds), and a delivery has at most four attempts.  Integers
  that the code keeps at a width wrap (\<open>i32\<close>, \<open>i64\<close>, words); where a theorem excludes
  an overflow the bound is a hypothesis: a page number whose product with the page
  size fits 64 bits, fewer than 2^31 counted dials.  The call's duration in seconds
  is a float64 in the code and a quotient here; both agree below 2^53 nanoseconds.
  Upper and lower case are those of ASCII.

  \<^bold>\<open>Not modelled, and why.\<close>

  The SIP stack (sipgo), sockets, RTP and SRTP packet formats, TLS, the router, JSON text
  and the Go XML tokeniser are libraries: their results are arguments.  Of the HTTP
  client there is what decides who is dialled and what is sent (transport, redirects,
  signing), of the server the handlers; time-outs of single requests appear as the
  errors they cause.  The six media goroutines are modelled per iteration, their tickers
  and sockets are not.  The methods of the SIP library's dialog that \<^verbatim>\<open>sip/digest.go\<close> wraps in one line,
  \<^verbatim>\<open>onAck\<close>, interface declarations (\<^verbatim>\<open>sip/preregistered.go\<close> among them), accessors, the
  fields of log lines, and constructors for tests have no definitions.  \<^verbatim>\<open>bridge/testing.go\<close>,
  \<^verbatim>\<open>api/test_helpers.go\<close> and \<^verbatim>\<open>test/\<close> are tests.  Of the linter, loading and type-checking the
  packages is outside: the trees arrive with the objects of their identifiers.
\<close>

section \<open>From a request to an INVITE\<close>

lemma accepted_prefix:
  "fst (CheckDial now g sid target) = None \<Longrightarrow> \<exists>p \<in> set (allowedPrefixes g). has_prefix (normalizeTarget target) p"
  by (auto simp: CheckDial_def matchAllowList_def list_ex_iff Let_def split: prod.splits if_splits)

text \<open>The INVITEs among what a dial leaves: one at most, to the trunk, after the
  guardrails have accepted the dial.\<close>

lemma Dial_invites:
  assumes "Dial env cfg now d w f = Some (x, f')" "core f' = core f @ xs" "iv \<in> set xs" "is_invite iv"
  shows "fst (CheckDial now (fw_guard f) (dc_callerSid d) (dc_target d)) = None" "filter is_invite xs = [iv]"
    "\<exists>from disp ppi body. iv = Invite (targetURI (dc_target d) (fc_SIPDomain cfg) (fc_SIPOutboundTargetPort cfg)) from disp ppi body"
proof -
  obtain r e where x: "x = (r, e)" by fastforce
  have "\<not> blocked_shape xs" using assms(3,4) by (auto simp: blocked_shape_def)
  with Dial_shape[OF assms(1)[unfolded x]] assms(2)
  have ok: "fst (CheckDial now (fw_guard f) (dc_callerSid d) (dc_target d)) = None"
    and shape: "failed_shape cfg d xs (r_Status r) \<or>
      (\<exists>ok. answered_shape cfg d ok (dw_ack_ok w) (DialogDone \<in> set (dw_events w)) xs)"
    by (auto split: if_splits)
  from ok show "fst (CheckDial now (fw_guard f) (dc_callerSid d) (dc_target d)) = None" .
  from shape assms(3,4) have iv: "inv_ok cfg d iv \<and> filter is_invite xs = [iv]"
  proof (elim disjE exE)
    assume "failed_shape cfg d xs (r_Status r)"
    then show ?thesis using assms(3,4) unfolding failed_shape_def by (elim bexE disjE exE conjE) (auto dest: inv_ok_simps split: if_splits)
  next
    fix ok assume "answered_shape cfg d ok (dw_ack_ok w) (DialogDone \<in> set (dw_events w)) xs"
    then show ?thesis using assms(3,4) by (auto simp: answered_shape_def dest: inv_ok_simps split: if_splits)
  qed
  then show "filter is_invite xs = [iv]"
    "\<exists>from disp ppi body. iv = Invite (targetURI (dc_target d) (fc_SIPDomain cfg) (fc_SIPOutboundTargetPort cfg)) from disp ppi body"
    by (auto simp: inv_ok_def)
qed

text \<open>C1. No call is placed through the REST API without leave.  When the background
  run of the TwiML that a request brought sends an INVITE, at whatever later moment
  and in whatever state it runs, then the request was authenticated as the account,
  it named a call that was live and active, it was answered with 200, its document's
  first effective verb was a Dial of a number that the allow-list admits and the
  caps accept at that moment, the stream to the bot was closed before the forwarder
  started, and this is the one INVITE that is sent, to the trunk.\<close>

theorem request_to_invite:
  assumes served: "Mount env cfg rt req s = Some (out, s')" "rs_effects s' = rs_effects s @ es" "DispatchSpawned r vs \<in> set es"
    and run: "Dispatch True (midCallAdapter (ap_mid env) r) vs w = Some (e, w')"
    and live: "r < length (cm_heap (mw_manager w))" "gate_wf (mw_session r w)"
    and sent: "core (mw_fwd w') = core (mw_fwd w) @ xs" "iv \<in> set xs" "is_invite iv"
  shows "hi_auth req = Some (ac_accountSid cfg, ac_authToken cfg) \<and> ho_status out = 200 \<and>
    (\<exists>a c. rt = ModifyCall a c \<and> active_ref (rs_manager s) c = Some r) \<and>
    (\<exists>d w1 x. first_effect vs = Some (VDial d) \<and> mw_fwd w1 = mw_fwd w \<and> s_streamClosed (mw_session r w1) \<and>
       mid_dial (ap_mid env) r (fst (ResolveDialTarget d)) (dial_opts_of d) w1 = Some (x, mw_fwd w') \<and>
       fst (CheckDial (me_clock (ap_mid env)) (fw_guard (mw_fwd w)) (s_callSid (mw_session r w1)) (fst (ResolveDialTarget d))) = None \<and>
       (\<exists>p \<in> set (allowedPrefixes (fw_guard (mw_fwd w))). has_prefix (normalizeTarget (fst (ResolveDialTarget d))) p)) \<and>
    filter is_invite xs = [iv] \<and>
    (\<exists>to from disp ppi body. iv = Invite to from disp ppi body \<and> u_host to = fc_SIPDomain (me_cfg (ap_mid env)))"
proof -
  from Mount_spawns[OF served] obtain a c where req: "rt = ModifyCall a c"
    "hi_auth req = Some (ac_accountSid cfg, ac_authToken cfg)" "active_ref (rs_manager s) c = Some r" "ho_status out = 200" by blast
  have "mw_fwd w' \<noteq> mw_fwd w" using sent by auto
  from Dispatch_dials[OF run live this] obtain d w1 x where d: "first_effect vs = Some (VDial d)" "mw_fwd w1 = mw_fwd w"
    "s_streamClosed (mw_session r w1)" "mid_dial (ap_mid env) r (fst (ResolveDialTarget d)) (dial_opts_of d) w1 = Some (x, mw_fwd w')"
    by blast
  have sent1: "core (mw_fwd w') = core ((mw_fwd w1)\<lparr> fw_session := mw_session r w1 \<rparr>) @ xs" using sent(1) d(2) by simp
  note inv = Dial_invites[OF d(4)[unfolded mid_dial_def Let_def] sent1 sent(2,3)]
  from inv(1) have ok: "fst (CheckDial (me_clock (ap_mid env)) (fw_guard (mw_fwd w)) (s_callSid (mw_session r w1)) (fst (ResolveDialTarget d))) = None"
    by (simp add: d(2))
  from inv(3) have "\<exists>to from disp ppi body. iv = Invite to from disp ppi body \<and> u_host to = fc_SIPDomain (me_cfg (ap_mid env))"
    by (auto simp: targetURI_def)
  with req d ok accepted_prefix[OF ok] inv(2) show ?thesis by blast
qed

definition dial_api :: api_env where
  "dial_api = demo_api\<lparr> ap_xml := (\<lambda>b. ([StartEl ''Response'' [], StartEl ''Dial'' [], CharData ''+49301'', EndEl ''Dial'', EndEl ''Response''], XmlEOF)) \<rparr>"

definition dial_document :: "verb list" where
  "dial_document = (case Parse (ap_xml dial_api) ''x'' of Inl e \<Rightarrow> [] | Inr vs \<Rightarrow> vs)"

definition dial_reply :: "http_out \<times> rest" where
  "dial_reply = the (Mount dial_api demo_acfg (ModifyCall ''AC1'' demo_sid) (demo_post ''Twiml=x'') demo_rest)"

definition dial_after :: mid_world where
  "dial_after = snd (the (Dispatch True (midCallAdapter (ap_mid dial_api) 0) dial_document demo_live))"

lemma dial_request:
  "Mount dial_api demo_acfg (ModifyCall ''AC1'' demo_sid) (demo_post ''Twiml=x'') demo_rest = Some (fst dial_reply, snd dial_reply)"
  "DispatchSpawned 0 dial_document \<in> set (rs_effects (snd dial_reply))"
proof -
  have "\<not> Option.is_none (Mount dial_api demo_acfg (ModifyCall ''AC1'' demo_sid) (demo_post ''Twiml=x'') demo_rest)" by code_simp
  then show run: "Mount dial_api demo_acfg (ModifyCall ''AC1'' demo_sid) (demo_post ''Twiml=x'') demo_rest = Some (fst dial_reply, snd dial_reply)"
    by (simp add: dial_reply_def Option.is_none_def)
  have "list_ex (\<lambda>e. spawned e = Some 0) (rs_effects (snd dial_reply))" by code_simp
  then obtain vs where vs: "DispatchSpawned 0 vs \<in> set (rs_effects (snd dial_reply))"
    by (auto simp: list_ex_iff spawned_iff)
  moreover have "rs_effects demo_rest = []" by (simp add: demo_rest_def)
  ultimately obtain raw where raw: "Parse (ap_xml dial_api) raw = Inr vs"
    using Mount_spawns[OF run, of "rs_effects (snd dial_reply)" 0 vs] by auto
  then have "raw \<noteq> ''''" by (auto simp: Parse_def malformed_def)
  then have "Parse (ap_xml dial_api) ''x'' = Parse (ap_xml dial_api) raw"
    by (simp add: Parse_def dial_api_def)
  with raw have "dial_document = vs" by (simp add: dial_document_def)
  with vs show "DispatchSpawned 0 dial_document \<in> set (rs_effects (snd dial_reply))" by simp
qed

lemma dial_run:
  "\<exists>e. Dispatch True (midCallAdapter (ap_mid dial_api) 0) dial_document demo_live = Some (e, dial_after)"
  "list_ex is_invite (core (mw_fwd dial_after))"
proof -
  have "\<not> Option.is_none (Dispatch True (midCallAdapter (ap_mid dial_api) 0) dial_document demo_live)" by code_simp
  then show "\<exists>e. Dispatch True (midCallAdapter (ap_mid dial_api) 0) dial_document demo_live = Some (e, dial_after)"
    by (auto simp: dial_after_def Option.is_none_def)
  show "list_ex is_invite (core (mw_fwd dial_after))" by code_simp
qed

theorem request_to_invite_witness:
  "\<exists>d. first_effect dial_document = Some (VDial d) \<and> has_prefix (normalizeTarget (fst (ResolveDialTarget d))) ''+49'' \<and>
    length (filter is_invite (core (mw_fwd dial_after))) = 1"
proof -
  from dial_run obtain e iv where run: "Dispatch True (midCallAdapter (ap_mid dial_api) 0) dial_document demo_live = Some (e, dial_after)"
    "iv \<in> set (core (mw_fwd dial_after))" "is_invite iv" by (auto simp: list_ex_iff)
  have h: "rs_effects (snd dial_reply) = rs_effects demo_rest @ rs_effects (snd dial_reply)"
    "0 < length (cm_heap (mw_manager demo_live))" "gate_wf (mw_session 0 demo_live)"
    "core (mw_fwd dial_after) = core (mw_fwd demo_live) @ core (mw_fwd dial_after)"
    "set (allowedPrefixes (fw_guard (mw_fwd demo_live))) = {''+49''}"
    by (simp_all add: demo_rest_def demo_live_def gate_wf_def mw_session_def new_session_def core_def demo_fwd_def NewGuardrails_def)
  from request_to_invite[OF dial_request(1) h(1) dial_request(2) run(1) h(2,3,4) run(2,3)] h(5) show ?thesis by auto
qed

end
